theory Spec2Isabelle
  imports Complex_Main
begin

section \<open>Resource utilization calculator: data model\<close>

text \<open>
  Shallow embedding of \<^verbatim>\<open>resource_utilization_calculator.py\<close>. Python integers that count
  elements, bits or MAC operations are natural numbers; byte counts, which the source obtains
  by the true division \<^verbatim>\<open>size * nbits / 8\<close>, are exact rationals (every value is a multiple of
  one eighth, which a binary float represents exactly in the range of tensor sizes).
  Every \<^verbatim>\<open>raise\<close> and failing \<^verbatim>\<open>assert\<close> of the source is a value of type \<open>error\<close>.
\<close>

datatype BitwidthMode = Float | Q8Bit | QMaxBit | QMinBit | QCustom | QDefaultSP

datatype TargetInclusionCriterion = QConfigurable | QNonConfigurable | AnyQuantized | Any

datatype RUTarget = WEIGHTS | ACTIVATION | TOTAL | BOPS

datatype error =
    UnexpectedCustomCfg    \<comment> \<open>ValueError(unexpected_qc_error)\<close>
  | UnusedWeightCfg        \<comment> \<open>ValueError: weight configuration passed but no relevant targets\<close>
  | UnusedActivationCfg    \<comment> \<open>ValueError: activation configuration passed but no relevant targets\<close>
  | UnknownAttribute       \<comment> \<open>ValueError: custom configuration contains unexpected weight attrs\<close>
  | EmptyAttrList          \<comment> \<open>ValueError: explicit list of attributes cannot be empty\<close>
  | AmbiguousDefault       \<comment> \<open>ValueError: could not retrieve the quantization candidate\<close>
  | UnknownMode            \<comment> \<open>ValueError: unknown mode\<close>
  | NotSupported           \<comment> \<open>NotImplementedError\<close>
  | TopoSortMismatch       \<comment> \<open>ValueError: could not topo-sort\<close>
  | CutComputationFailed   \<comment> \<open>RuntimeError: failed to calculate activation memory cuts\<close>
  | AssertionError
  | EmptySequence          \<comment> \<open>ValueError of max() / min() on an empty sequence\<close>
  | KeyError
  | IndexError

datatype WeightAttrT = AttrName string | AttrPos int

record NodeActivationQuantizationConfig =
  activation_n_bits :: nat
  enable_activation_quantization :: bool

record WeightsAttrQuantizationConfig =
  weights_n_bits :: nat
  enable_weights_quantization :: bool

text \<open>
  Modelled from the spec: class \<^verbatim>\<open>NodeWeightsQuantizationConfig\<close> is not among the sources.
  The spec describes a per-weight-attribute table of \<open>(n_bits, enabled)\<close> in which an
  attribute is looked up; it is an association list from attribute names to attribute
  configurations, with \<^verbatim>\<open>all_weight_attrs\<close>, \<^verbatim>\<open>has_attribute_config\<close> and
  \<^verbatim>\<open>get_attr_config\<close> as the key list, the key test and the lookup.
\<close>

type_synonym NodeWeightsQuantizationConfig = "(WeightAttrT \<times> WeightsAttrQuantizationConfig) list"

definition all_weight_attrs :: "NodeWeightsQuantizationConfig \<Rightarrow> WeightAttrT list" where
  "all_weight_attrs qc = map fst qc"

definition has_attribute_config :: "NodeWeightsQuantizationConfig \<Rightarrow> WeightAttrT \<Rightarrow> bool" where
  "has_attribute_config qc attr = (attr \<in> set (map fst qc))"

definition get_attr_config ::
  "NodeWeightsQuantizationConfig \<Rightarrow> WeightAttrT \<Rightarrow> error + WeightsAttrQuantizationConfig" where
  "get_attr_config qc attr = (case map_of qc attr of None \<Rightarrow> Inl KeyError | Some c \<Rightarrow> Inr c)"

record CandidateNodeQuantizationConfig =
  activation_quantization_cfg :: NodeActivationQuantizationConfig
  weights_quantization_cfg :: NodeWeightsQuantizationConfig

text \<open>
  A node of the graph. Class \<^verbatim>\<open>BaseNode\<close> is not among the sources; each field holds what
  the accessor of the same name returns to the calculator: \<open>total_output_params\<close> is
  \<^verbatim>\<open>get_total_output_params()\<close>, \<open>weights\<close> maps an attribute to the \<^verbatim>\<open>size\<close> of its
  tensor, \<open>node_weights_attributes\<close> is \<^verbatim>\<open>get_node_weights_attributes()\<close>, the four
  predicates are \<^verbatim>\<open>is_activation_quantization_enabled\<close>, \<^verbatim>\<open>has_configurable_activation\<close>,
  \<^verbatim>\<open>is_weights_quantization_enabled\<close>, \<^verbatim>\<open>is_configurable_weight\<close>, and
  \<open>kernel_weight_to_quantize\<close> is \<^verbatim>\<open>has_kernel_weight_to_quantize(fw_info)\<close>.
  Nodes are compared by value; the nodes of one graph differ in their \<open>name\<close>.
\<close>

record BaseNode =
  name :: string
  op_type :: string
  reuse :: bool
  reuse_group :: "string option"
  weights :: "(WeightAttrT \<times> nat) list"
  total_output_params :: nat
  node_weights_attributes :: "WeightAttrT list"
  candidates_quantization_cfg :: "CandidateNodeQuantizationConfig list"
  activation_quantization_enabled :: bool
  configurable_activation :: bool
  weights_quantization_enabled :: "WeightAttrT \<Rightarrow> bool"
  configurable_weight :: "WeightAttrT \<Rightarrow> bool"
  kernel_weight_to_quantize :: bool

section \<open>Errors as values\<close>

fun mapM :: "('a \<Rightarrow> error + 'b) \<Rightarrow> 'a list \<Rightarrow> error + 'b list" where
  "mapM f [] = Inr []"
| "mapM f (x # xs) =
     (case f x of
        Inl e \<Rightarrow> Inl e
      | Inr y \<Rightarrow> (case mapM f xs of Inl e \<Rightarrow> Inl e | Inr ys \<Rightarrow> Inr (y # ys)))"

text \<open>Python's \<^verbatim>\<open>max\<close> and \<^verbatim>\<open>min\<close> of a list of integers raise on the empty list.\<close>

fun py_max :: "nat list \<Rightarrow> error + nat" where
  "py_max [] = Inl EmptySequence"
| "py_max (x # xs) = Inr (fold max xs x)"

fun py_min :: "nat list \<Rightarrow> error + nat" where
  "py_min [] = Inl EmptySequence"
| "py_min (x # xs) = Inr (fold min xs x)"

section \<open>Quantization config resolver\<close>

definition FLOAT_BITWIDTH :: nat where
  "FLOAT_BITWIDTH = 32"

definition bitwidth_mode_fn :: "BitwidthMode \<Rightarrow> (nat list \<Rightarrow> error + nat) option" where
  "bitwidth_mode_fn m =
     (if m = QMaxBit then Some py_max else if m = QMinBit then Some py_min else None)"

text \<open>
  Modelled from the spec: the accessors \<^verbatim>\<open>get_unique_activation_candidates\<close> and
  \<^verbatim>\<open>get_unique_weights_candidates\<close> of \<^verbatim>\<open>BaseNode\<close> are not among the sources. The
  spec speaks of the node's unique activation candidates and of its unique candidates
  restricted to the named weight attribute: the candidates in their order, one kept for each
  distinct activation configuration, respectively for each distinct configuration of the
  attribute. Reading the attribute's configuration fails on a candidate that lacks it.
\<close>

fun unique_by :: "('a \<Rightarrow> 'k) \<Rightarrow> 'k list \<Rightarrow> 'a list \<Rightarrow> 'a list" where
  "unique_by key seen [] = []"
| "unique_by key seen (c # cs) =
     (if key c \<in> set seen then unique_by key seen cs
      else c # unique_by key (key c # seen) cs)"

definition get_unique_activation_candidates :: "BaseNode \<Rightarrow> CandidateNodeQuantizationConfig list" where
  "get_unique_activation_candidates n =
     unique_by activation_quantization_cfg [] (candidates_quantization_cfg n)"

definition get_unique_weights_candidates ::
  "BaseNode \<Rightarrow> WeightAttrT \<Rightarrow> error + CandidateNodeQuantizationConfig list" where
  "get_unique_weights_candidates n attr =
     (case mapM (\<lambda>c. get_attr_config (weights_quantization_cfg c) attr)
             (candidates_quantization_cfg n) of
        Inl e \<Rightarrow> Inl e
      | Inr _ \<Rightarrow>
          Inr (unique_by (\<lambda>c. map_of (weights_quantization_cfg c) attr) []
                 (candidates_quantization_cfg n)))"

definition get_activation_nbits ::
  "BaseNode \<Rightarrow> BitwidthMode \<Rightarrow> NodeActivationQuantizationConfig option \<Rightarrow> error + nat" where
  "get_activation_nbits n bitwidth_mode act_qc =
     (case act_qc of
        Some qc \<Rightarrow>
          if bitwidth_mode \<noteq> QCustom then Inl AssertionError
          else Inr (if enable_activation_quantization qc then activation_n_bits qc
                    else FLOAT_BITWIDTH)
      | None \<Rightarrow>
          if bitwidth_mode = Float \<or> \<not> activation_quantization_enabled n
          then Inr FLOAT_BITWIDTH
          else if bitwidth_mode = Q8Bit then Inr 8
          else (case bitwidth_mode_fn bitwidth_mode of
                  Some f \<Rightarrow>
                    f (map (\<lambda>c. activation_n_bits (activation_quantization_cfg c))
                         (candidates_quantization_cfg n))
                | None \<Rightarrow>
                    if bitwidth_mode \<in> {QCustom, QDefaultSP}
                    then (case get_unique_activation_candidates n of
                            [c] \<Rightarrow> Inr (activation_n_bits (activation_quantization_cfg c))
                          | _ \<Rightarrow> Inl AmbiguousDefault)
                    else Inl UnknownMode))"

definition get_weight_nbits ::
  "BaseNode \<Rightarrow> WeightAttrT \<Rightarrow> BitwidthMode \<Rightarrow> NodeWeightsQuantizationConfig option
     \<Rightarrow> error + nat" where
  "get_weight_nbits n w_attr bitwidth_mode w_qc =
     (if w_qc \<noteq> None \<and> bitwidth_mode \<noteq> QCustom then Inl AssertionError
      else if w_qc \<noteq> None \<and> has_attribute_config (the w_qc) w_attr
      then (case get_attr_config (the w_qc) w_attr of
              Inl e \<Rightarrow> Inl e
            | Inr attr_cfg \<Rightarrow>
                Inr (if enable_weights_quantization attr_cfg then weights_n_bits attr_cfg
                     else FLOAT_BITWIDTH))
      else if bitwidth_mode = Float \<or> \<not> weights_quantization_enabled n w_attr
      then Inr FLOAT_BITWIDTH
      else if bitwidth_mode = Q8Bit then Inr 8
      else (case get_unique_weights_candidates n w_attr of
              Inl e \<Rightarrow> Inl e
            | Inr node_qcs \<Rightarrow>
               (case mapM (\<lambda>qc. get_attr_config (weights_quantization_cfg qc) w_attr) node_qcs of
                  Inl e \<Rightarrow> Inl e
                | Inr w_qcs \<Rightarrow>
                   (case bitwidth_mode_fn bitwidth_mode of
                      Some f \<Rightarrow> f (map weights_n_bits w_qcs)
                    | None \<Rightarrow>
                        if bitwidth_mode \<in> {QCustom, QDefaultSP}
                        then (case w_qcs of
                                [c] \<Rightarrow> Inr (weights_n_bits c)
                              | _ \<Rightarrow> Inl AmbiguousDefault)
                        else Inl UnknownMode))))"

section \<open>Utilization values\<close>

text \<open>
  \<^verbatim>\<open>Utilization(size, bytes)\<close>; the field \<^verbatim>\<open>size\<close> is named \<open>size_u\<close> here.
  Addition is field-wise, comparison is by \<open>bytes\<close>.
\<close>

record Utilization =
  size_u :: nat
  bytes :: rat

definition utilization_add :: "Utilization \<Rightarrow> Utilization \<Rightarrow> Utilization" where
  "utilization_add a b = \<lparr>size_u = size_u a + size_u b, bytes = bytes a + bytes b\<rparr>"

definition zero_utilization :: Utilization where
  "zero_utilization = \<lparr>size_u = 0, bytes = 0\<rparr>"

text \<open>
  \<^verbatim>\<open>sum(values)\<close> of a non-empty sequence of utilizations: the start value 0 is absorbed
  by \<^verbatim>\<open>__radd__\<close>, the rest is added from the left. Both call sites guard against the
  empty sequence, for which the first equation is never reached.
\<close>

fun sum_utilization :: "Utilization list \<Rightarrow> Utilization" where
  "sum_utilization [] = zero_utilization"
| "sum_utilization (u # us) = fold (\<lambda>x acc. utilization_add acc x) us u"

text \<open>\<^verbatim>\<open>max(values)\<close>: the first element that no later one exceeds in \<open>bytes\<close>.\<close>

fun max_utilization :: "Utilization list \<Rightarrow> error + Utilization" where
  "max_utilization [] = Inl EmptySequence"
| "max_utilization (u # us) =
     Inr (fold (\<lambda>item best. if bytes item > bytes best then item else best) us u)"

section \<open>Graph and calculator\<close>

record Edge =
  source_node :: BaseNode
  sink_node :: BaseNode
  source_index :: nat
  sink_index :: nat

text \<open>
  The graph as the calculator reads it: \<open>nodes\<close> is the node view (each node once),
  \<open>topo_sorted_nodes\<close> is what \<^verbatim>\<open>get_topo_sorted_nodes()\<close> returns.
\<close>

record Graph =
  nodes :: "BaseNode list"
  edges :: "Edge list"
  topo_sorted_nodes :: "BaseNode list"

text \<open>
  Modelled from the spec: \<^verbatim>\<open>Graph.incoming_edges\<close> and \<^verbatim>\<open>Graph.find_node_by_name\<close> are not
  among the sources. The spec's graph gives the edges that reach a node, sortable by sink
  port index, and resolves a memory element to a node by a lookup of its name.
\<close>

definition incoming_edges :: "Graph \<Rightarrow> BaseNode \<Rightarrow> Edge list" where
  "incoming_edges g n = sort_key sink_index (filter (\<lambda>e. sink_node e = n) (edges g))"

definition find_node_by_name :: "Graph \<Rightarrow> string \<Rightarrow> BaseNode list" where
  "find_node_by_name g nm = filter (\<lambda>n. name n = nm) (nodes g)"

text \<open>
  A cut is given by the \<^verbatim>\<open>node_name\<close> of each of its memory elements
  (\<^verbatim>\<open>cut.mem_elements.elements\<close>).
\<close>

type_synonym Cut = "string list"

text \<open>
  The calculator: its graph, the framework implementation's \<^verbatim>\<open>get_node_mac_operations\<close>,
  the framework info's \<^verbatim>\<open>get_kernel_op_attributes\<close>, and the result of \<^verbatim>\<open>_compute_cuts\<close>
  (the max-cut engine is not among the sources; \<open>None\<close> is its failure).
\<close>

record ResourceUtilizationCalculator =
  graph :: Graph
  get_node_mac_operations :: "BaseNode \<Rightarrow> nat"
  get_kernel_op_attributes :: "string \<Rightarrow> WeightAttrT list"
  compute_cuts :: "Cut list option"

text \<open>
  A dictionary filled by assignments \<^verbatim>\<open>d[k] = f(k)\<close> for \<open>k\<close> in a sequence has each key once,
  in the order of first insertion: \<open>dedup\<close> gives its keys.
\<close>

definition dedup :: "'a list \<Rightarrow> 'a list" where
  "dedup xs = unique_by (\<lambda>x. x) [] xs"

text \<open>The caches filled by \<^verbatim>\<open>__init__\<close>.\<close>

definition act_tensors_size :: "ResourceUtilizationCalculator \<Rightarrow> BaseNode \<rightharpoonup> nat" where
  "act_tensors_size c = map_of (map (\<lambda>n. (n, total_output_params n)) (nodes (graph c)))"

definition params_cnt :: "ResourceUtilizationCalculator \<Rightarrow> BaseNode \<rightharpoonup> (WeightAttrT \<rightharpoonup> nat)" where
  "params_cnt c =
     map_of (map (\<lambda>n. (n, map_of (weights n))) (filter (\<lambda>n. weights n \<noteq> []) (nodes (graph c))))"

text \<open>
  The property \<^verbatim>\<open>cuts\<close>: cuts without memory elements are dropped, every memory element is
  resolved to the first node of its name. The value is computed once and cached by the
  source; the graph does not change, so the cache holds this value at every read.
\<close>

definition cuts :: "ResourceUtilizationCalculator \<Rightarrow> error + (Cut \<times> BaseNode list) list" where
  "cuts c =
     (case compute_cuts c of
        None \<Rightarrow> Inl CutComputationFailed
      | Some cs \<Rightarrow>
          mapM (\<lambda>cut.
                  case mapM (\<lambda>m. case find_node_by_name (graph c) m of
                                     [] \<Rightarrow> Inl IndexError
                                   | n # _ \<Rightarrow> Inr n) cut of
                    Inl e \<Rightarrow> Inl e
                  | Inr ns \<Rightarrow> Inr (cut, ns))
               (dedup (filter (\<lambda>cut. cut \<noteq> []) cs)))"

section \<open>Target selector\<close>

definition get_target_activation_nodes ::
  "ResourceUtilizationCalculator \<Rightarrow> TargetInclusionCriterion \<Rightarrow> bool \<Rightarrow> BaseNode list option
     \<Rightarrow> BaseNode list" where
  "get_target_activation_nodes c target_criterion include_reused nodes_arg =
     (let nodes0 = (case nodes_arg of
                      None \<Rightarrow> nodes (graph c)
                    | Some [] \<Rightarrow> nodes (graph c)
                    | Some (x # xs) \<Rightarrow> x # xs);
          nodes1 = (case target_criterion of
                      QConfigurable \<Rightarrow> filter configurable_activation nodes0
                    | AnyQuantized \<Rightarrow> filter activation_quantization_enabled nodes0
                    | QNonConfigurable \<Rightarrow>
                        filter (\<lambda>n. activation_quantization_enabled n \<and>
                                     \<not> configurable_activation n) nodes0
                    | Any \<Rightarrow> nodes0)
      in if \<not> include_reused then filter (\<lambda>n. \<not> reuse n) nodes1 else nodes1)"

definition get_target_weight_attrs :: "BaseNode \<Rightarrow> TargetInclusionCriterion \<Rightarrow> WeightAttrT list" where
  "get_target_weight_attrs n target_criterion =
     (let weight_attrs = node_weights_attributes n
      in case target_criterion of
           QConfigurable \<Rightarrow> filter (configurable_weight n) weight_attrs
         | AnyQuantized \<Rightarrow> filter (weights_quantization_enabled n) weight_attrs
         | QNonConfigurable \<Rightarrow>
             (let quantized = filter (weights_quantization_enabled n) weight_attrs;
                  configurable = filter (configurable_weight n) weight_attrs
              in filter (\<lambda>attr. attr \<notin> set configurable) quantized)
         | Any \<Rightarrow> weight_attrs)"

definition collect_target_nodes_w_attrs ::
  "ResourceUtilizationCalculator \<Rightarrow> TargetInclusionCriterion \<Rightarrow> bool
     \<Rightarrow> (BaseNode \<times> WeightAttrT list) list" where
  "collect_target_nodes_w_attrs c target_criterion include_reused =
     map (\<lambda>n. (n, get_target_weight_attrs n target_criterion))
       (dedup (filter (\<lambda>n. get_target_weight_attrs n target_criterion \<noteq> [] \<and>
                            (include_reused \<or> \<not> reuse n))
                 (nodes (graph c))))"

definition topo_sort :: "ResourceUtilizationCalculator \<Rightarrow> BaseNode list \<Rightarrow> error + BaseNode list" where
  "topo_sort c ns =
     (if ns = [] then Inr []
      else (let topo_nodes = filter (\<lambda>n. n \<in> set ns) (topo_sorted_nodes (graph c))
            in if length topo_nodes \<noteq> length ns then Inl TopoSortMismatch
               else Inr topo_nodes))"

text \<open>
  A dictionary of custom configurations that may be \<^verbatim>\<open>None\<close>: \<open>dict_truthy\<close> is its truth
  value, \<open>dict_get d k\<close> is \<^verbatim>\<open>d.get(k) if d else None\<close>.
\<close>

definition dict_truthy :: "('k \<times> 'v) list option \<Rightarrow> bool" where
  "dict_truthy d = (case d of None \<Rightarrow> False | Some kvs \<Rightarrow> kvs \<noteq> [])"

definition dict_get :: "('k \<times> 'v) list option \<Rightarrow> 'k \<Rightarrow> 'v option" where
  "dict_get d k = (case d of None \<Rightarrow> None | Some kvs \<Rightarrow> map_of kvs k)"

section \<open>Utilization aggregator\<close>

text \<open>
  The second argument of \<^verbatim>\<open>compute_node_weights_utilization\<close> is a criterion or an explicit
  list of attributes.
\<close>

datatype criterion_or_attrs = Criterion TargetInclusionCriterion | Attrs "WeightAttrT list"

definition compute_node_weights_utilization ::
  "ResourceUtilizationCalculator \<Rightarrow> BaseNode \<Rightarrow> criterion_or_attrs \<Rightarrow> BitwidthMode
     \<Rightarrow> NodeWeightsQuantizationConfig option
     \<Rightarrow> error + (Utilization \<times> (WeightAttrT \<times> Utilization) list)" where
  "compute_node_weights_utilization c n target_criterion bitwidth_mode qc =
     (if qc \<noteq> None \<and> bitwidth_mode \<noteq> QCustom then Inl UnexpectedCustomCfg
      else if qc \<noteq> None \<and>
              set (all_weight_attrs (the qc)) - set (node_weights_attributes n) \<noteq> {}
      then Inl UnknownAttribute
      else
        (case (case target_criterion of
                 Criterion crit \<Rightarrow> Inr (get_target_weight_attrs n crit)
               | Attrs attrs \<Rightarrow> if attrs = [] then Inl EmptyAttrList else Inr attrs) of
           Inl e \<Rightarrow> Inl e
         | Inr weight_attrs \<Rightarrow>
            (case mapM (\<lambda>attr.
                          case params_cnt c n of
                            None \<Rightarrow> Inl KeyError
                          | Some cnt \<Rightarrow>
                             (case cnt attr of
                                None \<Rightarrow> Inl KeyError
                              | Some sz \<Rightarrow>
                                 (case get_weight_nbits n attr bitwidth_mode qc of
                                    Inl e \<Rightarrow> Inl e
                                  | Inr nbits \<Rightarrow>
                                      Inr (attr, \<lparr>size_u = sz,
                                                  bytes = of_nat (sz * nbits) / 8\<rparr>))))
                       (dedup weight_attrs) of
               Inl e \<Rightarrow> Inl e
             | Inr attr_util \<Rightarrow>
                 Inr (if attr_util = [] then zero_utilization
                      else sum_utilization (map snd attr_util),
                      attr_util))))"

definition compute_weights_utilization ::
  "ResourceUtilizationCalculator \<Rightarrow> TargetInclusionCriterion \<Rightarrow> BitwidthMode
     \<Rightarrow> (BaseNode \<times> NodeWeightsQuantizationConfig) list option
     \<Rightarrow> error + (rat \<times> (BaseNode \<times> Utilization) list
                     \<times> (BaseNode \<times> (WeightAttrT \<times> Utilization) list) list)" where
  "compute_weights_utilization c target_criterion bitwidth_mode w_qcs =
     (if dict_truthy w_qcs \<and> bitwidth_mode \<noteq> QCustom then Inl UnexpectedCustomCfg
      else
        (let node_attrs = collect_target_nodes_w_attrs c target_criterion False
         in case topo_sort c (map fst node_attrs) of
              Inl e \<Rightarrow> Inl e
            | Inr sorted_nodes \<Rightarrow>
               (case mapM (\<lambda>n.
                             case map_of node_attrs n of
                               None \<Rightarrow> Inl KeyError
                             | Some attrs \<Rightarrow>
                                (case compute_node_weights_utilization c n (Attrs attrs)
                                        bitwidth_mode (dict_get w_qcs n) of
                                   Inl e \<Rightarrow> Inl e
                                 | Inr (node_weights_util, per_weight_util) \<Rightarrow>
                                     Inr (n, node_weights_util, per_weight_util)))
                          (dedup sorted_nodes) of
                  Inl e \<Rightarrow> Inl e
                | Inr res \<Rightarrow>
                   (let util_per_node = map (\<lambda>(n, u, pw). (n, u)) res;
                        util_per_node_per_weight = map (\<lambda>(n, u, pw). (n, pw)) res;
                        total_util = (if util_per_node = [] then zero_utilization
                                      else sum_utilization (map snd util_per_node))
                    in Inr (bytes total_util, util_per_node, util_per_node_per_weight)))))"

definition compute_node_activation_tensor_utilization ::
  "ResourceUtilizationCalculator \<Rightarrow> BaseNode \<Rightarrow> TargetInclusionCriterion option \<Rightarrow> BitwidthMode
     \<Rightarrow> NodeActivationQuantizationConfig option \<Rightarrow> error + Utilization" where
  "compute_node_activation_tensor_utilization c n target_criterion bitwidth_mode qc =
     (if qc \<noteq> None \<and> bitwidth_mode \<noteq> QCustom then Inl UnexpectedCustomCfg
      else if target_criterion \<noteq> None \<and>
              get_target_activation_nodes c (the target_criterion) True (Some [n]) = []
      then Inr zero_utilization
      else (case act_tensors_size c n of
              None \<Rightarrow> Inl KeyError
            | Some sz \<Rightarrow>
               (case get_activation_nbits n bitwidth_mode qc of
                  Inl e \<Rightarrow> Inl e
                | Inr nbits \<Rightarrow> Inr \<lparr>size_u = sz, bytes = of_nat (sz * nbits) / 8\<rparr>)))"

definition get_cut_target_nodes ::
  "ResourceUtilizationCalculator \<Rightarrow> TargetInclusionCriterion \<Rightarrow> BaseNode list \<Rightarrow> BaseNode list" where
  "get_cut_target_nodes c target_criterion cut_nodes =
     get_target_activation_nodes c target_criterion True (Some cut_nodes)"

text \<open>
  One pass of the loop over the cuts: the utilization of every target node of the cut, keyed
  by node. A cut without target nodes gets no entry (the \<^verbatim>\<open>continue\<close> of the source).
\<close>

definition cut_nodes_utilization ::
  "ResourceUtilizationCalculator \<Rightarrow> TargetInclusionCriterion \<Rightarrow> BitwidthMode
     \<Rightarrow> (BaseNode \<times> NodeActivationQuantizationConfig) list option \<Rightarrow> BaseNode list
     \<Rightarrow> error + (BaseNode \<times> Utilization) list" where
  "cut_nodes_utilization c target_criterion bitwidth_mode act_qcs cut_nodes =
     mapM (\<lambda>n. case compute_node_activation_tensor_utilization c n (Some target_criterion)
                       bitwidth_mode (dict_get act_qcs n) of
                  Inl e \<Rightarrow> Inl e
                | Inr u \<Rightarrow> Inr (n, u))
          (dedup (get_cut_target_nodes c target_criterion cut_nodes))"

definition compute_activation_utilization_by_cut ::
  "ResourceUtilizationCalculator \<Rightarrow> TargetInclusionCriterion \<Rightarrow> BitwidthMode
     \<Rightarrow> (BaseNode \<times> NodeActivationQuantizationConfig) list option
     \<Rightarrow> error + (rat \<times> (Cut \<times> Utilization) list
                     \<times> (Cut \<times> (BaseNode \<times> Utilization) list) list)" where
  "compute_activation_utilization_by_cut c target_criterion bitwidth_mode act_qcs =
     (if dict_truthy act_qcs \<and> bitwidth_mode \<noteq> QCustom then Inl UnexpectedCustomCfg
      else if get_target_activation_nodes c target_criterion True None = []
      then Inr (0, [], [])
      else
        (case cuts c of
           Inl e \<Rightarrow> Inl e
         | Inr cs \<Rightarrow>
            (case mapM (\<lambda>(cut, cut_nodes).
                          case cut_nodes_utilization c target_criterion bitwidth_mode act_qcs
                                 cut_nodes of
                            Inl e \<Rightarrow> Inl e
                          | Inr per_node \<Rightarrow> Inr (cut, per_node)) cs of
               Inl e \<Rightarrow> Inl e
             | Inr visited \<Rightarrow>
                (let util_per_cut_per_node = filter (\<lambda>(cut, per_node). per_node \<noteq> []) visited;
                     util_per_cut = map (\<lambda>(cut, per_node). (cut, sum_utilization (map snd per_node)))
                                      util_per_cut_per_node
                 in case max_utilization (map snd util_per_cut) of
                      Inl e \<Rightarrow> Inl e
                    | Inr total_util \<Rightarrow>
                        Inr (bytes total_util, util_per_cut, util_per_cut_per_node)))))"

definition compute_activations_utilization ::
  "ResourceUtilizationCalculator \<Rightarrow> TargetInclusionCriterion \<Rightarrow> BitwidthMode
     \<Rightarrow> (BaseNode \<times> NodeActivationQuantizationConfig) list option \<Rightarrow> error + rat" where
  "compute_activations_utilization c target_criterion bitwidth_mode act_qcs =
     (case compute_activation_utilization_by_cut c target_criterion bitwidth_mode act_qcs of
        Inl e \<Rightarrow> Inl e
      | Inr (total_util, per_cut, per_cut_per_node) \<Rightarrow> Inr total_util)"

definition compute_node_bops ::
  "ResourceUtilizationCalculator \<Rightarrow> BaseNode \<Rightarrow> BitwidthMode
     \<Rightarrow> (BaseNode \<times> NodeActivationQuantizationConfig) list option
     \<Rightarrow> NodeWeightsQuantizationConfig option \<Rightarrow> error + nat" where
  "compute_node_bops c n bitwidth_mode act_qcs w_qc =
     (let node_mac = get_node_mac_operations c n
      in if node_mac = 0 then Inr node_mac
         else
           (let incoming = incoming_edges (graph c) n
            in if incoming = [] then Inr 0
               else if length incoming \<noteq> 1 then Inl AssertionError
               else
                 (let input_act_node = source_node (hd incoming)
                  in case get_activation_nbits input_act_node bitwidth_mode
                            (dict_get act_qcs input_act_node) of
                       Inl e \<Rightarrow> Inl e
                     | Inr a_nbits \<Rightarrow>
                        (let kernel_attrs = get_kernel_op_attributes c (op_type n)
                         in if length kernel_attrs > 1 then Inl NotSupported
                            else (case kernel_attrs of
                                    [] \<Rightarrow> Inl IndexError
                                  | kernel_attr # _ \<Rightarrow>
                                     (case get_weight_nbits n kernel_attr bitwidth_mode w_qc of
                                        Inl e \<Rightarrow> Inl e
                                      | Inr w_nbits \<Rightarrow> Inr (a_nbits * w_nbits * node_mac)))))))"

definition compute_bops ::
  "ResourceUtilizationCalculator \<Rightarrow> TargetInclusionCriterion \<Rightarrow> BitwidthMode
     \<Rightarrow> (BaseNode \<times> NodeActivationQuantizationConfig) list option
     \<Rightarrow> (BaseNode \<times> NodeWeightsQuantizationConfig) list option
     \<Rightarrow> error + (nat \<times> (BaseNode \<times> nat) list)" where
  "compute_bops c target_criterion bitwidth_mode act_qcs w_qcs =
     (if target_criterion \<noteq> AnyQuantized then Inl NotSupported
      else
        (let ns = filter kernel_weight_to_quantize
                    (map fst (collect_target_nodes_w_attrs c target_criterion True))
         in case mapM (\<lambda>n. case compute_node_bops c n bitwidth_mode act_qcs (dict_get w_qcs n) of
                              Inl e \<Rightarrow> Inl e
                            | Inr b \<Rightarrow> Inr (n, b)) ns of
              Inl e \<Rightarrow> Inl e
            | Inr nodes_bops \<Rightarrow> Inr (sum_list (map snd nodes_bops), nodes_bops)))"

text \<open>
  Modelled from the spec: class \<^verbatim>\<open>ResourceUtilization\<close> is not among the sources. The spec
  gives it four optional fields, memory in bytes and BOPS in bit operations, and a helper
  \<^verbatim>\<open>get_restricted_targets\<close> that returns the populated subset.
\<close>

record ResourceUtilization =
  weights_memory :: "rat option"
  activation_memory :: "rat option"
  total_memory :: "rat option"
  bops :: "nat option"

definition empty_resource_utilization :: ResourceUtilization where
  "empty_resource_utilization =
     \<lparr>weights_memory = None, activation_memory = None, total_memory = None, bops = None\<rparr>"

definition get_restricted_targets :: "ResourceUtilization \<Rightarrow> RUTarget set" where
  "get_restricted_targets ru =
     (if weights_memory ru = None then {} else {WEIGHTS}) \<union>
     (if activation_memory ru = None then {} else {ACTIVATION}) \<union>
     (if total_memory ru = None then {} else {TOTAL}) \<union>
     (if bops ru = None then {} else {BOPS})"

text \<open>\<^verbatim>\<open>set(ru_targets) if ru_targets else set(RUTarget)\<close>\<close>

definition requested_targets :: "RUTarget list option \<Rightarrow> RUTarget set" where
  "requested_targets ru_targets =
     (case ru_targets of
        None \<Rightarrow> {WEIGHTS, ACTIVATION, TOTAL, BOPS}
      | Some [] \<Rightarrow> {WEIGHTS, ACTIVATION, TOTAL, BOPS}
      | Some (t # ts) \<Rightarrow> set (t # ts))"

definition compute_resource_utilization ::
  "ResourceUtilizationCalculator \<Rightarrow> TargetInclusionCriterion \<Rightarrow> BitwidthMode
     \<Rightarrow> (BaseNode \<times> NodeActivationQuantizationConfig) list option
     \<Rightarrow> (BaseNode \<times> NodeWeightsQuantizationConfig) list option
     \<Rightarrow> RUTarget list option \<Rightarrow> bool \<Rightarrow> error + ResourceUtilization" where
  "compute_resource_utilization c target_criterion bitwidth_mode act_qcs w_qcs ru_targets
      allow_unused_qcs =
     (let targets = requested_targets ru_targets;
          w_unused = (dict_truthy w_qcs \<and> {WEIGHTS, TOTAL, BOPS} \<inter> targets = {});
          act_unused = (dict_truthy act_qcs \<and> {ACTIVATION, TOTAL, BOPS} \<inter> targets = {});
          w_qcs1 = (if w_unused then None else w_qcs);
          act_qcs1 = (if act_unused then None else act_qcs)
      in
        if (dict_truthy w_qcs \<or> dict_truthy act_qcs) \<and> bitwidth_mode \<noteq> QCustom
        then Inl UnexpectedCustomCfg
        else if w_unused \<and> \<not> allow_unused_qcs then Inl UnusedWeightCfg
        else if act_unused \<and> \<not> allow_unused_qcs then Inl UnusedActivationCfg
        else
          (case (if {WEIGHTS, TOTAL} \<inter> targets \<noteq> {}
                 then (case compute_weights_utilization c target_criterion bitwidth_mode w_qcs1 of
                         Inl e \<Rightarrow> Inl e
                       | Inr (w, per_node, per_weight) \<Rightarrow> Inr (Some w))
                 else Inr None) of
             Inl e \<Rightarrow> Inl e
           | Inr w_total \<Rightarrow>
              (case (if {ACTIVATION, TOTAL} \<inter> targets \<noteq> {}
                     then (case compute_activations_utilization c target_criterion bitwidth_mode
                                  act_qcs1 of
                             Inl e \<Rightarrow> Inl e
                           | Inr a \<Rightarrow> Inr (Some a))
                     else Inr None) of
                 Inl e \<Rightarrow> Inl e
               | Inr a_total \<Rightarrow>
                  (let ru1 = (if WEIGHTS \<in> targets
                              then empty_resource_utilization\<lparr>weights_memory := w_total\<rparr>
                              else empty_resource_utilization);
                       ru2 = (if ACTIVATION \<in> targets then ru1\<lparr>activation_memory := a_total\<rparr>
                              else ru1);
                       ru3 = (if TOTAL \<in> targets
                              then ru2\<lparr>total_memory := Some (the w_total + the a_total)\<rparr>
                              else ru2)
                   in case (if BOPS \<in> targets
                            then (case compute_bops c target_criterion bitwidth_mode act_qcs1 w_qcs1 of
                                    Inl e \<Rightarrow> Inl e
                                  | Inr (b, per_node) \<Rightarrow> Inr (ru3\<lparr>bops := Some b\<rparr>))
                            else Inr ru3) of
                        Inl e \<Rightarrow> Inl e
                      | Inr ru \<Rightarrow>
                          if get_restricted_targets ru = targets then Inr ru
                          else Inl AssertionError))))"

section \<open>The specification's formulations\<close>

text \<open>
  The resolution order of the effective bit-width as the specification words it, step by
  step, for comparison with \<open>get_activation_nbits\<close> and \<open>get_weight_nbits\<close>. The
  specification names the failure of a custom configuration under a non-custom mode
  \<open>UnexpectedCustomCfg\<close>.
\<close>

definition spec_activation_nbits ::
  "BaseNode \<Rightarrow> BitwidthMode \<Rightarrow> NodeActivationQuantizationConfig option \<Rightarrow> error + nat" where
  "spec_activation_nbits n mode custom =
     (case custom of
        Some cfg \<Rightarrow>
          if mode = QCustom
          then Inr (if enable_activation_quantization cfg then activation_n_bits cfg else 32)
          else Inl UnexpectedCustomCfg
      | None \<Rightarrow>
          if mode = Float \<or> \<not> activation_quantization_enabled n then Inr 32
          else if mode = Q8Bit then Inr 8
          else if mode = QMaxBit
          then py_max (map (\<lambda>c. activation_n_bits (activation_quantization_cfg c))
                         (candidates_quantization_cfg n))
          else if mode = QMinBit
          then py_min (map (\<lambda>c. activation_n_bits (activation_quantization_cfg c))
                         (candidates_quantization_cfg n))
          else (case get_unique_activation_candidates n of
                  [c] \<Rightarrow> Inr (activation_n_bits (activation_quantization_cfg c))
                | _ \<Rightarrow> Inl AmbiguousDefault))"

definition spec_weight_nbits_default :: "BaseNode \<Rightarrow> WeightAttrT \<Rightarrow> BitwidthMode \<Rightarrow> error + nat" where
  "spec_weight_nbits_default n attr mode =
     (if mode = Float \<or> \<not> weights_quantization_enabled n attr then Inr 32
      else if mode = Q8Bit then Inr 8
      else if mode = QMaxBit
      then (case mapM (\<lambda>c. get_attr_config (weights_quantization_cfg c) attr)
                   (candidates_quantization_cfg n) of
              Inl e \<Rightarrow> Inl e
            | Inr cfgs \<Rightarrow> py_max (map weights_n_bits cfgs))
      else if mode = QMinBit
      then (case mapM (\<lambda>c. get_attr_config (weights_quantization_cfg c) attr)
                   (candidates_quantization_cfg n) of
              Inl e \<Rightarrow> Inl e
            | Inr cfgs \<Rightarrow> py_min (map weights_n_bits cfgs))
      else (case get_unique_weights_candidates n attr of
              Inl e \<Rightarrow> Inl e
            | Inr [c] \<Rightarrow>
                (case get_attr_config (weights_quantization_cfg c) attr of
                   Inl e \<Rightarrow> Inl e
                 | Inr cfg \<Rightarrow> Inr (weights_n_bits cfg))
            | Inr _ \<Rightarrow> Inl AmbiguousDefault))"

definition spec_weight_nbits ::
  "BaseNode \<Rightarrow> WeightAttrT \<Rightarrow> BitwidthMode \<Rightarrow> NodeWeightsQuantizationConfig option \<Rightarrow> error + nat" where
  "spec_weight_nbits n attr mode custom =
     (case custom of
        Some cfg \<Rightarrow>
          if mode = QCustom
          then (case map_of cfg attr of
                  Some a \<Rightarrow> Inr (if enable_weights_quantization a then weights_n_bits a else 32)
                | None \<Rightarrow> spec_weight_nbits_default n attr mode)
          else Inl UnexpectedCustomCfg
      | None \<Rightarrow> spec_weight_nbits_default n attr mode)"

text \<open>
  The code's result refines the specification's: the same value on success, the same
  failure otherwise, a failed assertion of the code standing for \<open>UnexpectedCustomCfg\<close>.
\<close>

definition refines :: "error + 'a \<Rightarrow> error + 'a \<Rightarrow> bool" where
  "refines r s =
     (case r of
        Inr v \<Rightarrow> s = Inr v
      | Inl e \<Rightarrow> s = Inl (if e = AssertionError then UnexpectedCustomCfg else e))"

text \<open>
  The activation memory of one cut as the specification words it: select the cut's target
  activation nodes by the criterion, take \<open>output_element_count \<times> effective_nbits / 8\<close>
  for each selected node, and sum.
\<close>

definition spec_activation_target :: "TargetInclusionCriterion \<Rightarrow> BaseNode \<Rightarrow> bool" where
  "spec_activation_target crit n =
     (case crit of
        QConfigurable \<Rightarrow> configurable_activation n
      | AnyQuantized \<Rightarrow> activation_quantization_enabled n
      | QNonConfigurable \<Rightarrow> activation_quantization_enabled n \<and> \<not> configurable_activation n
      | Any \<Rightarrow> True)"

definition spec_node_activation_bytes ::
  "BitwidthMode \<Rightarrow> (BaseNode \<times> NodeActivationQuantizationConfig) list option \<Rightarrow> BaseNode
     \<Rightarrow> error + rat" where
  "spec_node_activation_bytes mode act_qcs n =
     (case get_activation_nbits n mode (dict_get act_qcs n) of
        Inl e \<Rightarrow> Inl e
      | Inr nbits \<Rightarrow> Inr (of_nat (total_output_params n) * of_nat nbits / 8))"

definition spec_cut_bytes ::
  "TargetInclusionCriterion \<Rightarrow> BitwidthMode
     \<Rightarrow> (BaseNode \<times> NodeActivationQuantizationConfig) list option \<Rightarrow> BaseNode list
     \<Rightarrow> error + rat" where
  "spec_cut_bytes crit mode act_qcs cut_nodes =
     (case mapM (spec_node_activation_bytes mode act_qcs)
             (remdups (filter (spec_activation_target crit) cut_nodes)) of
        Inl e \<Rightarrow> Inl e
      | Inr bs \<Rightarrow> Inr (sum_list bs))"

section \<open>A small graph\<close>

text \<open>
  An input feeding a convolution and a second convolution that reuses the first one's
  weights. The kernel has the candidates 4 and 8 bits, the input's activation 4 and 8 bits.
\<close>

definition ex_kernel :: WeightAttrT where
  "ex_kernel = AttrName ''kernel''"

definition ex_bias :: WeightAttrT where
  "ex_bias = AttrName ''bias''"

definition ex_cand :: "nat \<Rightarrow> nat \<Rightarrow> CandidateNodeQuantizationConfig" where
  "ex_cand a w =
     \<lparr>activation_quantization_cfg =
        \<lparr>activation_n_bits = a, enable_activation_quantization = True\<rparr>,
      weights_quantization_cfg =
        [(ex_kernel, \<lparr>weights_n_bits = w, enable_weights_quantization = True\<rparr>)]\<rparr>"

definition ex_input :: BaseNode where
  "ex_input =
     \<lparr>name = ''input'', op_type = ''Input'', reuse = False, reuse_group = None,
      weights = [], total_output_params = 48, node_weights_attributes = [],
      candidates_quantization_cfg = [ex_cand 4 8, ex_cand 8 8],
      activation_quantization_enabled = True, configurable_activation = True,
      weights_quantization_enabled = (\<lambda>a. False), configurable_weight = (\<lambda>a. False),
      kernel_weight_to_quantize = False\<rparr>"

definition ex_conv :: BaseNode where
  "ex_conv =
     \<lparr>name = ''conv'', op_type = ''Conv2D'', reuse = False, reuse_group = Some ''conv'',
      weights = [(ex_kernel, 16), (ex_bias, 4)], total_output_params = 32,
      node_weights_attributes = [ex_kernel, ex_bias],
      candidates_quantization_cfg = [ex_cand 8 4, ex_cand 8 8],
      activation_quantization_enabled = True, configurable_activation = False,
      weights_quantization_enabled = (\<lambda>a. a = ex_kernel),
      configurable_weight = (\<lambda>a. a = ex_kernel),
      kernel_weight_to_quantize = True\<rparr>"

definition ex_conv_reused :: BaseNode where
  "ex_conv_reused = ex_conv\<lparr>name := ''conv_reused'', reuse := True\<rparr>"

definition ex_edge :: "BaseNode \<Rightarrow> BaseNode \<Rightarrow> Edge" where
  "ex_edge src dst = \<lparr>source_node = src, sink_node = dst, source_index = 0, sink_index = 0\<rparr>"

definition ex_graph :: Graph where
  "ex_graph =
     \<lparr>nodes = [ex_input, ex_conv, ex_conv_reused],
      edges = [ex_edge ex_input ex_conv, ex_edge ex_input ex_conv_reused],
      topo_sorted_nodes = [ex_input, ex_conv, ex_conv_reused]\<rparr>"

definition ex_graph_no_reuse :: Graph where
  "ex_graph_no_reuse =
     \<lparr>nodes = [ex_input, ex_conv],
      edges = [ex_edge ex_input ex_conv],
      topo_sorted_nodes = [ex_input, ex_conv]\<rparr>"

definition ex_mac :: "BaseNode \<Rightarrow> nat" where
  "ex_mac n = (if kernel_weight_to_quantize n then 100 else 0)"

definition ex_kernel_attrs :: "string \<Rightarrow> WeightAttrT list" where
  "ex_kernel_attrs t = (if t = ''Conv2D'' then [ex_kernel] else [])"

definition ex_calc :: ResourceUtilizationCalculator where
  "ex_calc =
     \<lparr>graph = ex_graph, get_node_mac_operations = ex_mac,
      get_kernel_op_attributes = ex_kernel_attrs,
      compute_cuts = Some [[''input''], [''input'', ''conv''], [''conv'', ''conv_reused'']]\<rparr>"

definition ex_calc_no_reuse :: ResourceUtilizationCalculator where
  "ex_calc_no_reuse =
     \<lparr>graph = ex_graph_no_reuse, get_node_mac_operations = ex_mac,
      get_kernel_op_attributes = ex_kernel_attrs,
      compute_cuts = Some [[''input''], [''input'', ''conv'']]\<rparr>"

text \<open>A graph whose only node is a convolution that no edge reaches.\<close>

definition ex_calc_no_input :: ResourceUtilizationCalculator where
  "ex_calc_no_input =
     \<lparr>graph = \<lparr>nodes = [ex_conv], edges = [], topo_sorted_nodes = [ex_conv]\<rparr>,
      get_node_mac_operations = ex_mac, get_kernel_op_attributes = ex_kernel_attrs,
      compute_cuts = Some [[''conv'']]\<rparr>"

text \<open>Custom configurations: 4 bits for the kernel of the convolution and for the input.\<close>

definition ex_attr_cfg :: "nat \<Rightarrow> WeightsAttrQuantizationConfig" where
  "ex_attr_cfg w = \<lparr>weights_n_bits = w, enable_weights_quantization = True\<rparr>"

definition ex_w_qcs :: "(BaseNode \<times> NodeWeightsQuantizationConfig) list option" where
  "ex_w_qcs = Some [(ex_conv, [(ex_kernel, ex_attr_cfg 4)])]"

definition ex_act_qcs :: "(BaseNode \<times> NodeActivationQuantizationConfig) list option" where
  "ex_act_qcs =
     Some [(ex_input, \<lparr>activation_n_bits = 4, enable_activation_quantization = True\<rparr>)]"

text \<open>The convolution reached by two edges.\<close>

definition ex_calc_two_inputs :: ResourceUtilizationCalculator where
  "ex_calc_two_inputs =
     \<lparr>graph = \<lparr>nodes = [ex_input, ex_conv],
               edges = [ex_edge ex_input ex_conv, (ex_edge ex_input ex_conv)\<lparr>sink_index := 1\<rparr>],
               topo_sorted_nodes = [ex_input, ex_conv]\<rparr>,
      get_node_mac_operations = ex_mac, get_kernel_op_attributes = ex_kernel_attrs,
      compute_cuts = Some [[''input''], [''input'', ''conv'']]\<rparr>"

text \<open>
  The convolution reached by two edges under a framework that counts no MAC operations,
  and the graph of the reused convolution without the edge that reaches it.
\<close>

definition ex_calc_two_inputs_no_mac :: ResourceUtilizationCalculator where
  "ex_calc_two_inputs_no_mac = ex_calc_two_inputs\<lparr>get_node_mac_operations := (\<lambda>n. 0)\<rparr>"

definition ex_calc_reused_no_input :: ResourceUtilizationCalculator where
  "ex_calc_reused_no_input =
     \<lparr>graph = \<lparr>nodes = [ex_input, ex_conv, ex_conv_reused],
               edges = [ex_edge ex_input ex_conv],
               topo_sorted_nodes = [ex_input, ex_conv, ex_conv_reused]\<rparr>,
      get_node_mac_operations = ex_mac, get_kernel_op_attributes = ex_kernel_attrs,
      compute_cuts = Some [[''input''], [''input'', ''conv''], [''conv'', ''conv_reused'']]\<rparr>"

section \<open>Properties\<close>

subsection \<open>Failing computations\<close>

lemma mapM_Inl: "mapM f xs = Inl e \<Longrightarrow> \<exists>x \<in> set xs. f x = Inl e"
  by (induction xs) (auto split: sum.splits)

lemma py_max_err: "py_max xs = Inl e \<Longrightarrow> e = EmptySequence"
  by (cases xs) auto

lemma py_min_err: "py_min xs = Inl e \<Longrightarrow> e = EmptySequence"
  by (cases xs) auto

lemma get_attr_config_err: "get_attr_config qc a = Inl e \<Longrightarrow> e = KeyError"
  by (auto simp: get_attr_config_def split: option.splits)

lemma get_unique_weights_candidates_err:
  "get_unique_weights_candidates n a = Inl e \<Longrightarrow> e = KeyError"
  by (auto simp: get_unique_weights_candidates_def split: sum.splits
      dest!: mapM_Inl get_attr_config_err)

lemma get_weight_nbits_err:
  "get_weight_nbits n a m q = Inl e \<Longrightarrow>
     e \<in> {AssertionError, KeyError, EmptySequence, AmbiguousDefault, UnknownMode}"
  unfolding get_weight_nbits_def bitwidth_mode_fn_def
  by (auto split: if_splits sum.splits option.splits list.splits
      dest!: mapM_Inl get_attr_config_err get_unique_weights_candidates_err
             py_max_err py_min_err)

lemma requested_targets_nonempty: "requested_targets ts \<noteq> {}"
  by (auto simp: requested_targets_def split: option.splits list.splits)

lemma only_weights_requested:
  assumes "{ACTIVATION, TOTAL, BOPS} \<inter> requested_targets ts = {}"
  shows "{WEIGHTS, TOTAL, BOPS} \<inter> requested_targets ts \<noteq> {}"
proof -
  obtain t where t: "t \<in> requested_targets ts"
    using requested_targets_nonempty by blast
  with assms have "t = WEIGHTS" by (cases t) auto
  with t show ?thesis by blast
qed

subsection \<open>Validation of the request\<close>

text \<open>
  C3. A call of \<open>compute_resource_utilization\<close> that is given a non-empty custom weight
  configuration or a non-empty custom activation configuration under a bit-width mode other
  than \<open>QCustom\<close> fails with the error of an unexpected custom configuration; it returns no
  resource utilization.
\<close>

theorem custom_cfg_rejected_outside_custom_mode:
  assumes "dict_truthy w_qcs \<or> dict_truthy act_qcs"
    and "bitwidth_mode \<noteq> QCustom"
  shows "compute_resource_utilization c crit bitwidth_mode act_qcs w_qcs ru_targets allow
         = Inl UnexpectedCustomCfg"
  using assms by (simp add: compute_resource_utilization_def Let_def)

theorem custom_cfg_rejected_outside_custom_mode_witness:
  "(dict_truthy (Some [(ex_conv, [(ex_kernel, \<lparr>weights_n_bits = 4, enable_weights_quantization = True\<rparr>)])])
      \<or> dict_truthy (None :: (BaseNode \<times> NodeActivationQuantizationConfig) list option)) \<and>
   QMinBit \<noteq> QCustom \<and>
   compute_resource_utilization ex_calc AnyQuantized QMinBit None
     (Some [(ex_conv, [(ex_kernel, \<lparr>weights_n_bits = 4, enable_weights_quantization = True\<rparr>)])])
     None False = Inl UnexpectedCustomCfg"
proof -
  have h1: "dict_truthy (Some [(ex_conv, [(ex_kernel, \<lparr>weights_n_bits = 4, enable_weights_quantization = True\<rparr>)])])
      \<or> dict_truthy (None :: (BaseNode \<times> NodeActivationQuantizationConfig) list option)"
    by (simp add: dict_truthy_def)
  have h2: "QMinBit \<noteq> QCustom" by simp
  from custom_cfg_rejected_outside_custom_mode [OF h1 h2] h1 h2 show ?thesis by blast
qed

text \<open>
  C4. Under mode \<open>QCustom\<close>, a non-empty weight configuration with none of Weights, Total
  and BOPS among the requested targets makes the call fail when \<open>allow_unused_qcs\<close> is
  false; when it is true the weight configuration is dropped and the call computes what it
  computes without one. The same holds for a non-empty activation configuration and the
  targets Activation, Total and BOPS.
\<close>

theorem unused_custom_cfg:
  "(dict_truthy w_qcs \<and> {WEIGHTS, TOTAL, BOPS} \<inter> requested_targets ts = {} \<longrightarrow>
      compute_resource_utilization c crit QCustom act_qcs w_qcs ts False = Inl UnusedWeightCfg \<and>
      compute_resource_utilization c crit QCustom act_qcs w_qcs ts True
        = compute_resource_utilization c crit QCustom act_qcs None ts True) \<and>
   (dict_truthy act_qcs \<and> {ACTIVATION, TOTAL, BOPS} \<inter> requested_targets ts = {} \<longrightarrow>
      compute_resource_utilization c crit QCustom act_qcs w_qcs ts False = Inl UnusedActivationCfg \<and>
      compute_resource_utilization c crit QCustom act_qcs w_qcs ts True
        = compute_resource_utilization c crit QCustom None w_qcs ts True)"
proof (intro conjI impI)
  assume "dict_truthy w_qcs \<and> {WEIGHTS, TOTAL, BOPS} \<inter> requested_targets ts = {}"
  then show "compute_resource_utilization c crit QCustom act_qcs w_qcs ts False = Inl UnusedWeightCfg"
    and "compute_resource_utilization c crit QCustom act_qcs w_qcs ts True
         = compute_resource_utilization c crit QCustom act_qcs None ts True"
    by (simp_all add: compute_resource_utilization_def Let_def dict_truthy_def)
next
  assume a: "dict_truthy act_qcs \<and> {ACTIVATION, TOTAL, BOPS} \<inter> requested_targets ts = {}"
  then have "{WEIGHTS, TOTAL, BOPS} \<inter> requested_targets ts \<noteq> {}"
    using only_weights_requested by blast
  with a show "compute_resource_utilization c crit QCustom act_qcs w_qcs ts False
               = Inl UnusedActivationCfg"
    and "compute_resource_utilization c crit QCustom act_qcs w_qcs ts True
         = compute_resource_utilization c crit QCustom None w_qcs ts True"
    by (simp_all add: compute_resource_utilization_def Let_def dict_truthy_def)
qed

theorem unused_custom_cfg_witness:
  "(dict_truthy ex_w_qcs \<and> {WEIGHTS, TOTAL, BOPS} \<inter> requested_targets (Some [ACTIVATION]) = {}) \<and>
   compute_resource_utilization ex_calc AnyQuantized QCustom None ex_w_qcs (Some [ACTIVATION]) False
     = Inl UnusedWeightCfg \<and>
   compute_resource_utilization ex_calc AnyQuantized QCustom None ex_w_qcs (Some [ACTIVATION]) True
     = compute_resource_utilization ex_calc AnyQuantized QCustom None None (Some [ACTIVATION]) True \<and>
   (dict_truthy ex_act_qcs \<and> {ACTIVATION, TOTAL, BOPS} \<inter> requested_targets (Some [WEIGHTS]) = {}) \<and>
   compute_resource_utilization ex_calc AnyQuantized QCustom ex_act_qcs None (Some [WEIGHTS]) False
     = Inl UnusedActivationCfg \<and>
   compute_resource_utilization ex_calc AnyQuantized QCustom ex_act_qcs None (Some [WEIGHTS]) True
     = compute_resource_utilization ex_calc AnyQuantized QCustom None None (Some [WEIGHTS]) True"
proof -
  have hw: "dict_truthy ex_w_qcs \<and>
            {WEIGHTS, TOTAL, BOPS} \<inter> requested_targets (Some [ACTIVATION]) = {}"
    by (simp add: dict_truthy_def ex_w_qcs_def requested_targets_def)
  have ha: "dict_truthy ex_act_qcs \<and>
            {ACTIVATION, TOTAL, BOPS} \<inter> requested_targets (Some [WEIGHTS]) = {}"
    by (simp add: dict_truthy_def ex_act_qcs_def requested_targets_def)
  from unused_custom_cfg [where w_qcs = ex_w_qcs and ts = "Some [ACTIVATION]" and c = ex_calc
         and crit = AnyQuantized and act_qcs = None]
       unused_custom_cfg [where w_qcs = None and ts = "Some [WEIGHTS]" and c = ex_calc
         and crit = AnyQuantized and act_qcs = ex_act_qcs]
       hw ha
  show ?thesis by blast
qed

subsection \<open>Custom weight configurations and the node's attributes\<close>

text \<open>
  C9. Under mode \<open>QCustom\<close>, the weights utilization of a node fails with the error of an
  unknown attribute whenever the custom configuration names a weight attribute that the
  node does not carry; when every attribute that the configuration names is carried by the
  node, the computation does not fail with that error.
\<close>

theorem unknown_attribute_iff_cfg_names_foreign_attr:
  "(\<not> set (all_weight_attrs qc) \<subseteq> set (node_weights_attributes n) \<longrightarrow>
      compute_node_weights_utilization c n crit QCustom (Some qc) = Inl UnknownAttribute) \<and>
   (set (all_weight_attrs qc) \<subseteq> set (node_weights_attributes n) \<longrightarrow>
      compute_node_weights_utilization c n crit QCustom (Some qc) \<noteq> Inl UnknownAttribute)"
proof (intro conjI impI)
  assume "\<not> set (all_weight_attrs qc) \<subseteq> set (node_weights_attributes n)"
  then show "compute_node_weights_utilization c n crit QCustom (Some qc) = Inl UnknownAttribute"
    by (auto simp: compute_node_weights_utilization_def)
next
  assume sub: "set (all_weight_attrs qc) \<subseteq> set (node_weights_attributes n)"
  show "compute_node_weights_utilization c n crit QCustom (Some qc) \<noteq> Inl UnknownAttribute"
  proof
    assume "compute_node_weights_utilization c n crit QCustom (Some qc) = Inl UnknownAttribute"
    with sub show False
      unfolding compute_node_weights_utilization_def
      by (auto split: if_splits sum.splits criterion_or_attrs.splits option.splits
          dest!: mapM_Inl get_weight_nbits_err)
  qed
qed

theorem unknown_attribute_iff_cfg_names_foreign_attr_witness:
  "\<not> set (all_weight_attrs [(AttrName ''gamma'', ex_attr_cfg 4)])
       \<subseteq> set (node_weights_attributes ex_conv) \<and>
   compute_node_weights_utilization ex_calc ex_conv (Criterion AnyQuantized) QCustom
     (Some [(AttrName ''gamma'', ex_attr_cfg 4)]) = Inl UnknownAttribute \<and>
   set (all_weight_attrs [(ex_kernel, ex_attr_cfg 4)]) \<subseteq> set (node_weights_attributes ex_conv) \<and>
   compute_node_weights_utilization ex_calc ex_conv (Criterion AnyQuantized) QCustom
     (Some [(ex_kernel, ex_attr_cfg 4)]) \<noteq> Inl UnknownAttribute"
proof -
  have h1: "\<not> set (all_weight_attrs [(AttrName ''gamma'', ex_attr_cfg 4)])
              \<subseteq> set (node_weights_attributes ex_conv)"
    by (simp add: all_weight_attrs_def ex_conv_def ex_kernel_def ex_bias_def)
  have h2: "set (all_weight_attrs [(ex_kernel, ex_attr_cfg 4)])
              \<subseteq> set (node_weights_attributes ex_conv)"
    by (simp add: all_weight_attrs_def ex_conv_def)
  from unknown_attribute_iff_cfg_names_foreign_attr
         [where qc = "[(AttrName ''gamma'', ex_attr_cfg 4)]" and n = ex_conv and c = ex_calc
            and crit = "Criterion AnyQuantized"]
       unknown_attribute_iff_cfg_names_foreign_attr
         [where qc = "[(ex_kernel, ex_attr_cfg 4)]" and n = ex_conv and c = ex_calc
            and crit = "Criterion AnyQuantized"]
       h1 h2
  show ?thesis by blast
qed

subsection \<open>The small graph, evaluated\<close>

lemma ex_input_fields:
  "name ex_input = ''input''" "op_type ex_input = ''Input''" "reuse ex_input = False"
  "weights ex_input = []" "total_output_params ex_input = 48"
  "node_weights_attributes ex_input = []"
  "candidates_quantization_cfg ex_input = [ex_cand 4 8, ex_cand 8 8]"
  "activation_quantization_enabled ex_input = True" "configurable_activation ex_input = True"
  "weights_quantization_enabled ex_input a = False" "configurable_weight ex_input a = False"
  "kernel_weight_to_quantize ex_input = False"
  by (simp_all add: ex_input_def)

lemma ex_conv_fields:
  "name ex_conv = ''conv''" "op_type ex_conv = ''Conv2D''" "reuse ex_conv = False"
  "weights ex_conv = [(ex_kernel, 16), (ex_bias, 4)]" "total_output_params ex_conv = 32"
  "node_weights_attributes ex_conv = [ex_kernel, ex_bias]"
  "candidates_quantization_cfg ex_conv = [ex_cand 8 4, ex_cand 8 8]"
  "activation_quantization_enabled ex_conv = True" "configurable_activation ex_conv = False"
  "weights_quantization_enabled ex_conv a = (a = ex_kernel)"
  "configurable_weight ex_conv a = (a = ex_kernel)"
  "kernel_weight_to_quantize ex_conv = True"
  by (simp_all add: ex_conv_def)

lemma ex_conv_reused_fields:
  "name ex_conv_reused = ''conv_reused''" "op_type ex_conv_reused = ''Conv2D''"
  "reuse ex_conv_reused = True"
  "weights ex_conv_reused = [(ex_kernel, 16), (ex_bias, 4)]"
  "total_output_params ex_conv_reused = 32"
  "node_weights_attributes ex_conv_reused = [ex_kernel, ex_bias]"
  "candidates_quantization_cfg ex_conv_reused = [ex_cand 8 4, ex_cand 8 8]"
  "activation_quantization_enabled ex_conv_reused = True"
  "configurable_activation ex_conv_reused = False"
  "weights_quantization_enabled ex_conv_reused a = (a = ex_kernel)"
  "configurable_weight ex_conv_reused a = (a = ex_kernel)"
  "kernel_weight_to_quantize ex_conv_reused = True"
  by (simp_all add: ex_conv_reused_def ex_conv_def)

lemma ex_nodes_distinct:
  "ex_input \<noteq> ex_conv" "ex_conv \<noteq> ex_input"
  "ex_input \<noteq> ex_conv_reused" "ex_conv_reused \<noteq> ex_input"
  "ex_conv \<noteq> ex_conv_reused" "ex_conv_reused \<noteq> ex_conv"
  by (simp_all add: ex_input_def ex_conv_def ex_conv_reused_def)

lemma ex_attrs_distinct: "ex_kernel \<noteq> ex_bias" "ex_bias \<noteq> ex_kernel"
  by (simp_all add: ex_kernel_def ex_bias_def)

lemmas ex_simps = ex_input_fields ex_conv_fields ex_conv_reused_fields ex_nodes_distinct
  ex_attrs_distinct

lemma ex_act_min: "get_activation_nbits ex_input QMinBit None = Inr 4"
  by (simp add: get_activation_nbits_def bitwidth_mode_fn_def ex_simps ex_cand_def)

lemma ex_w_max: "get_weight_nbits ex_conv ex_kernel QMaxBit None = Inr 8"
  by (simp add: get_weight_nbits_def bitwidth_mode_fn_def ex_simps ex_cand_def
      get_unique_weights_candidates_def get_attr_config_def)

lemma ex_w_min: "get_weight_nbits ex_conv ex_kernel QMinBit None = Inr 4"
  by (simp add: get_weight_nbits_def bitwidth_mode_fn_def ex_simps ex_cand_def
      get_unique_weights_candidates_def get_attr_config_def)

lemma ex_act_max: "get_activation_nbits ex_input QMaxBit None = Inr 8"
  by (simp add: get_activation_nbits_def bitwidth_mode_fn_def ex_simps ex_cand_def)

lemma ex_cuts: "cuts ex_calc =
    Inr [([''input''], [ex_input]),
         ([''input'', ''conv''], [ex_input, ex_conv]),
         ([''conv'', ''conv_reused''], [ex_conv, ex_conv_reused])]"
  by (simp add: cuts_def ex_calc_def ex_graph_def dedup_def find_node_by_name_def ex_simps)

lemma ex_weights_q8: "compute_weights_utilization ex_calc AnyQuantized Q8Bit None =
    Inr (16, [(ex_conv, \<lparr>size_u = 16, bytes = 16\<rparr>)],
         [(ex_conv, [(ex_kernel, \<lparr>size_u = 16, bytes = 16\<rparr>)])])"
  by (simp add: compute_weights_utilization_def collect_target_nodes_w_attrs_def
      get_target_weight_attrs_def dict_truthy_def dict_get_def ex_calc_def ex_graph_def
      dedup_def topo_sort_def compute_node_weights_utilization_def params_cnt_def
      get_weight_nbits_def ex_simps zero_utilization_def utilization_add_def Let_def)

lemma ex_by_cut_q8: "compute_activation_utilization_by_cut ex_calc AnyQuantized Q8Bit None =
    Inr (80,
         [([''input''], \<lparr>size_u = 48, bytes = 48\<rparr>),
          ([''input'', ''conv''], \<lparr>size_u = 80, bytes = 80\<rparr>),
          ([''conv'', ''conv_reused''], \<lparr>size_u = 64, bytes = 64\<rparr>)],
         [([''input''], [(ex_input, \<lparr>size_u = 48, bytes = 48\<rparr>)]),
          ([''input'', ''conv''],
           [(ex_input, \<lparr>size_u = 48, bytes = 48\<rparr>),
            (ex_conv, \<lparr>size_u = 32, bytes = 32\<rparr>)]),
          ([''conv'', ''conv_reused''],
           [(ex_conv, \<lparr>size_u = 32, bytes = 32\<rparr>),
            (ex_conv_reused, \<lparr>size_u = 32, bytes = 32\<rparr>)])])"
  by (simp add: compute_activation_utilization_by_cut_def cut_nodes_utilization_def
      get_cut_target_nodes_def get_target_activation_nodes_def
      compute_node_activation_tensor_utilization_def act_tensors_size_def
      get_activation_nbits_def
      dict_truthy_def dict_get_def cuts_def ex_calc_def ex_graph_def dedup_def
      find_node_by_name_def ex_simps zero_utilization_def utilization_add_def Let_def)

lemma ex_bops_q8: "compute_bops ex_calc AnyQuantized Q8Bit None None =
    Inr (12800, [(ex_conv, 6400), (ex_conv_reused, 6400)])"
  by (simp add: compute_bops_def compute_node_bops_def collect_target_nodes_w_attrs_def
      get_target_weight_attrs_def incoming_edges_def ex_edge_def ex_mac_def ex_kernel_attrs_def
      get_activation_nbits_def get_weight_nbits_def
      dict_truthy_def dict_get_def ex_calc_def ex_graph_def dedup_def
      ex_simps Let_def)

subsection \<open>Resolution of the effective bit-width\<close>

lemma mapM_Inr_D: "mapM f xs = Inr ys \<Longrightarrow> list_all2 (\<lambda>x y. f x = Inr y) xs ys"
  by (induction xs arbitrary: ys) (auto split: sum.splits)

lemma mapM_Inr_I: "list_all2 (\<lambda>x y. f x = Inr y) xs ys \<Longrightarrow> mapM f xs = Inr ys"
  by (induction rule: list_all2_induct) auto

lemma mapM_Inr_iff: "mapM f xs = Inr ys \<longleftrightarrow> list_all2 (\<lambda>x y. f x = Inr y) xs ys"
  using mapM_Inr_D mapM_Inr_I by blast

lemma mapM_total: "\<forall>x \<in> set xs. \<exists>y. f x = Inr y \<Longrightarrow> \<exists>ys. mapM f xs = Inr ys"
  by (induction xs) (auto split: sum.splits)

lemma py_max_Max: "xs \<noteq> [] \<Longrightarrow> py_max xs = Inr (Max (set xs))"
proof (cases xs)
  case Nil
  assume "xs \<noteq> []"
  with Nil show ?thesis by simp
next
  case (Cons a list)
  then show ?thesis using Max.set_eq_fold [of a list] by simp
qed

lemma py_min_Min: "xs \<noteq> [] \<Longrightarrow> py_min xs = Inr (Min (set xs))"
proof (cases xs)
  case Nil
  assume "xs \<noteq> []"
  with Nil show ?thesis by simp
next
  case (Cons a list)
  then show ?thesis using Min.set_eq_fold [of a list] by simp
qed

lemma py_max_cong:
  assumes "set xs = set ys"
  shows "py_max xs = py_max ys"
proof (cases "xs = []")
  case True
  with assms show ?thesis by simp
next
  case False
  with assms have "ys \<noteq> []" by auto
  with False assms show ?thesis by (simp add: py_max_Max)
qed

lemma py_min_cong:
  assumes "set xs = set ys"
  shows "py_min xs = py_min ys"
proof (cases "xs = []")
  case True
  with assms show ?thesis by simp
next
  case False
  with assms have "ys \<noteq> []" by auto
  with False assms show ?thesis by (simp add: py_min_Min)
qed

lemma unique_by_keys: "key ` set (unique_by key seen cs) = key ` set cs - set seen"
  by (induction cs arbitrary: seen) auto

lemma unique_by_subset: "set (unique_by key seen cs) \<subseteq> set cs"
  by (induction cs arbitrary: seen) auto

lemma activation_nbits_refines:
  "refines (get_activation_nbits n mode custom) (spec_activation_nbits n mode custom)"
  unfolding refines_def get_activation_nbits_def spec_activation_nbits_def bitwidth_mode_fn_def
    FLOAT_BITWIDTH_def
  by (cases mode; cases custom) (auto split: sum.splits list.splits dest!: py_max_err py_min_err)

lemma mapM_Inr_in: "mapM f xs = Inr ys \<Longrightarrow> x \<in> set xs \<Longrightarrow> \<exists>y. f x = Inr y"
  by (induction xs arbitrary: ys) (auto split: sum.splits)

lemma mapM_Inr_map: "mapM f xs = Inr ys \<Longrightarrow> map f xs = map Inr ys"
  by (induction xs arbitrary: ys) (auto split: sum.splits)

lemma mapM_Inr_length: "mapM f xs = Inr ys \<Longrightarrow> length ys = length xs"
  by (induction xs arbitrary: ys) (auto split: sum.splits)

lemma get_attr_config_Inr: "get_attr_config q a = Inr v \<longleftrightarrow> map_of q a = Some v"
  by (auto simp: get_attr_config_def split: option.splits)

lemma get_attr_config_key:
  "get_attr_config q a = case_option (Inl KeyError) Inr (map_of q a)"
  by (simp add: get_attr_config_def)

lemma unique_cfgs:
  fixes cands :: "CandidateNodeQuantizationConfig list"
  assumes all: "mapM (\<lambda>c. get_attr_config (weights_quantization_cfg c) attr) cands = Inr cfgs"
  shows "\<exists>ucfgs. mapM (\<lambda>c. get_attr_config (weights_quantization_cfg c) attr)
            (unique_by (\<lambda>c. map_of (weights_quantization_cfg c) attr) [] cands) = Inr ucfgs
          \<and> set ucfgs = set cfgs
          \<and> length ucfgs = length (unique_by (\<lambda>c. map_of (weights_quantization_cfg c) attr) [] cands)"
proof -
  define key where "key = (\<lambda>c :: CandidateNodeQuantizationConfig. map_of (weights_quantization_cfg c) attr)"
  define g where "g = (\<lambda>c :: CandidateNodeQuantizationConfig. get_attr_config (weights_quantization_cfg c) attr)"
  define h :: "WeightsAttrQuantizationConfig option \<Rightarrow> error + WeightsAttrQuantizationConfig"
    where "h = case_option (Inl KeyError) Inr"
  define u where "u = unique_by key [] cands"
  have gh: "g = h \<circ> key"
    by (simp add: g_def h_def key_def fun_eq_iff get_attr_config_key)
  from all have all': "mapM g cands = Inr cfgs" by (simp add: g_def)
  have "\<forall>c \<in> set u. \<exists>y. g c = Inr y"
  proof
    fix c assume "c \<in> set u"
    then have "c \<in> set cands" using unique_by_subset [of key "[]" cands] by (auto simp: u_def)
    with all' show "\<exists>y. g c = Inr y" by (rule mapM_Inr_in)
  qed
  then obtain ucfgs where uc: "mapM g u = Inr ucfgs" using mapM_total by blast
  have "Inr ` set ucfgs = g ` set u"
    using mapM_Inr_map [OF uc] by (metis set_map)
  also have "\<dots> = h ` (key ` set u)" by (simp add: gh image_comp)
  also have "key ` set u = key ` set cands" by (simp add: u_def unique_by_keys)
  also have "h ` (key ` set cands) = g ` set cands" by (simp add: gh image_comp)
  also have "\<dots> = Inr ` set cfgs"
    using mapM_Inr_map [OF all'] by (metis set_map)
  finally have "(Inr :: _ \<Rightarrow> error + _) ` set ucfgs = Inr ` set cfgs" .
  then have "set ucfgs = set cfgs" by (simp add: inj_image_eq_iff)
  moreover have "length ucfgs = length u" using uc by (rule mapM_Inr_length)
  ultimately show ?thesis using uc unfolding g_def u_def key_def by blast
qed

lemma weight_default_refines:
  fixes n :: BaseNode
  assumes "custom = None \<or> (mode = QCustom \<and> \<not> has_attribute_config (the custom) attr)"
  shows "refines (get_weight_nbits n attr mode custom) (spec_weight_nbits_default n attr mode)"
proof -
  define rest where "rest =
     (case get_unique_weights_candidates n attr of
              Inl e \<Rightarrow> Inl e
            | Inr node_qcs \<Rightarrow>
               (case mapM (\<lambda>qc. get_attr_config (weights_quantization_cfg qc) attr) node_qcs of
                  Inl e \<Rightarrow> Inl e
                | Inr w_qcs \<Rightarrow>
                   (case bitwidth_mode_fn mode of
                      Some f \<Rightarrow> f (map weights_n_bits w_qcs)
                    | None \<Rightarrow>
                        if mode \<in> {QCustom, QDefaultSP}
                        then (case w_qcs of
                                [c] \<Rightarrow> Inr (weights_n_bits c)
                              | _ \<Rightarrow> Inl AmbiguousDefault)
                        else Inl UnknownMode)))"
  have code: "get_weight_nbits n attr mode custom =
      (if mode = Float \<or> \<not> weights_quantization_enabled n attr then Inr 32
       else if mode = Q8Bit then Inr 8 else rest)"
    using assms unfolding get_weight_nbits_def rest_def FLOAT_BITWIDTH_def by auto
  show ?thesis
  proof (cases "mode = Float \<or> \<not> weights_quantization_enabled n attr \<or> mode = Q8Bit")
    case True
    then show ?thesis unfolding code spec_weight_nbits_default_def refines_def by auto
  next
    case False
    then have m: "mode \<in> {QMaxBit, QMinBit, QCustom, QDefaultSP}" by (cases mode) auto
    from False have c2: "get_weight_nbits n attr mode custom = rest" unfolding code by simp
    show ?thesis
    proof (cases "mapM (\<lambda>c. get_attr_config (weights_quantization_cfg c) attr)
                    (candidates_quantization_cfg n)")
      case (Inl e)
      then have "e = KeyError" by (auto dest!: mapM_Inl get_attr_config_err)
      with Inl have r: "rest = Inl KeyError"
        unfolding rest_def get_unique_weights_candidates_def by simp
      from Inl \<open>e = KeyError\<close> have "spec_weight_nbits_default n attr mode = Inl KeyError"
        using False m unfolding spec_weight_nbits_default_def get_unique_weights_candidates_def
        by auto
      with r c2 show ?thesis unfolding refines_def by simp
    next
      case (Inr cfgs)
      from unique_cfgs [OF Inr] obtain ucfgs where
        u: "mapM (\<lambda>c. get_attr_config (weights_quantization_cfg c) attr)
              (unique_by (\<lambda>c. map_of (weights_quantization_cfg c) attr) []
                 (candidates_quantization_cfg n)) = Inr ucfgs"
        and s: "set ucfgs = set cfgs"
        and l: "length ucfgs = length (unique_by (\<lambda>c. map_of (weights_quantization_cfg c) attr) []
                 (candidates_quantization_cfg n))"
        by blast
      have guw: "get_unique_weights_candidates n attr =
            Inr (unique_by (\<lambda>c. map_of (weights_quantization_cfg c) attr) []
                 (candidates_quantization_cfg n))"
        unfolding get_unique_weights_candidates_def using Inr by simp
      have r: "rest = (case bitwidth_mode_fn mode of
                      Some f \<Rightarrow> f (map weights_n_bits ucfgs)
                    | None \<Rightarrow>
                        if mode \<in> {QCustom, QDefaultSP}
                        then (case ucfgs of
                                [c] \<Rightarrow> Inr (weights_n_bits c)
                              | _ \<Rightarrow> Inl AmbiguousDefault)
                        else Inl UnknownMode)"
        unfolding rest_def guw using u by simp
      have mx: "py_max (map weights_n_bits ucfgs) = py_max (map weights_n_bits cfgs)"
        by (rule py_max_cong) (simp add: s)
      have mn: "py_min (map weights_n_bits ucfgs) = py_min (map weights_n_bits cfgs)"
        by (rule py_min_cong) (simp add: s)
      consider "mode = QMaxBit" | "mode = QMinBit" | "mode = QCustom \<or> mode = QDefaultSP"
        using m by auto
      then show ?thesis
      proof cases
        case 1
        have "rest = py_max (map weights_n_bits cfgs)"
          unfolding r using 1 mx by (simp add: bitwidth_mode_fn_def)
        moreover have "spec_weight_nbits_default n attr mode = py_max (map weights_n_bits cfgs)"
          using 1 False Inr unfolding spec_weight_nbits_default_def by simp
        ultimately show ?thesis unfolding c2 refines_def
          by (auto split: sum.splits dest!: py_max_err)
      next
        case 2
        have "rest = py_min (map weights_n_bits cfgs)"
          unfolding r using 2 mn by (simp add: bitwidth_mode_fn_def)
        moreover have "spec_weight_nbits_default n attr mode = py_min (map weights_n_bits cfgs)"
          using 2 False Inr unfolding spec_weight_nbits_default_def by simp
        ultimately show ?thesis unfolding c2 refines_def
          by (auto split: sum.splits dest!: py_min_err)
      next
        case 3
        have r3: "rest = (case ucfgs of [c] \<Rightarrow> Inr (weights_n_bits c) | _ \<Rightarrow> Inl AmbiguousDefault)"
          unfolding r using 3 by (auto simp: bitwidth_mode_fn_def)
        have s3: "spec_weight_nbits_default n attr mode =
             (case unique_by (\<lambda>c. map_of (weights_quantization_cfg c) attr) []
                 (candidates_quantization_cfg n) of
                [c] \<Rightarrow> (case get_attr_config (weights_quantization_cfg c) attr of
                          Inl e \<Rightarrow> Inl e | Inr cfg \<Rightarrow> Inr (weights_n_bits cfg))
              | _ \<Rightarrow> Inl AmbiguousDefault)"
          using 3 False unfolding spec_weight_nbits_default_def guw
          by (auto split: list.splits)
        show ?thesis unfolding c2 r3 s3 refines_def using u l
          by (auto split: list.splits sum.splits)
      qed
    qed
  qed
qed

text \<open>
  C2. The effective activation bit-width is resolved in the specification's order: a
  custom configuration for the node (which requires mode \<open>QCustom\<close>) gives 32 when it
  disables quantization and its \<open>n_bits\<close> otherwise; else mode \<open>Float\<close> or a node with
  activation quantization disabled gives 32; else \<open>Q8Bit\<close> gives 8; else \<open>QMaxBit\<close> and
  \<open>QMinBit\<close> give the maximum and the minimum of \<open>n_bits\<close> over all candidates; else the
  node's single unique activation candidate gives its \<open>n_bits\<close>, and the resolution fails
  when the unique candidates are not exactly one. The weight bit-width is resolved in the
  same order, with the attribute looked up in the custom configuration and the candidates
  read at the named weight attribute.
\<close>

theorem effective_nbits_resolution_order:
  fixes n :: BaseNode
  shows "refines (get_activation_nbits n mode act_qc) (spec_activation_nbits n mode act_qc) \<and>
   refines (get_weight_nbits n attr mode w_qc) (spec_weight_nbits n attr mode w_qc)"
proof
  show "refines (get_activation_nbits n mode act_qc) (spec_activation_nbits n mode act_qc)"
    by (rule activation_nbits_refines)
next
  show "refines (get_weight_nbits n attr mode w_qc) (spec_weight_nbits n attr mode w_qc)"
  proof (cases w_qc)
    case None
    then show ?thesis using weight_default_refines [of w_qc mode attr n]
      by (simp add: spec_weight_nbits_def)
  next
    case (Some cfg)
    show ?thesis
    proof (cases "mode = QCustom")
      case False
      then show ?thesis using Some
        by (simp add: refines_def get_weight_nbits_def spec_weight_nbits_def)
    next
      case True
      show ?thesis
      proof (cases "map_of cfg attr")
        case None
        then have "\<not> has_attribute_config cfg attr"
          by (simp add: has_attribute_config_def map_of_eq_None_iff)
        then show ?thesis using weight_default_refines [of w_qc mode attr n] Some True None
          by (simp add: spec_weight_nbits_def)
      next
        case (Some a)
        then have "has_attribute_config cfg attr"
          unfolding has_attribute_config_def
          by (metis map_of_eq_None_iff option.distinct(1) set_map)
        then show ?thesis using Some True \<open>w_qc = Some cfg\<close>
          by (simp add: refines_def get_weight_nbits_def spec_weight_nbits_def
              get_attr_config_def FLOAT_BITWIDTH_def)
      qed
    qed
  qed
qed

theorem effective_nbits_resolution_order_witness:
  "get_activation_nbits ex_input QMinBit None = Inr 4 \<and>
   spec_activation_nbits ex_input QMinBit None = Inr 4 \<and>
   get_weight_nbits ex_conv ex_kernel QMaxBit None = Inr 8 \<and>
   spec_weight_nbits ex_conv ex_kernel QMaxBit None = Inr 8"
  using effective_nbits_resolution_order [of ex_input QMinBit None ex_kernel None]
    effective_nbits_resolution_order [of ex_conv QMaxBit None ex_kernel None]
  by (simp add: ex_act_min ex_w_max refines_def)

subsection \<open>Reused nodes and weights memory\<close>

lemma mapM_cong: "(\<And>x. x \<in> set xs \<Longrightarrow> f x = g x) \<Longrightarrow> mapM f xs = mapM g xs"
  by (induction xs) (auto split: sum.splits)

lemma set_dedup: "set (dedup xs) = set xs"
  using unique_by_keys [of "\<lambda>x. x" "[]" xs] by (simp add: dedup_def)

lemma params_cnt_eq:
  fixes c :: ResourceUtilizationCalculator
  shows "params_cnt c n =
    (if n \<in> set (nodes (graph c)) \<and> weights n \<noteq> [] then Some (map_of (weights n)) else None)"
  unfolding params_cnt_def
  by (simp add: map_of_map_restrict restrict_map_def)

lemma collect_keys_not_reused:
  fixes c :: ResourceUtilizationCalculator
  shows "n \<in> set (map fst (collect_target_nodes_w_attrs c crit False)) \<Longrightarrow> \<not> reuse n"
  by (auto simp: collect_target_nodes_w_attrs_def set_dedup)

text \<open>
  C8. Weights aggregation collects its nodes without the reused ones. Adding to a graph a
  node flagged \<open>reuse\<close> (for instance a second node in the reuse group of an existing node)
  anywhere among the nodes and in the topological order leaves the result of
  \<open>compute_weights_utilization\<close> unchanged: the weights bytes, and the per node detail.
\<close>

theorem reused_node_leaves_weights_unchanged:
  fixes c c' :: ResourceUtilizationCalculator and n' :: BaseNode
  assumes r: "reuse n'"
    and n': "nodes (graph c') = xs @ n' # ys" and n: "nodes (graph c) = xs @ ys"
    and t': "topo_sorted_nodes (graph c') = us @ n' # vs"
    and t: "topo_sorted_nodes (graph c) = us @ vs"
  shows "compute_weights_utilization c' crit mode w_qcs
         = compute_weights_utilization c crit mode w_qcs"
proof -
  have col: "collect_target_nodes_w_attrs c' crit False = collect_target_nodes_w_attrs c crit False"
    using r by (simp add: collect_target_nodes_w_attrs_def n n')
  define ks where "ks = map fst (collect_target_nodes_w_attrs c crit False)"
  have nr: "\<And>k. k \<in> set ks \<Longrightarrow> k \<noteq> n'"
    using collect_keys_not_reused [of _ c crit] r unfolding ks_def by blast
  then have "n' \<notin> set ks" by blast
  then have topo: "topo_sort c' ks = topo_sort c ks"
    by (simp add: topo_sort_def t t')
  have sub: "\<And>sorted k. topo_sort c ks = Inr sorted \<Longrightarrow> k \<in> set (dedup sorted) \<Longrightarrow> k \<in> set ks"
    by (auto simp: topo_sort_def set_dedup Let_def split: if_splits)
  have pc: "\<And>k. k \<noteq> n' \<Longrightarrow> params_cnt c' k = params_cnt c k"
    by (simp add: params_cnt_eq n n')
  have node: "compute_node_weights_utilization c' k a mode (dict_get w_qcs k)
      = compute_node_weights_utilization c k a mode (dict_get w_qcs k)" if "k \<noteq> n'" for k a
    unfolding compute_node_weights_utilization_def pc [OF that] by (rule refl)
  show ?thesis
  proof (cases "topo_sort c ks")
    case (Inl e)
    then show ?thesis
      unfolding compute_weights_utilization_def col Let_def ks_def [symmetric] topo by simp
  next
    case (Inr sorted)
    have "mapM (\<lambda>n. case map_of (collect_target_nodes_w_attrs c crit False) n of
                       None \<Rightarrow> Inl KeyError
                     | Some attrs \<Rightarrow>
                        (case compute_node_weights_utilization c' n (Attrs attrs) mode (dict_get w_qcs n) of
                           Inl e \<Rightarrow> Inl e
                         | Inr (u, pw) \<Rightarrow> Inr (n, u, pw))) (dedup sorted)
        = mapM (\<lambda>n. case map_of (collect_target_nodes_w_attrs c crit False) n of
                       None \<Rightarrow> Inl KeyError
                     | Some attrs \<Rightarrow>
                        (case compute_node_weights_utilization c n (Attrs attrs) mode (dict_get w_qcs n) of
                           Inl e \<Rightarrow> Inl e
                         | Inr (u, pw) \<Rightarrow> Inr (n, u, pw))) (dedup sorted)"
      by (rule mapM_cong) (use sub [OF Inr] nr node in \<open>auto split: option.splits\<close>)
    then show ?thesis
      unfolding compute_weights_utilization_def col Let_def ks_def [symmetric] topo
      using Inr by simp
  qed
qed

theorem reused_node_leaves_weights_unchanged_witness:
  "reuse ex_conv_reused \<and> reuse_group ex_conv_reused = reuse_group ex_conv \<and>
   nodes (graph ex_calc) = [ex_input, ex_conv] @ ex_conv_reused # [] \<and>
   nodes (graph ex_calc_no_reuse) = [ex_input, ex_conv] @ [] \<and>
   topo_sorted_nodes (graph ex_calc) = [ex_input, ex_conv] @ ex_conv_reused # [] \<and>
   topo_sorted_nodes (graph ex_calc_no_reuse) = [ex_input, ex_conv] @ [] \<and>
   compute_weights_utilization ex_calc_no_reuse AnyQuantized Q8Bit None
     = Inr (16, [(ex_conv, \<lparr>size_u = 16, bytes = 16\<rparr>)],
            [(ex_conv, [(ex_kernel, \<lparr>size_u = 16, bytes = 16\<rparr>)])])"
proof -
  have h1: "reuse ex_conv_reused" by (simp add: ex_simps)
  have h2: "nodes (graph ex_calc) = [ex_input, ex_conv] @ ex_conv_reused # []"
    by (simp add: ex_calc_def ex_graph_def)
  have h3: "nodes (graph ex_calc_no_reuse) = [ex_input, ex_conv] @ []"
    by (simp add: ex_calc_no_reuse_def ex_graph_no_reuse_def)
  have h4: "topo_sorted_nodes (graph ex_calc) = [ex_input, ex_conv] @ ex_conv_reused # []"
    by (simp add: ex_calc_def ex_graph_def)
  have h5: "topo_sorted_nodes (graph ex_calc_no_reuse) = [ex_input, ex_conv] @ []"
    by (simp add: ex_calc_no_reuse_def ex_graph_no_reuse_def)
  have g: "reuse_group ex_conv_reused = reuse_group ex_conv"
    by (simp add: ex_conv_reused_def)
  from reused_node_leaves_weights_unchanged [OF h1 h2 h3 h4 h5, of AnyQuantized Q8Bit None] ex_weights_q8 h1 h2 h3 h4 h5 g
  show ?thesis by simp
qed

subsection \<open>Bit operations\<close>

lemma mapM_keyed:
  "mapM (\<lambda>x. case f x of Inl e \<Rightarrow> Inl e | Inr b \<Rightarrow> Inr (x, b)) xs = Inr ys \<Longrightarrow>
     map fst ys = xs \<and> (\<forall>p \<in> set ys. f (fst p) = Inr (snd p))"
  by (induction xs arbitrary: ys) (auto split: sum.splits)

lemma unique_by_distinct:
  "distinct (map key (unique_by key seen cs)) \<and>
   set (map key (unique_by key seen cs)) \<inter> set seen = {}"
  by (induction cs arbitrary: seen) (auto simp: unique_by_keys)

lemma distinct_dedup: "distinct (dedup xs)"
  using unique_by_distinct [of "\<lambda>x. x" "[]" xs] by (simp add: dedup_def)

lemma sum_list_split_key:
  fixes ps :: "('k \<times> nat) list"
  shows "distinct (map fst ps) \<Longrightarrow> map_of ps n = Some v \<Longrightarrow>
     sum_list (map snd ps) = v + sum_list (map snd (filter (\<lambda>p. fst p \<noteq> n) ps))"
proof (induction ps)
  case Nil
  then show ?case by simp
next
  case (Cons p ps)
  show ?case
  proof (cases "fst p = n")
    case True
    with Cons.prems have "v = snd p" by (cases p) auto
    moreover from True Cons.prems have "filter (\<lambda>q. fst q \<noteq> n) ps = ps"
      by (auto simp: filter_id_conv rev_image_eqI)
    ultimately show ?thesis using True by simp
  next
    case False
    with Cons show ?thesis by (cases p) auto
  qed
qed

lemma bops_selected:
  fixes c :: ResourceUtilizationCalculator
  shows "filter kernel_weight_to_quantize
           (map fst (collect_target_nodes_w_attrs c AnyQuantized True))
         = filter kernel_weight_to_quantize
           (dedup (filter (\<lambda>n. get_target_weight_attrs n AnyQuantized \<noteq> [])
                     (nodes (graph c))))"
  by (simp add: collect_target_nodes_w_attrs_def comp_def)

lemma compute_bops_Inr:
  fixes c :: ResourceUtilizationCalculator
  assumes "compute_bops c AnyQuantized mode act_qcs w_qcs = Inr (total_bops, nodes_bops)"
  shows "map fst nodes_bops
         = filter kernel_weight_to_quantize
             (dedup (filter (\<lambda>n. get_target_weight_attrs n AnyQuantized \<noteq> [])
                       (nodes (graph c))))"
    and "total_bops = sum_list (map snd nodes_bops)"
    and "\<forall>p \<in> set nodes_bops.
           compute_node_bops c (fst p) mode act_qcs (dict_get w_qcs (fst p)) = Inr (snd p)"
proof -
  from assms have m: "mapM (\<lambda>n. case compute_node_bops c n mode act_qcs (dict_get w_qcs n) of
                              Inl e \<Rightarrow> Inl e
                            | Inr b \<Rightarrow> Inr (n, b))
        (filter kernel_weight_to_quantize
           (map fst (collect_target_nodes_w_attrs c AnyQuantized True))) = Inr nodes_bops"
    and t: "total_bops = sum_list (map snd nodes_bops)"
    unfolding compute_bops_def Let_def by (auto split: sum.splits)
  from mapM_keyed [OF m] show "map fst nodes_bops
         = filter kernel_weight_to_quantize
             (dedup (filter (\<lambda>n. get_target_weight_attrs n AnyQuantized \<noteq> [])
                       (nodes (graph c))))"
    and "\<forall>p \<in> set nodes_bops.
           compute_node_bops c (fst p) mode act_qcs (dict_get w_qcs (fst p)) = Inr (snd p)"
    unfolding bops_selected by blast+
  from t show "total_bops = sum_list (map snd nodes_bops)" .
qed

lemma compute_node_bops_Inr:
  fixes c :: ResourceUtilizationCalculator and n :: BaseNode
  assumes "compute_node_bops c n mode act_qcs w_qc = Inr b"
  shows "(get_node_mac_operations c n = 0 \<or> incoming_edges (graph c) n = [] \<longrightarrow> b = 0) \<and>
     (get_node_mac_operations c n \<noteq> 0 \<and> incoming_edges (graph c) n \<noteq> [] \<longrightarrow>
        (\<exists>e k a w.
            incoming_edges (graph c) n = [e] \<and>
            get_kernel_op_attributes c (op_type n) = [k] \<and>
            get_activation_nbits (source_node e) mode (dict_get act_qcs (source_node e)) = Inr a \<and>
            get_weight_nbits n k mode w_qc = Inr w \<and>
            b = get_node_mac_operations c n * a * w))"
proof (cases "get_node_mac_operations c n = 0 \<or> incoming_edges (graph c) n = []")
  case True
  with assms show ?thesis unfolding compute_node_bops_def Let_def
    by (auto split: if_splits)
next
  case False
  with assms have l: "length (incoming_edges (graph c) n) = 1"
    unfolding compute_node_bops_def Let_def by (auto split: if_splits)
  then obtain e where e: "incoming_edges (graph c) n = [e]"
    by (cases "incoming_edges (graph c) n") auto
  from assms False e obtain a where
    a: "get_activation_nbits (source_node e) mode (dict_get act_qcs (source_node e)) = Inr a"
    unfolding compute_node_bops_def Let_def by (auto split: sum.splits)
  from assms False e a obtain k where k: "get_kernel_op_attributes c (op_type n) = [k]"
    unfolding compute_node_bops_def Let_def
    by (cases "get_kernel_op_attributes c (op_type n)") (auto split: if_splits)
  from assms False e a k obtain w where w: "get_weight_nbits n k mode w_qc = Inr w"
    and b: "b = a * w * get_node_mac_operations c n"
    unfolding compute_node_bops_def Let_def by (auto split: sum.splits)
  from False e k a w b show ?thesis by (simp add: mult.commute mult.left_commute)
qed

lemma compute_node_bops_assert:
  fixes c :: ResourceUtilizationCalculator and n :: BaseNode
  assumes "get_node_mac_operations c n \<noteq> 0" and "length (incoming_edges (graph c) n) > 1"
  shows "compute_node_bops c n mode act_qcs w_qc = Inl AssertionError"
  using assms unfolding compute_node_bops_def Let_def by auto

lemma ex_bops_no_input: "compute_bops ex_calc_no_input AnyQuantized Q8Bit None None
    = Inr (0, [(ex_conv, 0)])"
  by (simp add: compute_bops_def compute_node_bops_def collect_target_nodes_w_attrs_def
      get_target_weight_attrs_def incoming_edges_def ex_mac_def
      dict_get_def ex_calc_no_input_def dedup_def ex_simps Let_def)


lemma compute_node_bops_zero:
  fixes c :: ResourceUtilizationCalculator and n :: BaseNode
  assumes "get_node_mac_operations c n = 0 \<or> incoming_edges (graph c) n = []"
  shows "compute_node_bops c n mode act_qcs w_qc = Inr 0"
  using assms unfolding compute_node_bops_def Let_def by auto

lemma compute_node_bops_one_edge:
  fixes c :: ResourceUtilizationCalculator and n :: BaseNode
  assumes "get_node_mac_operations c n \<noteq> 0"
    and "incoming_edges (graph c) n = [e]"
    and "get_kernel_op_attributes c (op_type n) = [k]"
    and "get_activation_nbits (source_node e) mode (dict_get act_qcs (source_node e)) = Inr a"
    and "get_weight_nbits n k mode w_qc = Inr w"
  shows "compute_node_bops c n mode act_qcs w_qc = Inr (get_node_mac_operations c n * a * w)"
  using assms unfolding compute_node_bops_def Let_def
  by (simp add: mult.commute mult.left_commute)

lemma compute_bops_succeeds_iff:
  fixes c :: ResourceUtilizationCalculator
  shows "(\<exists>total_bops nodes_bops.
            compute_bops c AnyQuantized mode act_qcs w_qcs = Inr (total_bops, nodes_bops))
         \<longleftrightarrow>
         (\<forall>n \<in> set (filter kernel_weight_to_quantize
                        (dedup (filter (\<lambda>n. get_target_weight_attrs n AnyQuantized \<noteq> [])
                                  (nodes (graph c))))).
            \<exists>b. compute_node_bops c n mode act_qcs (dict_get w_qcs n) = Inr b)"
proof
  assume "\<exists>total_bops nodes_bops.
            compute_bops c AnyQuantized mode act_qcs w_qcs = Inr (total_bops, nodes_bops)"
  then obtain t nb where ok: "compute_bops c AnyQuantized mode act_qcs w_qcs = Inr (t, nb)"
    by blast
  show "\<forall>n \<in> set (filter kernel_weight_to_quantize
                        (dedup (filter (\<lambda>n. get_target_weight_attrs n AnyQuantized \<noteq> [])
                                  (nodes (graph c))))).
            \<exists>b. compute_node_bops c n mode act_qcs (dict_get w_qcs n) = Inr b"
  proof
    fix n
    assume "n \<in> set (filter kernel_weight_to_quantize
                        (dedup (filter (\<lambda>n. get_target_weight_attrs n AnyQuantized \<noteq> [])
                                  (nodes (graph c)))))"
    then have "n \<in> set (map fst nb)" unfolding compute_bops_Inr(1) [OF ok] .
    then obtain p where "p \<in> set nb" "fst p = n" by auto
    with compute_bops_Inr(3) [OF ok]
    show "\<exists>b. compute_node_bops c n mode act_qcs (dict_get w_qcs n) = Inr b" by blast
  qed
next
  assume all: "\<forall>n \<in> set (filter kernel_weight_to_quantize
                        (dedup (filter (\<lambda>n. get_target_weight_attrs n AnyQuantized \<noteq> [])
                                  (nodes (graph c))))).
            \<exists>b. compute_node_bops c n mode act_qcs (dict_get w_qcs n) = Inr b"
  have "\<exists>ys. mapM (\<lambda>n. case compute_node_bops c n mode act_qcs (dict_get w_qcs n) of
                              Inl e \<Rightarrow> Inl e
                            | Inr b \<Rightarrow> Inr (n, b))
        (filter kernel_weight_to_quantize
           (map fst (collect_target_nodes_w_attrs c AnyQuantized True))) = Inr ys"
  proof (rule mapM_total, rule ballI)
    fix n
    assume "n \<in> set (filter kernel_weight_to_quantize
           (map fst (collect_target_nodes_w_attrs c AnyQuantized True)))"
    with all obtain b where "compute_node_bops c n mode act_qcs (dict_get w_qcs n) = Inr b"
      unfolding bops_selected by blast
    then show "\<exists>y. (case compute_node_bops c n mode act_qcs (dict_get w_qcs n) of
                              Inl e \<Rightarrow> Inl e
                            | Inr b \<Rightarrow> Inr (n, b)) = Inr y" by simp
  qed
  then show "\<exists>total_bops nodes_bops.
            compute_bops c AnyQuantized mode act_qcs w_qcs = Inr (total_bops, nodes_bops)"
    unfolding compute_bops_def Let_def by auto
qed

lemma ex_node_bops_q8:
  "compute_node_bops ex_calc ex_conv Q8Bit None None = Inr 6400"
  "compute_node_bops ex_calc ex_conv_reused Q8Bit None None = Inr 6400"
  by (simp_all add: compute_node_bops_def incoming_edges_def ex_edge_def ex_mac_def
      ex_kernel_attrs_def get_activation_nbits_def get_weight_nbits_def dict_get_def
      ex_calc_def ex_graph_def ex_simps Let_def)

text \<open>
  C5 (amended). BOPS computation fails with \<open>NotSupported\<close> for every criterion other than
  \<open>AnyQuantized\<close>. For \<open>AnyQuantized\<close> it selects exactly the nodes of the graph that have
  a quantized weight attribute and a kernel weight to quantize, reused nodes included; it
  succeeds exactly when the per-node BOPS of every selected node is defined, and then
  returns the per-node BOPS of the selected nodes and their sum. The per-node BOPS of a
  node whose MAC count is zero or which no edge reaches is zero, whatever the number of its
  edges and without any assertion; a node with a non-zero MAC count that more than one edge
  reaches fails the assertion; a node with a non-zero MAC count that exactly one edge
  reaches contributes \<open>mac_count \<times> input_activation_nbits \<times> kernel_weight_nbits\<close>, the
  input activation being the source node of that edge and the kernel attribute the single
  kernel attribute of the node's type.
\<close>

theorem bops_of_selected_nodes:
  fixes c :: ResourceUtilizationCalculator and n :: BaseNode
  shows
  "(crit \<noteq> AnyQuantized \<longrightarrow> compute_bops c crit mode act_qcs w_qcs = Inl NotSupported) \<and>
   (compute_bops c AnyQuantized mode act_qcs w_qcs = Inr (total_bops, nodes_bops) \<longrightarrow>
      map fst nodes_bops
        = filter kernel_weight_to_quantize
            (dedup (filter (\<lambda>n. get_target_weight_attrs n AnyQuantized \<noteq> [])
                      (nodes (graph c)))) \<and>
      total_bops = sum_list (map snd nodes_bops) \<and>
      (\<forall>p \<in> set nodes_bops.
         compute_node_bops c (fst p) mode act_qcs (dict_get w_qcs (fst p)) = Inr (snd p) \<and>
         (get_node_mac_operations c (fst p) = 0 \<or> incoming_edges (graph c) (fst p) = []
            \<longrightarrow> snd p = 0) \<and>
         (get_node_mac_operations c (fst p) \<noteq> 0 \<and> incoming_edges (graph c) (fst p) \<noteq> [] \<longrightarrow>
            (\<exists>e k a w.
               incoming_edges (graph c) (fst p) = [e] \<and>
               get_kernel_op_attributes c (op_type (fst p)) = [k] \<and>
               get_activation_nbits (source_node e) mode (dict_get act_qcs (source_node e))
                 = Inr a \<and>
               get_weight_nbits (fst p) k mode (dict_get w_qcs (fst p)) = Inr w \<and>
               snd p = get_node_mac_operations c (fst p) * a * w)))) \<and>
   ((\<exists>t nb. compute_bops c AnyQuantized mode act_qcs w_qcs = Inr (t, nb)) \<longleftrightarrow>
      (\<forall>m \<in> set (filter kernel_weight_to_quantize
                     (dedup (filter (\<lambda>n. get_target_weight_attrs n AnyQuantized \<noteq> [])
                               (nodes (graph c))))).
         \<exists>b. compute_node_bops c m mode act_qcs (dict_get w_qcs m) = Inr b)) \<and>
   (get_node_mac_operations c n = 0 \<or> incoming_edges (graph c) n = [] \<longrightarrow>
      compute_node_bops c n mode act_qcs w_qc = Inr 0) \<and>
   (get_node_mac_operations c n \<noteq> 0 \<and> length (incoming_edges (graph c) n) > 1 \<longrightarrow>
      compute_node_bops c n mode act_qcs w_qc = Inl AssertionError) \<and>
   (get_node_mac_operations c n \<noteq> 0 \<and> incoming_edges (graph c) n = [e1] \<and>
    get_kernel_op_attributes c (op_type n) = [k1] \<and>
    get_activation_nbits (source_node e1) mode (dict_get act_qcs (source_node e1)) = Inr a1 \<and>
    get_weight_nbits n k1 mode w_qc = Inr w1 \<longrightarrow>
      compute_node_bops c n mode act_qcs w_qc = Inr (get_node_mac_operations c n * a1 * w1))"
proof (intro conjI impI)
  assume "crit \<noteq> AnyQuantized"
  then show "compute_bops c crit mode act_qcs w_qcs = Inl NotSupported"
    by (simp add: compute_bops_def)
next
  assume ok: "compute_bops c AnyQuantized mode act_qcs w_qcs = Inr (total_bops, nodes_bops)"
  show "map fst nodes_bops
        = filter kernel_weight_to_quantize
            (dedup (filter (\<lambda>n. get_target_weight_attrs n AnyQuantized \<noteq> [])
                      (nodes (graph c))))"
    by (rule compute_bops_Inr(1) [OF ok])
  show "total_bops = sum_list (map snd nodes_bops)"
    by (rule compute_bops_Inr(2) [OF ok])
  show "\<forall>p \<in> set nodes_bops.
         compute_node_bops c (fst p) mode act_qcs (dict_get w_qcs (fst p)) = Inr (snd p) \<and>
         (get_node_mac_operations c (fst p) = 0 \<or> incoming_edges (graph c) (fst p) = []
            \<longrightarrow> snd p = 0) \<and>
         (get_node_mac_operations c (fst p) \<noteq> 0 \<and> incoming_edges (graph c) (fst p) \<noteq> [] \<longrightarrow>
            (\<exists>e k a w.
               incoming_edges (graph c) (fst p) = [e] \<and>
               get_kernel_op_attributes c (op_type (fst p)) = [k] \<and>
               get_activation_nbits (source_node e) mode (dict_get act_qcs (source_node e))
                 = Inr a \<and>
               get_weight_nbits (fst p) k mode (dict_get w_qcs (fst p)) = Inr w \<and>
               snd p = get_node_mac_operations c (fst p) * a * w))"
  proof
    fix p assume "p \<in> set nodes_bops"
    with compute_bops_Inr(3) [OF ok]
    have nb: "compute_node_bops c (fst p) mode act_qcs (dict_get w_qcs (fst p)) = Inr (snd p)"
      by blast
    from nb compute_node_bops_Inr [OF nb]
    show "compute_node_bops c (fst p) mode act_qcs (dict_get w_qcs (fst p)) = Inr (snd p) \<and>
         (get_node_mac_operations c (fst p) = 0 \<or> incoming_edges (graph c) (fst p) = []
            \<longrightarrow> snd p = 0) \<and>
         (get_node_mac_operations c (fst p) \<noteq> 0 \<and> incoming_edges (graph c) (fst p) \<noteq> [] \<longrightarrow>
            (\<exists>e k a w.
               incoming_edges (graph c) (fst p) = [e] \<and>
               get_kernel_op_attributes c (op_type (fst p)) = [k] \<and>
               get_activation_nbits (source_node e) mode (dict_get act_qcs (source_node e))
                 = Inr a \<and>
               get_weight_nbits (fst p) k mode (dict_get w_qcs (fst p)) = Inr w \<and>
               snd p = get_node_mac_operations c (fst p) * a * w))"
      by blast
  qed
next
  show "(\<exists>t nb. compute_bops c AnyQuantized mode act_qcs w_qcs = Inr (t, nb)) \<longleftrightarrow>
      (\<forall>m \<in> set (filter kernel_weight_to_quantize
                     (dedup (filter (\<lambda>n. get_target_weight_attrs n AnyQuantized \<noteq> [])
                               (nodes (graph c))))).
         \<exists>b. compute_node_bops c m mode act_qcs (dict_get w_qcs m) = Inr b)"
    by (rule compute_bops_succeeds_iff)
next
  assume "get_node_mac_operations c n = 0 \<or> incoming_edges (graph c) n = []"
  then show "compute_node_bops c n mode act_qcs w_qc = Inr 0"
    by (rule compute_node_bops_zero)
next
  assume "get_node_mac_operations c n \<noteq> 0 \<and> length (incoming_edges (graph c) n) > 1"
  then show "compute_node_bops c n mode act_qcs w_qc = Inl AssertionError"
    using compute_node_bops_assert by blast
next
  assume "get_node_mac_operations c n \<noteq> 0 \<and> incoming_edges (graph c) n = [e1] \<and>
    get_kernel_op_attributes c (op_type n) = [k1] \<and>
    get_activation_nbits (source_node e1) mode (dict_get act_qcs (source_node e1)) = Inr a1 \<and>
    get_weight_nbits n k1 mode w_qc = Inr w1"
  then show "compute_node_bops c n mode act_qcs w_qc
             = Inr (get_node_mac_operations c n * a1 * w1)"
    using compute_node_bops_one_edge by blast
qed

theorem bops_no_incoming_edge_counterexample:
  "compute_bops ex_calc_no_input AnyQuantized Q8Bit None None = Inr (0, [(ex_conv, 0)]) \<and>
   get_node_mac_operations ex_calc_no_input ex_conv = 100 \<and>
   length (incoming_edges (graph ex_calc_no_input) ex_conv) = 0"
proof -
  have "get_node_mac_operations ex_calc_no_input ex_conv = 100"
    by (simp add: ex_calc_no_input_def ex_mac_def ex_simps)
  moreover have "length (incoming_edges (graph ex_calc_no_input) ex_conv) = 0"
    by (simp add: ex_calc_no_input_def incoming_edges_def)
  ultimately show ?thesis using ex_bops_no_input by blast
qed

theorem bops_of_selected_nodes_witness:
  "Any \<noteq> AnyQuantized \<and>
   compute_bops ex_calc Any Q8Bit None None = Inl NotSupported \<and>
   compute_bops ex_calc AnyQuantized Q8Bit None None
     = Inr (12800, [(ex_conv, 6400), (ex_conv_reused, 6400)]) \<and>
   12800 = sum_list (map snd [(ex_conv, 6400 :: nat), (ex_conv_reused, 6400)]) \<and>
   incoming_edges (graph ex_calc_no_input) ex_conv = [] \<and>
   get_node_mac_operations ex_calc_no_input ex_conv = 100 \<and>
   compute_node_bops ex_calc_no_input ex_conv Q8Bit None None = Inr 0 \<and>
   get_node_mac_operations ex_calc_two_inputs_no_mac ex_conv = 0 \<and>
   length (incoming_edges (graph ex_calc_two_inputs_no_mac) ex_conv) = 2 \<and>
   compute_node_bops ex_calc_two_inputs_no_mac ex_conv Q8Bit None None = Inr 0 \<and>
   (get_node_mac_operations ex_calc_two_inputs ex_conv \<noteq> 0 \<and>
    length (incoming_edges (graph ex_calc_two_inputs) ex_conv) > 1) \<and>
   compute_node_bops ex_calc_two_inputs ex_conv Q8Bit None None = Inl AssertionError \<and>
   (get_node_mac_operations ex_calc ex_conv = 100 \<and>
    incoming_edges (graph ex_calc) ex_conv = [ex_edge ex_input ex_conv] \<and>
    get_kernel_op_attributes ex_calc (op_type ex_conv) = [ex_kernel] \<and>
    get_activation_nbits ex_input Q8Bit None = Inr 8 \<and>
    get_weight_nbits ex_conv ex_kernel Q8Bit None = Inr 8) \<and>
   compute_node_bops ex_calc ex_conv Q8Bit None None = Inr (100 * 8 * 8)"
proof -
  have h1: "Any \<noteq> AnyQuantized" by simp
  have h2: "incoming_edges (graph ex_calc_no_input) ex_conv = []"
    by (simp add: ex_calc_no_input_def incoming_edges_def)
  have h2m: "get_node_mac_operations ex_calc_no_input ex_conv = 100"
    by (simp add: ex_calc_no_input_def ex_mac_def ex_simps)
  have h3: "get_node_mac_operations ex_calc_two_inputs_no_mac ex_conv = 0"
    by (simp add: ex_calc_two_inputs_no_mac_def)
  have h3e: "length (incoming_edges (graph ex_calc_two_inputs_no_mac) ex_conv) = 2"
    by (simp add: ex_calc_two_inputs_no_mac_def ex_calc_two_inputs_def incoming_edges_def
        ex_edge_def ex_simps)
  have h4: "get_node_mac_operations ex_calc_two_inputs ex_conv \<noteq> 0 \<and>
    length (incoming_edges (graph ex_calc_two_inputs) ex_conv) > 1"
    by (simp add: ex_calc_two_inputs_def ex_mac_def ex_simps incoming_edges_def ex_edge_def)
  have h5m: "get_node_mac_operations ex_calc ex_conv = 100"
    by (simp add: ex_calc_def ex_mac_def ex_simps)
  have h5e: "incoming_edges (graph ex_calc) ex_conv = [ex_edge ex_input ex_conv]"
    by (simp add: incoming_edges_def ex_calc_def ex_graph_def ex_edge_def ex_simps)
  have h5k: "get_kernel_op_attributes ex_calc (op_type ex_conv) = [ex_kernel]"
    by (simp add: ex_calc_def ex_kernel_attrs_def ex_simps)
  have h5a: "get_activation_nbits ex_input Q8Bit None = Inr 8"
    by (simp add: get_activation_nbits_def ex_simps)
  have h5w: "get_weight_nbits ex_conv ex_kernel Q8Bit None = Inr 8"
    by (simp add: get_weight_nbits_def ex_simps)
  have s: "source_node (ex_edge ex_input ex_conv) = ex_input" by (simp add: ex_edge_def)
  have a1: "compute_bops ex_calc Any Q8Bit None None = Inl NotSupported"
    using bops_of_selected_nodes [where c = ex_calc and crit = Any and mode = Q8Bit
         and act_qcs = None and w_qcs = None] h1 by blast
  have a2: "compute_node_bops ex_calc_no_input ex_conv Q8Bit None None = Inr 0"
    using bops_of_selected_nodes [where c = ex_calc_no_input and n = ex_conv and mode = Q8Bit
         and act_qcs = None and w_qc = None] h2 by blast
  have a3: "compute_node_bops ex_calc_two_inputs_no_mac ex_conv Q8Bit None None = Inr 0"
    using bops_of_selected_nodes [where c = ex_calc_two_inputs_no_mac and n = ex_conv
         and mode = Q8Bit and act_qcs = None and w_qc = None] h3 by blast
  have a4: "compute_node_bops ex_calc_two_inputs ex_conv Q8Bit None None = Inl AssertionError"
    using bops_of_selected_nodes [where c = ex_calc_two_inputs and n = ex_conv and mode = Q8Bit
         and act_qcs = None and w_qc = None] h4 by blast
  have a5: "compute_node_bops ex_calc ex_conv Q8Bit None None = Inr (100 * 8 * 8)"
    using bops_of_selected_nodes [where c = ex_calc and n = ex_conv and mode = Q8Bit
         and act_qcs = None and w_qc = None and ?e1.0 = "ex_edge ex_input ex_conv"
         and ?k1.0 = ex_kernel and ?a1.0 = 8 and ?w1.0 = 8]
      h5m h5e h5k h5a h5w
    by (simp add: s dict_get_def)
  have a6: "12800 = sum_list (map snd [(ex_conv, 6400 :: nat), (ex_conv_reused, 6400)])"
    by simp
  from h1 a1 ex_bops_q8 a6 h2 h2m a2 h3 h3e a3 h4 a4 h5m h5e h5k h5a h5w a5
  show ?thesis by blast
qed

subsection \<open>Reused nodes and BOPS\<close>

lemma ex_bops_reused_no_input:
  "compute_bops ex_calc_reused_no_input AnyQuantized Q8Bit None None
   = Inr (6400, [(ex_conv, 6400), (ex_conv_reused, 0)])"
  by (simp add: compute_bops_def compute_node_bops_def collect_target_nodes_w_attrs_def
      get_target_weight_attrs_def incoming_edges_def ex_edge_def ex_mac_def ex_kernel_attrs_def
      get_activation_nbits_def get_weight_nbits_def
      dict_truthy_def dict_get_def ex_calc_reused_no_input_def dedup_def
      ex_simps Let_def)

lemma reused_node_selected:
  fixes c :: ResourceUtilizationCalculator and n :: BaseNode
  assumes "n \<in> set (nodes (graph c))"
    and "get_target_weight_attrs n AnyQuantized \<noteq> []"
    and "kernel_weight_to_quantize n"
  shows "n \<in> set (filter kernel_weight_to_quantize
                    (map fst (collect_target_nodes_w_attrs c AnyQuantized True)))"
  unfolding bops_selected using assms by (simp add: set_dedup)

lemma selected_node_entry:
  fixes c :: ResourceUtilizationCalculator and n :: BaseNode
  assumes sel: "n \<in> set (filter kernel_weight_to_quantize
                    (map fst (collect_target_nodes_w_attrs c AnyQuantized True)))"
    and ok: "compute_bops c AnyQuantized mode act_qcs w_qcs = Inr (total_bops, nodes_bops)"
  shows "\<exists>b. map_of nodes_bops n = Some b \<and>
             compute_node_bops c n mode act_qcs (dict_get w_qcs n) = Inr b \<and>
             total_bops = b + sum_list (map snd (filter (\<lambda>p. fst p \<noteq> n) nodes_bops))"
proof -
  have keys: "map fst nodes_bops
         = filter kernel_weight_to_quantize
             (dedup (filter (\<lambda>n. get_target_weight_attrs n AnyQuantized \<noteq> [])
                       (nodes (graph c))))"
    by (rule compute_bops_Inr(1) [OF ok])
  have dist: "distinct (map fst nodes_bops)"
    unfolding keys by (simp add: distinct_dedup)
  have "n \<in> set (map fst nodes_bops)"
    unfolding keys using sel unfolding bops_selected .
  then obtain b where p: "(n, b) \<in> set nodes_bops" by auto
  with dist have mo: "map_of nodes_bops n = Some b" by simp
  from p compute_bops_Inr(3) [OF ok]
  have nb: "compute_node_bops c n mode act_qcs (dict_get w_qcs n) = Inr b" by fastforce
  have tot: "total_bops = b + sum_list (map snd (filter (\<lambda>p. fst p \<noteq> n) nodes_bops))"
    unfolding compute_bops_Inr(2) [OF ok] using dist mo by (rule sum_list_split_key)
  from mo nb tot show ?thesis by blast
qed

text \<open>
  C10 (amended). \<open>compute_bops\<close> collects its nodes with the reused ones included: every node
  of the graph that is flagged \<open>reuse\<close> and has a quantized weight attribute and a kernel
  weight to quantize is among the nodes selected for BOPS, though it is not among the nodes
  collected for weights memory. In every successful BOPS computation it has an entry, its
  per-node BOPS, and the total is this entry plus the entries of the other nodes. When the
  node has a positive MAC count and exactly one incoming edge, the entry is the full
  \<open>mac \<times> activation_bits \<times> kernel_bits\<close>; when no edge reaches it, or its MAC count is
  zero, the entry is zero.
\<close>

theorem reused_node_counted_in_bops:
  fixes c :: ResourceUtilizationCalculator and n :: BaseNode
  assumes inn: "n \<in> set (nodes (graph c))"
    and r: "reuse n"
    and attrs: "get_target_weight_attrs n AnyQuantized \<noteq> []"
    and kern: "kernel_weight_to_quantize n"
  shows
  "n \<in> set (filter kernel_weight_to_quantize
               (map fst (collect_target_nodes_w_attrs c AnyQuantized True))) \<and>
   n \<notin> set (map fst (collect_target_nodes_w_attrs c AnyQuantized False)) \<and>
   (compute_bops c AnyQuantized mode act_qcs w_qcs = Inr (total_bops, nodes_bops) \<longrightarrow>
      (\<exists>b. map_of nodes_bops n = Some b \<and>
           compute_node_bops c n mode act_qcs (dict_get w_qcs n) = Inr b \<and>
           total_bops = b + sum_list (map snd (filter (\<lambda>p. fst p \<noteq> n) nodes_bops))) \<and>
      (get_node_mac_operations c n > 0 \<and> incoming_edges (graph c) n = [e] \<longrightarrow>
         (\<exists>k a w.
            get_kernel_op_attributes c (op_type n) = [k] \<and>
            get_activation_nbits (source_node e) mode (dict_get act_qcs (source_node e)) = Inr a \<and>
            get_weight_nbits n k mode (dict_get w_qcs n) = Inr w \<and>
            map_of nodes_bops n = Some (get_node_mac_operations c n * a * w) \<and>
            total_bops = get_node_mac_operations c n * a * w
                         + sum_list (map snd (filter (\<lambda>p. fst p \<noteq> n) nodes_bops)))) \<and>
      (get_node_mac_operations c n = 0 \<or> incoming_edges (graph c) n = [] \<longrightarrow>
         map_of nodes_bops n = Some 0 \<and>
         total_bops = sum_list (map snd (filter (\<lambda>p. fst p \<noteq> n) nodes_bops))))"
proof (intro conjI impI)
  show sel: "n \<in> set (filter kernel_weight_to_quantize
               (map fst (collect_target_nodes_w_attrs c AnyQuantized True)))"
    using inn attrs kern by (rule reused_node_selected)
  show "n \<notin> set (map fst (collect_target_nodes_w_attrs c AnyQuantized False))"
    using collect_keys_not_reused r by blast
  assume ok: "compute_bops c AnyQuantized mode act_qcs w_qcs = Inr (total_bops, nodes_bops)"
  from selected_node_entry [OF sel ok] obtain b where
    mo: "map_of nodes_bops n = Some b"
    and nb: "compute_node_bops c n mode act_qcs (dict_get w_qcs n) = Inr b"
    and tot: "total_bops = b + sum_list (map snd (filter (\<lambda>p. fst p \<noteq> n) nodes_bops))"
    by blast
  from mo nb tot
  show "\<exists>b. map_of nodes_bops n = Some b \<and>
           compute_node_bops c n mode act_qcs (dict_get w_qcs n) = Inr b \<and>
           total_bops = b + sum_list (map snd (filter (\<lambda>p. fst p \<noteq> n) nodes_bops))"
    by blast
  {
    assume one: "get_node_mac_operations c n > 0 \<and> incoming_edges (graph c) n = [e]"
    with compute_node_bops_Inr [OF nb] obtain k a w where
      "get_kernel_op_attributes c (op_type n) = [k]"
      "get_activation_nbits (source_node e) mode (dict_get act_qcs (source_node e)) = Inr a"
      "get_weight_nbits n k mode (dict_get w_qcs n) = Inr w"
      "b = get_node_mac_operations c n * a * w"
      by auto
    with mo tot
    show "\<exists>k a w.
            get_kernel_op_attributes c (op_type n) = [k] \<and>
            get_activation_nbits (source_node e) mode (dict_get act_qcs (source_node e)) = Inr a \<and>
            get_weight_nbits n k mode (dict_get w_qcs n) = Inr w \<and>
            map_of nodes_bops n = Some (get_node_mac_operations c n * a * w) \<and>
            total_bops = get_node_mac_operations c n * a * w
                         + sum_list (map snd (filter (\<lambda>p. fst p \<noteq> n) nodes_bops))"
      by blast
  }
  {
    assume z: "get_node_mac_operations c n = 0 \<or> incoming_edges (graph c) n = []"
    with compute_node_bops_Inr [OF nb] have "b = 0" by blast
    with mo tot show "map_of nodes_bops n = Some 0"
      and "total_bops = sum_list (map snd (filter (\<lambda>p. fst p \<noteq> n) nodes_bops))"
      by simp_all
  }
qed

theorem reused_node_without_input_counterexample:
  "ex_conv_reused \<in> set (nodes (graph ex_calc_reused_no_input)) \<and>
   reuse ex_conv_reused \<and>
   kernel_weight_to_quantize ex_conv_reused \<and>
   get_target_weight_attrs ex_conv_reused AnyQuantized = [ex_kernel] \<and>
   get_kernel_op_attributes ex_calc_reused_no_input (op_type ex_conv_reused) = [ex_kernel] \<and>
   get_weight_nbits ex_conv_reused ex_kernel Q8Bit None = Inr 8 \<and>
   get_node_mac_operations ex_calc_reused_no_input ex_conv_reused = 100 \<and>
   incoming_edges (graph ex_calc_reused_no_input) ex_conv_reused = [] \<and>
   get_activation_nbits ex_input Q8Bit None = Inr 8 \<and>
   get_activation_nbits ex_conv Q8Bit None = Inr 8 \<and>
   get_activation_nbits ex_conv_reused Q8Bit None = Inr 8 \<and>
   compute_bops ex_calc_reused_no_input AnyQuantized Q8Bit None None
     = Inr (6400, [(ex_conv, 6400), (ex_conv_reused, 0)]) \<and>
   map_of [(ex_conv, 6400), (ex_conv_reused, 0 :: nat)] ex_conv_reused = Some 0 \<and>
   (0 :: nat) \<noteq> 100 * 8 * 8"
proof -
  have "ex_conv_reused \<in> set (nodes (graph ex_calc_reused_no_input))"
    by (simp add: ex_calc_reused_no_input_def)
  moreover have "get_activation_nbits ex_input Q8Bit None = Inr 8"
    "get_activation_nbits ex_conv Q8Bit None = Inr 8"
    "get_activation_nbits ex_conv_reused Q8Bit None = Inr 8"
    by (simp_all add: get_activation_nbits_def ex_simps)
  moreover have "map_of [(ex_conv, 6400), (ex_conv_reused, 0 :: nat)] ex_conv_reused = Some 0"
    by (simp add: ex_simps)
  moreover have "(0 :: nat) \<noteq> 100 * 8 * 8" by simp
  moreover have "reuse ex_conv_reused" "kernel_weight_to_quantize ex_conv_reused"
    by (simp_all add: ex_simps)
  moreover have "get_target_weight_attrs ex_conv_reused AnyQuantized = [ex_kernel]"
    by (simp add: get_target_weight_attrs_def ex_simps)
  moreover have
    "get_kernel_op_attributes ex_calc_reused_no_input (op_type ex_conv_reused) = [ex_kernel]"
    by (simp add: ex_calc_reused_no_input_def ex_kernel_attrs_def ex_simps)
  moreover have "get_weight_nbits ex_conv_reused ex_kernel Q8Bit None = Inr 8"
    by (simp add: get_weight_nbits_def ex_simps)
  moreover have "get_node_mac_operations ex_calc_reused_no_input ex_conv_reused = 100"
    by (simp add: ex_calc_reused_no_input_def ex_mac_def ex_simps)
  moreover have "incoming_edges (graph ex_calc_reused_no_input) ex_conv_reused = []"
    by (simp add: ex_calc_reused_no_input_def incoming_edges_def ex_edge_def ex_simps)
  ultimately show ?thesis using ex_bops_reused_no_input by blast
qed

theorem reused_node_counted_in_bops_witness:
  "ex_conv_reused \<in> set (nodes (graph ex_calc)) \<and> reuse ex_conv_reused \<and>
   get_target_weight_attrs ex_conv_reused AnyQuantized \<noteq> [] \<and>
   kernel_weight_to_quantize ex_conv_reused \<and>
   get_node_mac_operations ex_calc ex_conv_reused > 0 \<and>
   incoming_edges (graph ex_calc) ex_conv_reused = [ex_edge ex_input ex_conv_reused] \<and>
   compute_bops ex_calc AnyQuantized Q8Bit None None
     = Inr (12800, [(ex_conv, 6400), (ex_conv_reused, 6400)]) \<and>
   (\<exists>k a w.
      get_kernel_op_attributes ex_calc (op_type ex_conv_reused) = [k] \<and>
      get_activation_nbits ex_input Q8Bit None = Inr a \<and>
      get_weight_nbits ex_conv_reused k Q8Bit None = Inr w \<and>
      map_of [(ex_conv, 6400), (ex_conv_reused, 6400)] ex_conv_reused = Some (100 * a * w)) \<and>
   ex_conv_reused \<in> set (nodes (graph ex_calc_reused_no_input)) \<and>
   incoming_edges (graph ex_calc_reused_no_input) ex_conv_reused = [] \<and>
   compute_bops ex_calc_reused_no_input AnyQuantized Q8Bit None None
     = Inr (6400, [(ex_conv, 6400), (ex_conv_reused, 0)]) \<and>
   map_of [(ex_conv, 6400), (ex_conv_reused, 0 :: nat)] ex_conv_reused = Some 0"
proof -
  have h1: "ex_conv_reused \<in> set (nodes (graph ex_calc))"
    by (simp add: ex_calc_def ex_graph_def)
  have h1': "ex_conv_reused \<in> set (nodes (graph ex_calc_reused_no_input))"
    by (simp add: ex_calc_reused_no_input_def)
  have h2: "reuse ex_conv_reused" by (simp add: ex_simps)
  have h3: "get_target_weight_attrs ex_conv_reused AnyQuantized \<noteq> []"
    by (simp add: get_target_weight_attrs_def ex_simps)
  have h4: "kernel_weight_to_quantize ex_conv_reused" by (simp add: ex_simps)
  have h5: "get_node_mac_operations ex_calc ex_conv_reused > 0"
    by (simp add: ex_calc_def ex_mac_def ex_simps)
  have h6: "incoming_edges (graph ex_calc) ex_conv_reused = [ex_edge ex_input ex_conv_reused]"
    by (simp add: incoming_edges_def ex_calc_def ex_graph_def ex_edge_def ex_simps)
  have h6': "incoming_edges (graph ex_calc_reused_no_input) ex_conv_reused = []"
    by (simp add: ex_calc_reused_no_input_def incoming_edges_def ex_edge_def ex_simps)
  have m: "get_node_mac_operations ex_calc ex_conv_reused = 100"
    by (simp add: ex_calc_def ex_mac_def ex_simps)
  have s: "source_node (ex_edge ex_input ex_conv_reused) = ex_input"
    by (simp add: ex_edge_def)
  from reused_node_counted_in_bops [OF h1 h2 h3 h4, where mode = Q8Bit and act_qcs = None
         and w_qcs = None and total_bops = 12800
         and nodes_bops = "[(ex_conv, 6400), (ex_conv_reused, 6400)]"
         and e = "ex_edge ex_input ex_conv_reused"] ex_bops_q8 h5 h6
  obtain k a w where
    "get_kernel_op_attributes ex_calc (op_type ex_conv_reused) = [k]"
    "get_activation_nbits (source_node (ex_edge ex_input ex_conv_reused)) Q8Bit
       (dict_get None (source_node (ex_edge ex_input ex_conv_reused))) = Inr a"
    "get_weight_nbits ex_conv_reused k Q8Bit (dict_get None ex_conv_reused) = Inr w"
    "map_of [(ex_conv, 6400), (ex_conv_reused, 6400)] ex_conv_reused
       = Some (get_node_mac_operations ex_calc ex_conv_reused * a * w)"
    by blast
  then have one: "\<exists>k a w. get_kernel_op_attributes ex_calc (op_type ex_conv_reused) = [k] \<and>
      get_activation_nbits ex_input Q8Bit None = Inr a \<and>
      get_weight_nbits ex_conv_reused k Q8Bit None = Inr w \<and>
      map_of [(ex_conv, 6400), (ex_conv_reused, 6400)] ex_conv_reused = Some (100 * a * w)"
    unfolding m s by (auto simp: dict_get_def)
  from reused_node_counted_in_bops [OF h1' h2 h3 h4, where mode = Q8Bit and act_qcs = None
         and w_qcs = None and total_bops = 6400
         and nodes_bops = "[(ex_conv, 6400), (ex_conv_reused, 0)]"] ex_bops_reused_no_input h6'
  have zero: "map_of [(ex_conv, 6400), (ex_conv_reused, 0 :: nat)] ex_conv_reused = Some 0"
    by blast
  from h1 h2 h3 h4 h5 h6 ex_bops_q8 one h1' h6' ex_bops_reused_no_input zero
  show ?thesis by blast
qed

subsection \<open>Targets of the returned record\<close>

lemma ex_activations_q8: "compute_activations_utilization ex_calc AnyQuantized Q8Bit None = Inr 80"
  by (simp add: compute_activations_utilization_def ex_by_cut_q8)

lemma ex_total_only:
  "compute_resource_utilization ex_calc AnyQuantized Q8Bit None None (Some [TOTAL]) False
   = Inr \<lparr>weights_memory = None, activation_memory = None, total_memory = Some 96, bops = None\<rparr>"
  by (simp add: compute_resource_utilization_def requested_targets_def dict_truthy_def
      ex_weights_q8 ex_activations_q8 empty_resource_utilization_def get_restricted_targets_def
      Let_def)

lemma request_success:
  fixes c :: ResourceUtilizationCalculator
  assumes ok: "compute_resource_utilization c crit mode act_qcs w_qcs ru_targets allow = Inr ru"
  shows "get_restricted_targets ru = requested_targets ru_targets \<and>
     (TOTAL \<in> requested_targets ru_targets \<longrightarrow>
        (\<exists>w per_node per_weight a.
           compute_weights_utilization c crit mode w_qcs = Inr (w, per_node, per_weight) \<and>
           compute_activations_utilization c crit mode act_qcs = Inr a \<and>
           total_memory ru = Some (w + a) \<and>
           (WEIGHTS \<in> requested_targets ru_targets \<longrightarrow> weights_memory ru = Some w) \<and>
           (ACTIVATION \<in> requested_targets ru_targets \<longrightarrow> activation_memory ru = Some a)))"
proof
  from ok show "get_restricted_targets ru = requested_targets ru_targets"
    unfolding compute_resource_utilization_def Let_def
    by (auto split: if_splits sum.splits)
next
  show "TOTAL \<in> requested_targets ru_targets \<longrightarrow>
        (\<exists>w per_node per_weight a.
           compute_weights_utilization c crit mode w_qcs = Inr (w, per_node, per_weight) \<and>
           compute_activations_utilization c crit mode act_qcs = Inr a \<and>
           total_memory ru = Some (w + a) \<and>
           (WEIGHTS \<in> requested_targets ru_targets \<longrightarrow> weights_memory ru = Some w) \<and>
           (ACTIVATION \<in> requested_targets ru_targets \<longrightarrow> activation_memory ru = Some a))"
  proof
    assume t: "TOTAL \<in> requested_targets ru_targets"
    then have i1: "{WEIGHTS, TOTAL, BOPS} \<inter> requested_targets ru_targets \<noteq> {}"
      and i2: "{ACTIVATION, TOTAL, BOPS} \<inter> requested_targets ru_targets \<noteq> {}"
      and i3: "{WEIGHTS, TOTAL} \<inter> requested_targets ru_targets \<noteq> {}"
      and i4: "{ACTIVATION, TOTAL} \<inter> requested_targets ru_targets \<noteq> {}"
      by auto
    from ok t i1 i2 i3 i4 show "\<exists>w per_node per_weight a.
           compute_weights_utilization c crit mode w_qcs = Inr (w, per_node, per_weight) \<and>
           compute_activations_utilization c crit mode act_qcs = Inr a \<and>
           total_memory ru = Some (w + a) \<and>
           (WEIGHTS \<in> requested_targets ru_targets \<longrightarrow> weights_memory ru = Some w) \<and>
           (ACTIVATION \<in> requested_targets ru_targets \<longrightarrow> activation_memory ru = Some a)"
      unfolding compute_resource_utilization_def Let_def
      by (auto split: if_splits sum.splits simp: empty_resource_utilization_def)
  qed
qed

lemma get_weight_nbits_assert:
  fixes n :: BaseNode
  shows "get_weight_nbits n a m q = Inl AssertionError \<Longrightarrow> q \<noteq> None \<and> m \<noteq> QCustom"
  unfolding get_weight_nbits_def bitwidth_mode_fn_def
  by (auto split: if_splits sum.splits option.splits list.splits
      dest!: mapM_Inl get_attr_config_err get_unique_weights_candidates_err
             py_max_err py_min_err)

lemma get_activation_nbits_assert:
  fixes n :: BaseNode
  shows "get_activation_nbits n m q = Inl AssertionError \<Longrightarrow> q \<noteq> None \<and> m \<noteq> QCustom"
  unfolding get_activation_nbits_def bitwidth_mode_fn_def
  by (auto split: if_splits option.splits list.splits dest!: py_max_err py_min_err)

lemma node_weights_no_assert:
  fixes c :: ResourceUtilizationCalculator and n :: BaseNode
  shows "compute_node_weights_utilization c n a m q \<noteq> Inl AssertionError"
proof
  assume "compute_node_weights_utilization c n a m q = Inl AssertionError"
  then show False
    unfolding compute_node_weights_utilization_def
    by (auto split: if_splits sum.splits criterion_or_attrs.splits option.splits
        dest!: mapM_Inl get_weight_nbits_assert)
qed

lemma weights_no_assert:
  fixes c :: ResourceUtilizationCalculator
  shows "compute_weights_utilization c crit m q \<noteq> Inl AssertionError"
proof
  assume "compute_weights_utilization c crit m q = Inl AssertionError"
  then show False
    unfolding compute_weights_utilization_def Let_def topo_sort_def
    using node_weights_no_assert
    by (auto split: if_splits sum.splits option.splits dest!: mapM_Inl)
qed

lemma node_activation_no_assert:
  fixes c :: ResourceUtilizationCalculator and n :: BaseNode
  shows "compute_node_activation_tensor_utilization c n t m q \<noteq> Inl AssertionError"
proof
  assume "compute_node_activation_tensor_utilization c n t m q = Inl AssertionError"
  then show False
    unfolding compute_node_activation_tensor_utilization_def
    by (auto split: if_splits sum.splits option.splits dest!: get_activation_nbits_assert)
qed

lemma cuts_no_assert:
  fixes c :: ResourceUtilizationCalculator
  shows "cuts c \<noteq> Inl AssertionError"
proof
  assume "cuts c = Inl AssertionError"
  then show False
    unfolding cuts_def
    by (auto split: option.splits sum.splits list.splits dest!: mapM_Inl)
qed

lemma max_utilization_err: "max_utilization us = Inl e \<Longrightarrow> e = EmptySequence"
  by (cases us) auto

lemma activations_no_assert:
  fixes c :: ResourceUtilizationCalculator
  shows "compute_activations_utilization c crit m q \<noteq> Inl AssertionError"
proof
  assume "compute_activations_utilization c crit m q = Inl AssertionError"
  then have "compute_activation_utilization_by_cut c crit m q = Inl AssertionError"
    unfolding compute_activations_utilization_def by (auto split: sum.splits)
  then show False
    unfolding compute_activation_utilization_by_cut_def Let_def cut_nodes_utilization_def
    using node_activation_no_assert cuts_no_assert
    by (auto split: if_splits sum.splits prod.splits dest!: mapM_Inl max_utilization_err)
qed

lemma all_RUTarget: "(\<forall>t. P t) \<longleftrightarrow> P WEIGHTS \<and> P ACTIVATION \<and> P TOTAL \<and> P BOPS"
  by (metis RUTarget.exhaust)

lemma restricted_targets_eq:
  fixes ru :: ResourceUtilization
  shows "get_restricted_targets ru = T \<longleftrightarrow>
     ((weights_memory ru \<noteq> None) = (WEIGHTS \<in> T)) \<and>
     ((activation_memory ru \<noteq> None) = (ACTIVATION \<in> T)) \<and>
     ((total_memory ru \<noteq> None) = (TOTAL \<in> T)) \<and>
     ((bops ru \<noteq> None) = (BOPS \<in> T))"
  unfolding set_eq_iff all_RUTarget by (simp add: get_restricted_targets_def)

lemma targets_inter2: "{a, b} \<inter> T = {} \<longleftrightarrow> a \<notin> T \<and> b \<notin> T"
  by auto

lemma targets_inter3: "{a, b, c} \<inter> T = {} \<longleftrightarrow> a \<notin> T \<and> b \<notin> T \<and> c \<notin> T"
  by auto

lemma assertion_only_from_bops:
  fixes c :: ResourceUtilizationCalculator
  assumes "compute_resource_utilization c crit mode act_qcs w_qcs ru_targets allow
           = Inl AssertionError"
  shows "BOPS \<in> requested_targets ru_targets \<and>
         compute_bops c crit mode act_qcs w_qcs = Inl AssertionError"
proof -
  define T where "T = requested_targets ru_targets"
  note nw = weights_no_assert [of c crit mode]
  note na = activations_no_assert [of c crit mode]
  from assms show ?thesis
    unfolding compute_resource_utilization_def Let_def T_def [symmetric]
      restricted_targets_eq targets_inter2 targets_inter3
    using nw na
    by (simp add: empty_resource_utilization_def split: if_splits sum.splits prod.splits)
      (auto)
qed

lemma ex_two_inputs_bops:
  "compute_resource_utilization ex_calc_two_inputs AnyQuantized Q8Bit None None (Some [BOPS]) False
   = Inl AssertionError"
  by (simp add: compute_resource_utilization_def requested_targets_def dict_truthy_def
      compute_bops_def compute_node_bops_def collect_target_nodes_w_attrs_def
      get_target_weight_attrs_def incoming_edges_def ex_edge_def ex_mac_def
      dict_get_def ex_calc_two_inputs_def dedup_def ex_simps Let_def)

text \<open>
  C6 (amended). A successful call of \<open>compute_resource_utilization\<close> returns a record
  that populates exactly the requested targets (all four when none is given) and no others,
  and the assertion that checks this never fails: a failed assertion of the call comes from
  the BOPS computation. Whenever Total is requested, whether or not Weights and Activation
  are requested too, the weights bytes and the peak activation bytes are computed and
  \<open>total_memory\<close> is their sum; \<open>weights_memory\<close> and \<open>activation_memory\<close> hold them
  when they are requested.
\<close>

theorem returned_record_populates_requested_targets:
  fixes c :: ResourceUtilizationCalculator
  shows
  "(compute_resource_utilization c crit mode act_qcs w_qcs ru_targets allow = Inr ru \<longrightarrow>
      get_restricted_targets ru = requested_targets ru_targets \<and>
      (TOTAL \<in> requested_targets ru_targets \<longrightarrow>
        (\<exists>w per_node per_weight a.
           compute_weights_utilization c crit mode w_qcs = Inr (w, per_node, per_weight) \<and>
           compute_activations_utilization c crit mode act_qcs = Inr a \<and>
           total_memory ru = Some (w + a) \<and>
           (WEIGHTS \<in> requested_targets ru_targets \<longrightarrow> weights_memory ru = Some w) \<and>
           (ACTIVATION \<in> requested_targets ru_targets \<longrightarrow> activation_memory ru = Some a)))) \<and>
   (compute_resource_utilization c crit mode act_qcs w_qcs ru_targets allow = Inl AssertionError
      \<longrightarrow> BOPS \<in> requested_targets ru_targets \<and>
          compute_bops c crit mode act_qcs w_qcs = Inl AssertionError)"
  using request_success [of c crit mode act_qcs w_qcs ru_targets allow ru]
    assertion_only_from_bops [of c crit mode act_qcs w_qcs ru_targets allow]
  by blast

theorem total_alone_counterexample:
  "compute_resource_utilization ex_calc AnyQuantized Q8Bit None None (Some [TOTAL]) False
   = Inr \<lparr>weights_memory = None, activation_memory = None, total_memory = Some 96, bops = None\<rparr> \<and>
   TOTAL \<in> requested_targets (Some [TOTAL]) \<and>
   WEIGHTS \<notin> requested_targets (Some [TOTAL]) \<and>
   ACTIVATION \<notin> requested_targets (Some [TOTAL])"
  using ex_total_only by (simp add: requested_targets_def)


theorem returned_record_populates_requested_targets_witness:
  "compute_resource_utilization ex_calc AnyQuantized Q8Bit None None (Some [TOTAL]) False
     = Inr \<lparr>weights_memory = None, activation_memory = None, total_memory = Some 96,
            bops = None\<rparr> \<and>
   get_restricted_targets \<lparr>weights_memory = None, activation_memory = None,
       total_memory = Some 96, bops = None\<rparr> = requested_targets (Some [TOTAL]) \<and>
   (\<exists>w per_node per_weight a.
      compute_weights_utilization ex_calc AnyQuantized Q8Bit None = Inr (w, per_node, per_weight) \<and>
      compute_activations_utilization ex_calc AnyQuantized Q8Bit None = Inr a \<and>
      Some 96 = Some (w + a)) \<and>
   compute_resource_utilization ex_calc_two_inputs AnyQuantized Q8Bit None None (Some [BOPS]) False
     = Inl AssertionError \<and>
   compute_bops ex_calc_two_inputs AnyQuantized Q8Bit None None = Inl AssertionError"
proof -
  have t: "TOTAL \<in> requested_targets (Some [TOTAL])" by (simp add: requested_targets_def)
  from returned_record_populates_requested_targets
         [where c = ex_calc and crit = AnyQuantized and mode = Q8Bit and act_qcs = None
            and w_qcs = None and ru_targets = "Some [TOTAL]" and allow = False
            and ru = "\<lparr>weights_memory = None, activation_memory = None,
                         total_memory = Some 96, bops = None\<rparr>"]
       returned_record_populates_requested_targets
         [where c = ex_calc_two_inputs and crit = AnyQuantized and mode = Q8Bit
            and act_qcs = None and w_qcs = None and ru_targets = "Some [BOPS]"
            and allow = False]
       ex_total_only ex_two_inputs_bops t
  show ?thesis by auto
qed

subsection \<open>Monotonicity in the bit-width\<close>

lemma py_min_le_py_max:
  assumes "py_min xs = Inr lo" and "py_max xs = Inr hi"
  shows "lo \<le> hi"
proof -
  from assms(1) have ne: "xs \<noteq> []" by (cases xs) auto
  then obtain x where x: "x \<in> set xs" by (cases xs) auto
  from assms ne have "lo = Min (set xs)" "hi = Max (set xs)"
    by (simp_all add: py_min_Min py_max_Max)
  moreover have "Min (set xs) \<le> x" "x \<le> Max (set xs)" using x by simp_all
  ultimately show ?thesis by linarith
qed

lemma activation_nbits_mono:
  fixes n :: BaseNode
  assumes "get_activation_nbits n QMinBit q = Inr lo"
    and "get_activation_nbits n QMaxBit q = Inr hi"
  shows "lo \<le> hi"
proof (cases q)
  case (Some cfg)
  with assms show ?thesis by (simp add: get_activation_nbits_def)
next
  case None
  show ?thesis
  proof (cases "activation_quantization_enabled n")
    case False
    with assms None show ?thesis by (simp add: get_activation_nbits_def)
  next
    case True
    with assms None show ?thesis
      by (simp add: get_activation_nbits_def bitwidth_mode_fn_def py_min_le_py_max)
  qed
qed

lemma weight_nbits_mono:
  fixes n :: BaseNode
  assumes "get_weight_nbits n a QMinBit q = Inr lo"
    and "get_weight_nbits n a QMaxBit q = Inr hi"
  shows "lo \<le> hi"
proof (cases q)
  case (Some cfg)
  with assms show ?thesis by (simp add: get_weight_nbits_def)
next
  case None
  show ?thesis
  proof (cases "weights_quantization_enabled n a")
    case False
    with assms None show ?thesis by (simp add: get_weight_nbits_def)
  next
    case True
    with assms None show ?thesis
      unfolding get_weight_nbits_def bitwidth_mode_fn_def
      by (auto split: sum.splits intro: py_min_le_py_max)
  qed
qed

lemma mapM_rel:
  "mapM f xs = Inr ys \<Longrightarrow> mapM g xs = Inr zs \<Longrightarrow>
   (\<forall>x \<in> set xs. \<forall>y z. f x = Inr y \<longrightarrow> g x = Inr z \<longrightarrow> R y z) \<Longrightarrow>
   list_all2 R ys zs"
  by (induction xs arbitrary: ys zs) (auto split: sum.splits)

lemma bytes_fold_add:
  "bytes (fold (\<lambda>x acc. utilization_add acc x) us u) = bytes u + sum_list (map bytes us)"
  by (induction us arbitrary: u) (simp_all add: utilization_add_def)

lemma bytes_sum_utilization: "bytes (sum_utilization us) = sum_list (map bytes us)"
  by (cases us) (simp_all add: bytes_fold_add zero_utilization_def)

lemma sum_list_mono2:
  fixes f :: "'a \<Rightarrow> rat" and g :: "'b \<Rightarrow> rat"
  shows "list_all2 (\<lambda>x y. f x \<le> g y) xs ys \<Longrightarrow> sum_list (map f xs) \<le> sum_list (map g ys)"
  by (induction rule: list_all2_induct) (simp_all add: add_mono)

lemma sum_list_mono2_nat:
  fixes f :: "'a \<Rightarrow> nat" and g :: "'b \<Rightarrow> nat"
  shows "list_all2 (\<lambda>x y. f x \<le> g y) xs ys \<Longrightarrow> sum_list (map f xs) \<le> sum_list (map g ys)"
  by (induction rule: list_all2_induct) (simp_all add: add_mono)

lemma bytes_total_mono:
  assumes "list_all2 (\<lambda>x y. bytes x \<le> bytes y) us vs"
  shows "bytes (if us = [] then zero_utilization else sum_utilization us)
       \<le> bytes (if vs = [] then zero_utilization else sum_utilization vs)"
proof -
  have "bytes (if us = [] then zero_utilization else sum_utilization us) = sum_list (map bytes us)"
    by (simp add: bytes_sum_utilization zero_utilization_def)
  moreover have "bytes (if vs = [] then zero_utilization else sum_utilization vs)
      = sum_list (map bytes vs)"
    by (simp add: bytes_sum_utilization zero_utilization_def)
  ultimately show ?thesis using sum_list_mono2 [OF assms] by simp
qed

lemma bytes_mono:
  fixes sz lo hi :: nat
  assumes "lo \<le> hi"
  shows "(of_nat (sz * lo) :: rat) / 8 \<le> of_nat (sz * hi) / 8"
proof -
  from assms have "sz * lo \<le> sz * hi" by simp
  then have "(of_nat (sz * lo) :: rat) \<le> of_nat (sz * hi)" by (simp only: of_nat_le_iff)
  then show ?thesis by (simp add: divide_right_mono)
qed

lemma node_weights_mono:
  fixes c :: ResourceUtilizationCalculator and n :: BaseNode
  assumes lo: "compute_node_weights_utilization c n a QMinBit q = Inr (u_lo, d_lo)"
    and hi: "compute_node_weights_utilization c n a QMaxBit q = Inr (u_hi, d_hi)"
  shows "bytes u_lo \<le> bytes u_hi"
proof -
  define attrs where "attrs = (case a of
                 Criterion crit \<Rightarrow> Inr (get_target_weight_attrs n crit)
               | Attrs attrs \<Rightarrow> if attrs = [] then Inl EmptyAttrList else Inr attrs)"
  define f where "f = (\<lambda>m attr.
                          case params_cnt c n of
                            None \<Rightarrow> Inl KeyError
                          | Some cnt \<Rightarrow>
                             (case cnt attr of
                                None \<Rightarrow> Inl KeyError
                              | Some sz \<Rightarrow>
                                 (case get_weight_nbits n attr m q of
                                    Inl e \<Rightarrow> Inl e
                                  | Inr nbits \<Rightarrow>
                                      Inr (attr, \<lparr>size_u = sz,
                                                  bytes = of_nat (sz * nbits) / 8\<rparr>))))"
  from lo obtain ws where ws: "attrs = Inr ws"
    unfolding compute_node_weights_utilization_def attrs_def
    by (auto split: if_splits sum.splits)
  from lo ws have l: "mapM (f QMinBit) (dedup ws) = Inr d_lo"
    and ul: "u_lo = (if d_lo = [] then zero_utilization else sum_utilization (map snd d_lo))"
    unfolding compute_node_weights_utilization_def attrs_def [symmetric] f_def
    by (auto split: if_splits sum.splits)
  from hi ws have h: "mapM (f QMaxBit) (dedup ws) = Inr d_hi"
    and uh: "u_hi = (if d_hi = [] then zero_utilization else sum_utilization (map snd d_hi))"
    unfolding compute_node_weights_utilization_def attrs_def [symmetric] f_def
    by (auto split: if_splits sum.splits)
  have "list_all2 (\<lambda>x y. bytes (snd x) \<le> bytes (snd y)) d_lo d_hi"
  proof (rule mapM_rel [OF l h], intro ballI allI impI)
    fix x y z assume "f QMinBit x = Inr y" "f QMaxBit x = Inr z"
    then show "bytes (snd y) \<le> bytes (snd z)"
      unfolding f_def
      by (auto split: option.splits sum.splits
          simp del: of_nat_mult dest!: weight_nbits_mono intro!: bytes_mono)
  qed
  then have "list_all2 (\<lambda>x y. bytes x \<le> bytes y) (map snd d_lo) (map snd d_hi)"
    by (simp add: list_all2_map1 list_all2_map2)
  from bytes_total_mono [OF this] show ?thesis unfolding ul uh by simp
qed

lemma weights_mono:
  fixes c :: ResourceUtilizationCalculator
  assumes lo: "compute_weights_utilization c crit QMinBit q = Inr (w_lo, pn_lo, pw_lo)"
    and hi: "compute_weights_utilization c crit QMaxBit q = Inr (w_hi, pn_hi, pw_hi)"
  shows "w_lo \<le> w_hi"
proof -
  define node_attrs where "node_attrs = collect_target_nodes_w_attrs c crit False"
  define F where "F = (\<lambda>m n.
                             case map_of node_attrs n of
                               None \<Rightarrow> Inl KeyError
                             | Some attrs \<Rightarrow>
                                (case compute_node_weights_utilization c n (Attrs attrs)
                                        m (dict_get q n) of
                                   Inl e \<Rightarrow> Inl e
                                 | Inr (node_weights_util, per_weight_util) \<Rightarrow>
                                     Inr (n, node_weights_util, per_weight_util)))"
  from lo obtain sorted_nodes where st: "topo_sort c (map fst node_attrs) = Inr sorted_nodes"
    unfolding compute_weights_utilization_def Let_def node_attrs_def
    by (auto split: if_splits sum.splits)
  from lo st obtain rl where rl: "mapM (F QMinBit) (dedup sorted_nodes) = Inr rl"
    and wl: "w_lo = bytes (if map (\<lambda>(n, u, pw). (n, u)) rl = [] then zero_utilization
                      else sum_utilization (map snd (map (\<lambda>(n, u, pw). (n, u)) rl)))"
    unfolding compute_weights_utilization_def Let_def node_attrs_def [symmetric] F_def
    by (auto split: if_splits sum.splits)
  from hi st obtain rh where rh: "mapM (F QMaxBit) (dedup sorted_nodes) = Inr rh"
    and wh: "w_hi = bytes (if map (\<lambda>(n, u, pw). (n, u)) rh = [] then zero_utilization
                      else sum_utilization (map snd (map (\<lambda>(n, u, pw). (n, u)) rh)))"
    unfolding compute_weights_utilization_def Let_def node_attrs_def [symmetric] F_def
    by (auto split: if_splits sum.splits)
  have "list_all2 (\<lambda>x y. bytes (fst (snd x)) \<le> bytes (fst (snd y))) rl rh"
  proof (rule mapM_rel [OF rl rh], intro ballI allI impI)
    fix x y z assume "F QMinBit x = Inr y" "F QMaxBit x = Inr z"
    then show "bytes (fst (snd y)) \<le> bytes (fst (snd z))"
      unfolding F_def
      by (auto split: option.splits sum.splits prod.splits dest: node_weights_mono)
  qed
  then have l2: "list_all2 (\<lambda>x y. bytes x \<le> bytes y)
      (map snd (map (\<lambda>(n, u, pw). (n, u)) rl)) (map snd (map (\<lambda>(n, u, pw). (n, u)) rh))"
    by (simp add: list_all2_map1 list_all2_map2 case_prod_beta)
  have "w_lo = bytes (if map snd (map (\<lambda>(n, u, pw). (n, u)) rl) = [] then zero_utilization
                      else sum_utilization (map snd (map (\<lambda>(n, u, pw). (n, u)) rl)))"
    unfolding wl by simp
  moreover have "w_hi = bytes (if map snd (map (\<lambda>(n, u, pw). (n, u)) rh) = [] then zero_utilization
                      else sum_utilization (map snd (map (\<lambda>(n, u, pw). (n, u)) rh)))"
    unfolding wh by simp
  ultimately show ?thesis using bytes_total_mono [OF l2] by simp
qed

lemma node_activation_mono:
  fixes c :: ResourceUtilizationCalculator and n :: BaseNode
  assumes "compute_node_activation_tensor_utilization c n t QMinBit q = Inr u_lo"
    and "compute_node_activation_tensor_utilization c n t QMaxBit q = Inr u_hi"
  shows "bytes u_lo \<le> bytes u_hi"
  using assms unfolding compute_node_activation_tensor_utilization_def
  by (auto split: if_splits option.splits sum.splits
      simp del: of_nat_mult dest!: activation_nbits_mono intro!: bytes_mono)

lemma cut_nodes_mono:
  fixes c :: ResourceUtilizationCalculator
  assumes lo: "cut_nodes_utilization c crit QMinBit q ns = Inr pl"
    and hi: "cut_nodes_utilization c crit QMaxBit q ns = Inr ph"
  shows "list_all2 (\<lambda>x y. bytes (snd x) \<le> bytes (snd y)) pl ph"
proof (rule mapM_rel [OF lo [unfolded cut_nodes_utilization_def]
         hi [unfolded cut_nodes_utilization_def]], intro ballI allI impI)
  fix x y z
  assume "(case compute_node_activation_tensor_utilization c x (Some crit) QMinBit (dict_get q x) of
             Inl e \<Rightarrow> Inl e | Inr u \<Rightarrow> Inr (x, u)) = Inr y"
    and "(case compute_node_activation_tensor_utilization c x (Some crit) QMaxBit (dict_get q x) of
             Inl e \<Rightarrow> Inl e | Inr u \<Rightarrow> Inr (x, u)) = Inr z"
  then show "bytes (snd y) \<le> bytes (snd z)"
    by (auto split: sum.splits dest: node_activation_mono)
qed

lemma bytes_fold_max:
  "bytes (fold (\<lambda>item best. if bytes item > bytes best then item else best) us u)
   = fold max (map bytes us) (bytes u)"
  by (induction us arbitrary: u) (auto simp: max_def)

lemma fold_max_mono:
  fixes a b :: rat
  shows "list_all2 (\<le>) xs ys \<Longrightarrow> a \<le> b \<Longrightarrow> fold max xs a \<le> fold max ys b"
proof (induction arbitrary: a b rule: list_all2_induct)
  case Nil
  then show ?case by simp
next
  case (Cons x xs y ys)
  have "max x a \<le> max y b" using Cons.hyps(1) Cons.prems by (rule max.mono)
  then show ?case using Cons.IH by simp
qed

lemma max_utilization_mono:
  assumes "list_all2 (\<lambda>x y. bytes x \<le> bytes y) us vs"
    and "max_utilization us = Inr m" and "max_utilization vs = Inr m'"
  shows "bytes m \<le> bytes m'"
proof (cases us)
  case Nil
  with assms show ?thesis by simp
next
  case (Cons u us')
  with assms(1) obtain v vs' where v: "vs = v # vs'" "bytes u \<le> bytes v"
    "list_all2 (\<lambda>x y. bytes x \<le> bytes y) us' vs'"
    by (auto simp: list_all2_Cons1)
  from v(3) have "list_all2 (\<le>) (map bytes us') (map bytes vs')"
    by (simp add: list_all2_map1 list_all2_map2)
  from this v(2)
  have le: "fold max (map bytes us') (bytes u) \<le> fold max (map bytes vs') (bytes v)"
    by (rule fold_max_mono)
  from assms(2) Cons
  have m: "m = fold (\<lambda>item best. if bytes item > bytes best then item else best) us' u"
    by simp
  from assms(3) v(1)
  have m': "m' = fold (\<lambda>item best. if bytes item > bytes best then item else best) vs' v"
    by simp
  show ?thesis unfolding m m' bytes_fold_max by (rule le)
qed

lemma list_all2_filter:
  "list_all2 Q xs ys \<Longrightarrow> (\<forall>x y. Q x y \<longrightarrow> P x = P' y) \<Longrightarrow>
   list_all2 Q (filter P xs) (filter P' ys)"
  by (induction rule: list_all2_induct) auto

lemma by_cut_mono:
  fixes c :: ResourceUtilizationCalculator
  assumes lo: "compute_activation_utilization_by_cut c crit QMinBit q = Inr (a_lo, pc_lo, d_lo)"
    and hi: "compute_activation_utilization_by_cut c crit QMaxBit q = Inr (a_hi, pc_hi, d_hi)"
  shows "a_lo \<le> a_hi"
proof (cases "get_target_activation_nodes c crit True None = []")
  case True
  with lo hi show ?thesis
    unfolding compute_activation_utilization_by_cut_def by (auto split: if_splits)
next
  case False
  define G where "G = (\<lambda>m (p :: Cut \<times> BaseNode list).
                          case cut_nodes_utilization c crit m q (snd p) of
                            Inl e \<Rightarrow> Inl e
                          | Inr per_node \<Rightarrow> Inr (fst p, per_node))"
  define S where "S = (\<lambda>v :: (Cut \<times> (BaseNode \<times> Utilization) list) list.
       map snd (map (\<lambda>(cut, per_node). (cut, sum_utilization (map snd per_node)))
                                      (filter (\<lambda>(cut, per_node). per_node \<noteq> []) v)))"
  have Geq: "\<And>m. (\<lambda>(cut, cut_nodes).
                          case cut_nodes_utilization c crit m q cut_nodes of
                            Inl e \<Rightarrow> Inl e
                          | Inr per_node \<Rightarrow> Inr (cut, per_node)) = G m"
    by (simp add: G_def fun_eq_iff case_prod_beta)
  from lo False obtain cs where cs: "cuts c = Inr cs"
    unfolding compute_activation_utilization_by_cut_def
    by (auto split: if_splits sum.splits)
  from lo False cs obtain vl ml where vl: "mapM (G QMinBit) cs = Inr vl"
    and ml: "max_utilization (S vl) = Inr ml" and al: "a_lo = bytes ml"
    unfolding compute_activation_utilization_by_cut_def Let_def Geq S_def
    by (auto split: if_splits sum.splits)
  from hi False cs obtain vh mh where vh: "mapM (G QMaxBit) cs = Inr vh"
    and mh: "max_utilization (S vh) = Inr mh" and ah: "a_hi = bytes mh"
    unfolding compute_activation_utilization_by_cut_def Let_def Geq S_def
    by (auto split: if_splits sum.splits)
  have v: "list_all2 (\<lambda>x y. list_all2 (\<lambda>x y. bytes (snd x) \<le> bytes (snd y)) (snd x) (snd y)) vl vh"
  proof (rule mapM_rel [OF vl vh], intro ballI allI impI)
    fix x y z assume "G QMinBit x = Inr y" "G QMaxBit x = Inr z"
    then show "list_all2 (\<lambda>x y. bytes (snd x) \<le> bytes (snd y)) (snd y) (snd z)"
      unfolding G_def by (auto split: sum.splits dest: cut_nodes_mono)
  qed
  have f: "list_all2 (\<lambda>x y. list_all2 (\<lambda>x y. bytes (snd x) \<le> bytes (snd y)) (snd x) (snd y))
       (filter (\<lambda>(cut, per_node). per_node \<noteq> []) vl)
       (filter (\<lambda>(cut, per_node). per_node \<noteq> []) vh)"
    by (rule list_all2_filter [OF v]) (auto simp: case_prod_beta)
  have "list_all2 (\<lambda>x y. bytes x \<le> bytes y) (S vl) (S vh)"
    unfolding S_def
    using f
    by (auto simp: list_all2_map1 list_all2_map2 case_prod_beta bytes_sum_utilization
        elim!: list_all2_mono intro!: sum_list_mono2)
  from max_utilization_mono [OF this ml mh] show ?thesis unfolding al ah .
qed

lemma node_bops_mono:
  fixes c :: ResourceUtilizationCalculator and n :: BaseNode
  assumes lo: "compute_node_bops c n QMinBit a w = Inr b_lo"
    and hi: "compute_node_bops c n QMaxBit a w = Inr b_hi"
  shows "b_lo \<le> b_hi"
proof (cases "get_node_mac_operations c n = 0 \<or> incoming_edges (graph c) n = []")
  case True
  with compute_node_bops_Inr [OF lo] compute_node_bops_Inr [OF hi] show ?thesis by simp
next
  case False
  with compute_node_bops_Inr [OF lo] obtain e k al wl where
    l: "incoming_edges (graph c) n = [e]" "get_kernel_op_attributes c (op_type n) = [k]"
      "get_activation_nbits (source_node e) QMinBit (dict_get a (source_node e)) = Inr al"
      "get_weight_nbits n k QMinBit w = Inr wl"
      "b_lo = get_node_mac_operations c n * al * wl"
    by auto
  from False compute_node_bops_Inr [OF hi] l(1,2) obtain ah wh where
    h: "get_activation_nbits (source_node e) QMaxBit (dict_get a (source_node e)) = Inr ah"
      "get_weight_nbits n k QMaxBit w = Inr wh"
      "b_hi = get_node_mac_operations c n * ah * wh"
    by auto
  have "al \<le> ah" using l(3) h(1) by (rule activation_nbits_mono)
  moreover have "wl \<le> wh" using l(4) h(2) by (rule weight_nbits_mono)
  ultimately show ?thesis unfolding l(5) h(3) by (simp add: mult_le_mono)
qed

lemma bops_mono:
  fixes c :: ResourceUtilizationCalculator
  assumes lo: "compute_bops c crit QMinBit a w = Inr (b_lo, pn_lo)"
    and hi: "compute_bops c crit QMaxBit a w = Inr (b_hi, pn_hi)"
  shows "b_lo \<le> b_hi"
proof -
  define ns where "ns = filter kernel_weight_to_quantize
                    (map fst (collect_target_nodes_w_attrs c crit True))"
  from lo have l: "mapM (\<lambda>n. case compute_node_bops c n QMinBit a (dict_get w n) of
                              Inl e \<Rightarrow> Inl e
                            | Inr b \<Rightarrow> Inr (n, b)) ns = Inr pn_lo"
    and bl: "b_lo = sum_list (map snd pn_lo)"
    unfolding compute_bops_def Let_def ns_def by (auto split: if_splits sum.splits)
  from hi have h: "mapM (\<lambda>n. case compute_node_bops c n QMaxBit a (dict_get w n) of
                              Inl e \<Rightarrow> Inl e
                            | Inr b \<Rightarrow> Inr (n, b)) ns = Inr pn_hi"
    and bh: "b_hi = sum_list (map snd pn_hi)"
    unfolding compute_bops_def Let_def ns_def by (auto split: if_splits sum.splits)
  have "list_all2 (\<lambda>x y. snd x \<le> snd y) pn_lo pn_hi"
  proof (rule mapM_rel [OF l h], intro ballI allI impI)
    fix x y z
    assume "(case compute_node_bops c x QMinBit a (dict_get w x) of
               Inl e \<Rightarrow> Inl e | Inr b \<Rightarrow> Inr (x, b)) = Inr y"
      and "(case compute_node_bops c x QMaxBit a (dict_get w x) of
               Inl e \<Rightarrow> Inl e | Inr b \<Rightarrow> Inr (x, b)) = Inr z"
    then show "snd y \<le> snd z"
      by (auto split: sum.splits dest: node_bops_mono)
  qed
  from sum_list_mono2_nat [OF this] show ?thesis unfolding bl bh .
qed

lemma request_fields:
  fixes c :: ResourceUtilizationCalculator
  assumes ok: "compute_resource_utilization c crit mode act_qcs w_qcs ru_targets allow = Inr ru"
    and nw: "\<not> dict_truthy w_qcs" and na: "\<not> dict_truthy act_qcs"
  shows "(if WEIGHTS \<in> requested_targets ru_targets
          then \<exists>x pn pw. compute_weights_utilization c crit mode w_qcs = Inr (x, pn, pw) \<and>
                 weights_memory ru = Some x
          else weights_memory ru = None) \<and>
         (if ACTIVATION \<in> requested_targets ru_targets
          then \<exists>x pc d. compute_activation_utilization_by_cut c crit mode act_qcs = Inr (x, pc, d) \<and>
                 activation_memory ru = Some x
          else activation_memory ru = None) \<and>
         (if TOTAL \<in> requested_targets ru_targets
          then \<exists>x pn pw y pc d.
                 compute_weights_utilization c crit mode w_qcs = Inr (x, pn, pw) \<and>
                 compute_activation_utilization_by_cut c crit mode act_qcs = Inr (y, pc, d) \<and>
                 total_memory ru = Some (x + y)
          else total_memory ru = None) \<and>
         (if BOPS \<in> requested_targets ru_targets
          then \<exists>x pn. compute_bops c crit mode act_qcs w_qcs = Inr (x, pn) \<and> bops ru = Some x
          else bops ru = None)"
proof -
  define T where "T = requested_targets ru_targets"
  from ok nw na show ?thesis
    unfolding compute_resource_utilization_def Let_def T_def [symmetric]
      restricted_targets_eq targets_inter2 targets_inter3 compute_activations_utilization_def
    by (simp add: empty_resource_utilization_def split: if_splits sum.splits prod.splits)
      auto
qed

lemma request_mono:
  fixes c :: ResourceUtilizationCalculator
  assumes lo: "compute_resource_utilization c crit QMinBit act_qcs w_qcs ru_targets allow = Inr r_lo"
    and hi: "compute_resource_utilization c crit QMaxBit act_qcs w_qcs ru_targets allow = Inr r_hi"
  shows "rel_option (\<le>) (weights_memory r_lo) (weights_memory r_hi) \<and>
         rel_option (\<le>) (activation_memory r_lo) (activation_memory r_hi) \<and>
         rel_option (\<le>) (total_memory r_lo) (total_memory r_hi) \<and>
         rel_option (\<le>) (bops r_lo) (bops r_hi)"
proof -
  from lo have nt: "\<not> dict_truthy w_qcs" "\<not> dict_truthy act_qcs"
    unfolding compute_resource_utilization_def Let_def by (auto split: if_splits)
  note fl = request_fields [OF lo nt]
  note fh = request_fields [OF hi nt]
  have w: "rel_option (\<le>) (weights_memory r_lo) (weights_memory r_hi)"
    using fl fh by (cases "WEIGHTS \<in> requested_targets ru_targets") (auto dest: weights_mono)
  have a: "rel_option (\<le>) (activation_memory r_lo) (activation_memory r_hi)"
    using fl fh by (cases "ACTIVATION \<in> requested_targets ru_targets") (auto dest: by_cut_mono)
  have t: "rel_option (\<le>) (total_memory r_lo) (total_memory r_hi)"
  proof (cases "TOTAL \<in> requested_targets ru_targets")
    case False
    with fl fh show ?thesis by simp
  next
    case True
    with fl obtain x pn pw y pc d where
      l: "compute_weights_utilization c crit QMinBit w_qcs = Inr (x, pn, pw)"
         "compute_activation_utilization_by_cut c crit QMinBit act_qcs = Inr (y, pc, d)"
         "total_memory r_lo = Some (x + y)" by auto
    from True fh obtain x' pn' pw' y' pc' d' where
      h: "compute_weights_utilization c crit QMaxBit w_qcs = Inr (x', pn', pw')"
         "compute_activation_utilization_by_cut c crit QMaxBit act_qcs = Inr (y', pc', d')"
         "total_memory r_hi = Some (x' + y')" by auto
    have "x \<le> x'" using l(1) h(1) by (rule weights_mono)
    moreover have "y \<le> y'" using l(2) h(2) by (rule by_cut_mono)
    ultimately show ?thesis using l(3) h(3) by simp
  qed
  have b: "rel_option (\<le>) (bops r_lo) (bops r_hi)"
    using fl fh by (cases "BOPS \<in> requested_targets ru_targets") (auto dest: bops_mono)
  from w a t b show ?thesis by blast
qed

lemma ex_weights_min: "compute_weights_utilization ex_calc AnyQuantized QMinBit None =
    Inr (8, [(ex_conv, \<lparr>size_u = 16, bytes = 8\<rparr>)],
         [(ex_conv, [(ex_kernel, \<lparr>size_u = 16, bytes = 8\<rparr>)])])"
  by (simp add: compute_weights_utilization_def collect_target_nodes_w_attrs_def
      get_target_weight_attrs_def dict_truthy_def dict_get_def ex_calc_def ex_graph_def
      dedup_def topo_sort_def compute_node_weights_utilization_def params_cnt_def
      get_weight_nbits_def ex_simps zero_utilization_def utilization_add_def Let_def
      bitwidth_mode_fn_def get_unique_weights_candidates_def get_attr_config_def ex_cand_def)

lemma ex_weights_max: "compute_weights_utilization ex_calc AnyQuantized QMaxBit None =
    Inr (16, [(ex_conv, \<lparr>size_u = 16, bytes = 16\<rparr>)],
         [(ex_conv, [(ex_kernel, \<lparr>size_u = 16, bytes = 16\<rparr>)])])"
  by (simp add: compute_weights_utilization_def collect_target_nodes_w_attrs_def
      get_target_weight_attrs_def dict_truthy_def dict_get_def ex_calc_def ex_graph_def
      dedup_def topo_sort_def compute_node_weights_utilization_def params_cnt_def
      get_weight_nbits_def ex_simps zero_utilization_def utilization_add_def Let_def
      bitwidth_mode_fn_def get_unique_weights_candidates_def get_attr_config_def ex_cand_def)

lemma ex_by_cut_min: "compute_activation_utilization_by_cut ex_calc AnyQuantized QMinBit None =
    Inr (64,
         [([''input''], \<lparr>size_u = 48, bytes = 24\<rparr>),
          ([''input'', ''conv''], \<lparr>size_u = 80, bytes = 56\<rparr>),
          ([''conv'', ''conv_reused''], \<lparr>size_u = 64, bytes = 64\<rparr>)],
         [([''input''], [(ex_input, \<lparr>size_u = 48, bytes = 24\<rparr>)]),
          ([''input'', ''conv''],
           [(ex_input, \<lparr>size_u = 48, bytes = 24\<rparr>),
            (ex_conv, \<lparr>size_u = 32, bytes = 32\<rparr>)]),
          ([''conv'', ''conv_reused''],
           [(ex_conv, \<lparr>size_u = 32, bytes = 32\<rparr>),
            (ex_conv_reused, \<lparr>size_u = 32, bytes = 32\<rparr>)])])"
  by (simp add: compute_activation_utilization_by_cut_def cut_nodes_utilization_def
      get_cut_target_nodes_def get_target_activation_nodes_def
      compute_node_activation_tensor_utilization_def act_tensors_size_def
      get_activation_nbits_def bitwidth_mode_fn_def ex_cand_def
      dict_truthy_def dict_get_def cuts_def ex_calc_def ex_graph_def dedup_def
      find_node_by_name_def ex_simps zero_utilization_def utilization_add_def Let_def)

lemma ex_by_cut_max: "compute_activation_utilization_by_cut ex_calc AnyQuantized QMaxBit None =
    Inr (80,
         [([''input''], \<lparr>size_u = 48, bytes = 48\<rparr>),
          ([''input'', ''conv''], \<lparr>size_u = 80, bytes = 80\<rparr>),
          ([''conv'', ''conv_reused''], \<lparr>size_u = 64, bytes = 64\<rparr>)],
         [([''input''], [(ex_input, \<lparr>size_u = 48, bytes = 48\<rparr>)]),
          ([''input'', ''conv''],
           [(ex_input, \<lparr>size_u = 48, bytes = 48\<rparr>),
            (ex_conv, \<lparr>size_u = 32, bytes = 32\<rparr>)]),
          ([''conv'', ''conv_reused''],
           [(ex_conv, \<lparr>size_u = 32, bytes = 32\<rparr>),
            (ex_conv_reused, \<lparr>size_u = 32, bytes = 32\<rparr>)])])"
  by (simp add: compute_activation_utilization_by_cut_def cut_nodes_utilization_def
      get_cut_target_nodes_def get_target_activation_nodes_def
      compute_node_activation_tensor_utilization_def act_tensors_size_def
      get_activation_nbits_def bitwidth_mode_fn_def ex_cand_def
      dict_truthy_def dict_get_def cuts_def ex_calc_def ex_graph_def dedup_def
      find_node_by_name_def ex_simps zero_utilization_def utilization_add_def Let_def)

lemma ex_bops_min: "compute_bops ex_calc AnyQuantized QMinBit None None =
    Inr (3200, [(ex_conv, 1600), (ex_conv_reused, 1600)])"
  by (simp add: compute_bops_def compute_node_bops_def collect_target_nodes_w_attrs_def
      get_target_weight_attrs_def incoming_edges_def ex_edge_def ex_mac_def ex_kernel_attrs_def
      get_activation_nbits_def get_weight_nbits_def bitwidth_mode_fn_def ex_cand_def
      get_unique_weights_candidates_def get_attr_config_def
      dict_truthy_def dict_get_def ex_calc_def ex_graph_def dedup_def
      ex_simps Let_def)

lemma ex_bops_max: "compute_bops ex_calc AnyQuantized QMaxBit None None =
    Inr (12800, [(ex_conv, 6400), (ex_conv_reused, 6400)])"
  by (simp add: compute_bops_def compute_node_bops_def collect_target_nodes_w_attrs_def
      get_target_weight_attrs_def incoming_edges_def ex_edge_def ex_mac_def ex_kernel_attrs_def
      get_activation_nbits_def get_weight_nbits_def bitwidth_mode_fn_def ex_cand_def
      get_unique_weights_candidates_def get_attr_config_def
      dict_truthy_def dict_get_def ex_calc_def ex_graph_def dedup_def
      ex_simps Let_def)

lemma ex_request_min:
  "compute_resource_utilization ex_calc AnyQuantized QMinBit None None None False
   = Inr \<lparr>weights_memory = Some 8, activation_memory = Some 64, total_memory = Some 72,
          bops = Some 3200\<rparr>"
  by (simp add: compute_resource_utilization_def requested_targets_def dict_truthy_def
      ex_weights_min ex_by_cut_min ex_bops_min compute_activations_utilization_def
      empty_resource_utilization_def restricted_targets_eq Let_def)

lemma ex_request_max:
  "compute_resource_utilization ex_calc AnyQuantized QMaxBit None None None False
   = Inr \<lparr>weights_memory = Some 16, activation_memory = Some 80, total_memory = Some 96,
          bops = Some 12800\<rparr>"
  by (simp add: compute_resource_utilization_def requested_targets_def dict_truthy_def
      ex_weights_max ex_by_cut_max ex_bops_max compute_activations_utilization_def
      empty_resource_utilization_def restricted_targets_eq Let_def)

text \<open>
  C7. Whenever the computations under \<open>QMinBit\<close> and under \<open>QMaxBit\<close> both succeed on the
  same graph, criterion and arguments, the weights bytes under \<open>QMaxBit\<close> are at least the
  weights bytes under \<open>QMinBit\<close>, and so are the peak activation bytes and the total BOPS;
  hence every field of the record returned by \<open>compute_resource_utilization\<close> under
  \<open>QMaxBit\<close> is at least the same field of the record returned under \<open>QMinBit\<close>.
\<close>

theorem max_bitwidth_dominates_min_bitwidth:
  fixes c :: ResourceUtilizationCalculator
  shows
  "(compute_weights_utilization c crit QMinBit w_qcs = Inr (w_lo, wn_lo, wa_lo) \<and>
    compute_weights_utilization c crit QMaxBit w_qcs = Inr (w_hi, wn_hi, wa_hi)
      \<longrightarrow> w_lo \<le> w_hi) \<and>
   (compute_activation_utilization_by_cut c crit QMinBit act_qcs = Inr (a_lo, ac_lo, ad_lo) \<and>
    compute_activation_utilization_by_cut c crit QMaxBit act_qcs = Inr (a_hi, ac_hi, ad_hi)
      \<longrightarrow> a_lo \<le> a_hi) \<and>
   (compute_bops c crit QMinBit act_qcs w_qcs = Inr (b_lo, bn_lo) \<and>
    compute_bops c crit QMaxBit act_qcs w_qcs = Inr (b_hi, bn_hi)
      \<longrightarrow> b_lo \<le> b_hi) \<and>
   (compute_resource_utilization c crit QMinBit act_qcs w_qcs ru_targets allow = Inr r_lo \<and>
    compute_resource_utilization c crit QMaxBit act_qcs w_qcs ru_targets allow = Inr r_hi
      \<longrightarrow> rel_option (\<le>) (weights_memory r_lo) (weights_memory r_hi) \<and>
          rel_option (\<le>) (activation_memory r_lo) (activation_memory r_hi) \<and>
          rel_option (\<le>) (total_memory r_lo) (total_memory r_hi) \<and>
          rel_option (\<le>) (bops r_lo) (bops r_hi))"
  using weights_mono [of c crit w_qcs w_lo wn_lo wa_lo w_hi wn_hi wa_hi]
    by_cut_mono [of c crit act_qcs a_lo ac_lo ad_lo a_hi ac_hi ad_hi]
    bops_mono [of c crit act_qcs w_qcs b_lo bn_lo b_hi bn_hi]
    request_mono [of c crit act_qcs w_qcs ru_targets allow r_lo r_hi]
  by blast

theorem max_bitwidth_dominates_min_bitwidth_witness:
  "compute_resource_utilization ex_calc AnyQuantized QMinBit None None None False
     = Inr \<lparr>weights_memory = Some 8, activation_memory = Some 64, total_memory = Some 72,
            bops = Some 3200\<rparr> \<and>
   compute_resource_utilization ex_calc AnyQuantized QMaxBit None None None False
     = Inr \<lparr>weights_memory = Some 16, activation_memory = Some 80, total_memory = Some 96,
            bops = Some 12800\<rparr> \<and>
   rel_option (\<le>) (Some (8 :: rat)) (Some 16) \<and>
   rel_option (\<le>) (Some (64 :: rat)) (Some 80) \<and>
   rel_option (\<le>) (Some (72 :: rat)) (Some 96) \<and>
   rel_option (\<le>) (Some (3200 :: nat)) (Some 12800)"
  using max_bitwidth_dominates_min_bitwidth
          [where c = ex_calc and crit = AnyQuantized and act_qcs = None and w_qcs = None
             and ru_targets = None and allow = False
             and r_lo = "\<lparr>weights_memory = Some 8, activation_memory = Some 64,
                           total_memory = Some 72, bops = Some 3200\<rparr>"
             and r_hi = "\<lparr>weights_memory = Some 16, activation_memory = Some 80,
                           total_memory = Some 96, bops = Some 12800\<rparr>"]
    ex_request_min ex_request_max
  by simp

subsection \<open>Peak activation memory\<close>

lemma mapM_all_Inr: "\<forall>x \<in> set xs. f x = Inr (g x) \<Longrightarrow> mapM f xs = Inr (map g xs)"
  by (induction xs) auto

lemma mapM_Inr_image:
  "mapM f xs = Inr ys \<Longrightarrow> x \<in> set xs \<Longrightarrow> \<exists>y \<in> set ys. f x = Inr y"
  by (induction xs arbitrary: ys) (auto split: sum.splits)

lemma mapM_Inr_preimage:
  "mapM f xs = Inr ys \<Longrightarrow> y \<in> set ys \<Longrightarrow> \<exists>x \<in> set xs. f x = Inr y"
  by (induction xs arbitrary: ys) (auto split: sum.splits)

lemma sum_list_dedup_remdups:
  fixes g :: "'a \<Rightarrow> rat"
  shows "sum_list (map g (dedup xs)) = sum_list (map g (remdups xs))"
proof -
  have "sum_list (map g (dedup xs)) = sum g (set (dedup xs))"
    by (rule sum_list_distinct_conv_sum_set) (rule distinct_dedup)
  moreover have "sum_list (map g (remdups xs)) = sum g (set (remdups xs))"
    by (rule sum_list_distinct_conv_sum_set) simp
  ultimately show ?thesis by (simp add: set_dedup)
qed

lemma max_utilization_Inr:
  assumes "max_utilization us = Inr m"
  shows "(\<forall>u \<in> set us. bytes u \<le> bytes m) \<and> (\<exists>u \<in> set us. bytes u = bytes m)"
proof (cases us)
  case Nil
  with assms show ?thesis by simp
next
  case (Cons u us')
  with assms
  have m: "m = fold (\<lambda>item best. if bytes item > bytes best then item else best) us' u"
    by simp
  have "bytes m = fold max (map bytes us') (bytes u)" unfolding m by (rule bytes_fold_max)
  also have "\<dots> = Max (set (bytes u # map bytes us'))" by (rule Max.set_eq_fold [symmetric])
  also have "set (bytes u # map bytes us') = bytes ` set us" using Cons by simp
  finally have mx: "bytes m = Max (bytes ` set us)" .
  have fin: "finite (bytes ` set us)" by simp
  have ne: "bytes ` set us \<noteq> {}" using Cons by simp
  have "\<forall>u \<in> set us. bytes u \<le> bytes m" unfolding mx using fin by simp
  moreover have "Max (bytes ` set us) \<in> bytes ` set us" using fin ne by (rule Max_in)
  then have "\<exists>u \<in> set us. bytes u = bytes m" unfolding mx by auto
  ultimately show ?thesis by blast
qed

lemma target_activation_nodes_filter:
  fixes c :: ResourceUtilizationCalculator
  shows "get_target_activation_nodes c crit True arg
     = filter (spec_activation_target crit)
         (case arg of None \<Rightarrow> nodes (graph c) | Some [] \<Rightarrow> nodes (graph c)
                    | Some (x # xs) \<Rightarrow> x # xs)"
  unfolding get_target_activation_nodes_def Let_def spec_activation_target_def
  by (cases crit) (simp_all add: fun_eq_iff cong: filter_cong)

lemma act_tensors_size_eq:
  fixes c :: ResourceUtilizationCalculator
  shows "act_tensors_size c n =
    (if n \<in> set (nodes (graph c)) then Some (total_output_params n) else None)"
  unfolding act_tensors_size_def by (simp add: map_of_map_restrict restrict_map_def)

lemma node_activation_spec:
  fixes c :: ResourceUtilizationCalculator and n :: BaseNode
  assumes "compute_node_activation_tensor_utilization c n (Some crit) mode (dict_get act n) = Inr u"
    and "spec_activation_target crit n" and "n \<in> set (nodes (graph c))"
  shows "spec_node_activation_bytes mode act n = Inr (bytes u)"
  using assms
  unfolding compute_node_activation_tensor_utilization_def spec_node_activation_bytes_def
    target_activation_nodes_filter act_tensors_size_eq
  by (auto split: if_splits sum.splits)

lemma spec_node_activation_bytes_nonneg:
  "spec_node_activation_bytes mode act n = Inr b \<Longrightarrow> 0 \<le> b"
proof -
  assume a: "spec_node_activation_bytes mode act n = Inr b"
  then obtain nbits :: nat
    where e: "rat_of_nat (total_output_params n) * rat_of_nat nbits = b * 8"
    unfolding spec_node_activation_bytes_def by (auto split: sum.splits)
  have "(0 :: rat) \<le> rat_of_nat (total_output_params n) * rat_of_nat nbits" by simp
  with e show "0 \<le> b" by linarith
qed

lemma cut_bytes_spec:
  fixes c :: ResourceUtilizationCalculator
  assumes pn: "cut_nodes_utilization c crit mode act ns = Inr per_node"
    and ne: "ns \<noteq> []" and sub: "set ns \<subseteq> set (nodes (graph c))"
  shows "spec_cut_bytes crit mode act ns = Inr (sum_list (map (\<lambda>q. bytes (snd q)) per_node))"
    and "per_node = [] \<longleftrightarrow> filter (spec_activation_target crit) ns = []"
    and "0 \<le> sum_list (map (\<lambda>q. bytes (snd q)) per_node)"
proof -
  define T where "T = filter (spec_activation_target crit) ns"
  have gt: "get_cut_target_nodes c crit ns = T"
    using ne unfolding get_cut_target_nodes_def target_activation_nodes_filter T_def
    by (cases ns) simp_all
  from mapM_keyed [OF pn [unfolded cut_nodes_utilization_def]]
  have keys: "map fst per_node = dedup T"
    and vals: "\<forall>q \<in> set per_node.
       compute_node_activation_tensor_utilization c (fst q) (Some crit) mode (dict_get act (fst q))
         = Inr (snd q)"
    unfolding gt by blast+
  have inT: "fst q \<in> set T" if "q \<in> set per_node" for q
  proof -
    from that have "fst q \<in> set (map fst per_node)" by simp
    then show ?thesis unfolding keys by (simp add: set_dedup)
  qed
  have sp: "spec_node_activation_bytes mode act (fst q) = Inr (bytes (snd q))"
    if "q \<in> set per_node" for q
  proof (rule node_activation_spec)
    from that vals show "compute_node_activation_tensor_utilization c (fst q) (Some crit) mode
        (dict_get act (fst q)) = Inr (snd q)" by blast
    from inT [OF that] show "spec_activation_target crit (fst q)" by (simp add: T_def)
    from inT [OF that] sub show "fst q \<in> set (nodes (graph c))" by (auto simp: T_def)
  qed
  define g where "g = (\<lambda>n. case spec_node_activation_bytes mode act n of
                             Inr b \<Rightarrow> b | Inl e \<Rightarrow> 0)"
  have gq: "g (fst q) = bytes (snd q)" if "q \<in> set per_node" for q
    using sp [OF that] by (simp add: g_def)
  have gT: "spec_node_activation_bytes mode act n = Inr (g n)" if "n \<in> set T" for n
  proof -
    from that have "n \<in> set (map fst per_node)" unfolding keys by (simp add: set_dedup)
    then obtain q where "q \<in> set per_node" "fst q = n" by auto
    with sp [of q] gq [of q] show ?thesis by simp
  qed
  have "map (\<lambda>q. bytes (snd q)) per_node = map g (map fst per_node)"
    using gq by simp
  then have s1: "sum_list (map (\<lambda>q. bytes (snd q)) per_node) = sum_list (map g (dedup T))"
    unfolding keys by simp
  have "mapM (spec_node_activation_bytes mode act) (remdups T) = Inr (map g (remdups T))"
    by (rule mapM_all_Inr) (simp add: gT)
  then have "spec_cut_bytes crit mode act ns = Inr (sum_list (map g (remdups T)))"
    unfolding spec_cut_bytes_def T_def by simp
  then show "spec_cut_bytes crit mode act ns = Inr (sum_list (map (\<lambda>q. bytes (snd q)) per_node))"
    unfolding s1 sum_list_dedup_remdups .
  have "per_node = [] \<longleftrightarrow> map fst per_node = []" by simp
  also have "\<dots> \<longleftrightarrow> set (dedup T) = {}" unfolding keys by simp
  also have "\<dots> \<longleftrightarrow> T = []" by (simp add: set_dedup)
  finally show "per_node = [] \<longleftrightarrow> filter (spec_activation_target crit) ns = []"
    unfolding T_def .
  show "0 \<le> sum_list (map (\<lambda>q. bytes (snd q)) per_node)"
  proof (rule sum_list_nonneg)
    fix x assume "x \<in> set (map (\<lambda>q. bytes (snd q)) per_node)"
    then obtain q where "q \<in> set per_node" "x = bytes (snd q)" by auto
    with sp [of q] show "0 \<le> x" using spec_node_activation_bytes_nonneg by blast
  qed
qed

lemma cuts_nodes:
  fixes c :: ResourceUtilizationCalculator
  assumes "cuts c = Inr cs" and "p \<in> set cs"
  shows "snd p \<noteq> [] \<and> set (snd p) \<subseteq> set (nodes (graph c))"
proof -
  from assms(1) obtain cs0 where m: "mapM (\<lambda>cut.
                  case mapM (\<lambda>m. case find_node_by_name (graph c) m of
                                     [] \<Rightarrow> Inl IndexError
                                   | n # _ \<Rightarrow> Inr n) cut of
                    Inl e \<Rightarrow> Inl e
                  | Inr ns \<Rightarrow> Inr (cut, ns))
               (dedup (filter (\<lambda>cut. cut \<noteq> []) cs0)) = Inr cs"
    unfolding cuts_def by (auto split: option.splits)
  from mapM_Inr_preimage [OF m assms(2)] obtain cut where
    cut: "cut \<in> set (dedup (filter (\<lambda>cut. cut \<noteq> []) cs0))"
    and r: "(case mapM (\<lambda>m. case find_node_by_name (graph c) m of
                                     [] \<Rightarrow> Inl IndexError
                                   | n # _ \<Rightarrow> Inr n) cut of
                    Inl e \<Rightarrow> Inl e
                  | Inr ns \<Rightarrow> Inr (cut, ns)) = Inr p"
    by blast
  from cut have cne: "cut \<noteq> []" by (simp add: set_dedup)
  from r obtain ns where ns: "mapM (\<lambda>m. case find_node_by_name (graph c) m of
                                     [] \<Rightarrow> Inl IndexError
                                   | n # _ \<Rightarrow> Inr n) cut = Inr ns" and p: "p = (cut, ns)"
    by (auto split: sum.splits)
  from mapM_Inr_length [OF ns] cne have "ns \<noteq> []" by auto
  moreover have "set ns \<subseteq> set (nodes (graph c))"
  proof
    fix n assume "n \<in> set ns"
    from mapM_Inr_preimage [OF ns this] obtain m where
      "(case find_node_by_name (graph c) m of [] \<Rightarrow> Inl IndexError | n # _ \<Rightarrow> Inr n) = Inr n"
      by blast
    then obtain rest where "find_node_by_name (graph c) m = n # rest"
      by (auto split: list.splits)
    then have "n \<in> set (find_node_by_name (graph c) m)" by simp
    then show "n \<in> set (nodes (graph c))" by (simp add: find_node_by_name_def)
  qed
  ultimately show ?thesis using p by simp
qed

text \<open>
  C1. For every graph, criterion and bit-width mode, when
  \<open>compute_activation_utilization_by_cut\<close> returns a peak, the peak is the maximum over
  the graph's cuts of the cut's activation bytes, the sum over the cut's selected target
  activation nodes of \<open>output_element_count \<times> effective_nbits / 8\<close>: the total of every cut
  is defined and at most the peak, and a cut attains the peak.
\<close>

theorem peak_activation_is_max_over_cuts:
  fixes c :: ResourceUtilizationCalculator
  assumes ok: "compute_activation_utilization_by_cut c crit mode act_qcs
               = Inr (peak, per_cut, detail)"
    and cs: "cuts c = Inr cs"
  shows "(\<forall>p \<in> set cs. \<exists>b. spec_cut_bytes crit mode act_qcs (snd p) = Inr b \<and> b \<le> peak) \<and>
         (cs \<noteq> [] \<longrightarrow> (\<exists>p \<in> set cs. spec_cut_bytes crit mode act_qcs (snd p) = Inr peak))"
proof (cases "get_target_activation_nodes c crit True None = []")
  case True
  with ok have peak: "peak = 0"
    unfolding compute_activation_utilization_by_cut_def by (auto split: if_splits)
  from True have none: "filter (spec_activation_target crit) (nodes (graph c)) = []"
    unfolding target_activation_nodes_filter by simp
  have z: "spec_cut_bytes crit mode act_qcs (snd p) = Inr 0" if "p \<in> set cs" for p
  proof -
    from cuts_nodes [OF cs that] have "set (snd p) \<subseteq> set (nodes (graph c))" by blast
    with none have "filter (spec_activation_target crit) (snd p) = []"
      by (auto simp: filter_empty_conv)
    then show ?thesis unfolding spec_cut_bytes_def by simp
  qed
  show ?thesis
  proof (intro conjI ballI impI)
    fix p assume "p \<in> set cs"
    with z peak show "\<exists>b. spec_cut_bytes crit mode act_qcs (snd p) = Inr b \<and> b \<le> peak"
      by simp
  next
    assume "cs \<noteq> []"
    then obtain p where pin: "p \<in> set cs" by (cases cs) auto
    from z [OF pin] have "spec_cut_bytes crit mode act_qcs (snd p) = Inr peak"
      unfolding peak .
    with pin show "\<exists>p \<in> set cs. spec_cut_bytes crit mode act_qcs (snd p) = Inr peak"
      by blast
  qed
next
  case False
  define G where "G = (\<lambda>p :: Cut \<times> BaseNode list.
                          case cut_nodes_utilization c crit mode act_qcs (snd p) of
                            Inl e \<Rightarrow> Inl e
                          | Inr per_node \<Rightarrow> Inr (fst p, per_node))"
  define S where "S = (\<lambda>v :: (Cut \<times> (BaseNode \<times> Utilization) list) list.
       map snd (map (\<lambda>(cut, per_node). (cut, sum_utilization (map snd per_node)))
                                      (filter (\<lambda>(cut, per_node). per_node \<noteq> []) v)))"
  have Geq: "(\<lambda>(cut, cut_nodes).
                          case cut_nodes_utilization c crit mode act_qcs cut_nodes of
                            Inl e \<Rightarrow> Inl e
                          | Inr per_node \<Rightarrow> Inr (cut, per_node)) = G"
    by (simp add: G_def fun_eq_iff case_prod_beta)
  from ok False cs obtain v m where v: "mapM G cs = Inr v"
    and m: "max_utilization (S v) = Inr m" and pk: "peak = bytes m"
    unfolding compute_activation_utilization_by_cut_def Let_def Geq S_def
    by (auto split: if_splits sum.splits)
  have S_set: "u \<in> set (S v) \<longleftrightarrow>
      (\<exists>r \<in> set v. snd r \<noteq> [] \<and> u = sum_utilization (map snd (snd r)))" for u
  proof -
    have "S v = map (\<lambda>r. sum_utilization (map snd (snd r))) (filter (\<lambda>r. snd r \<noteq> []) v)"
      unfolding S_def by (simp add: split_def comp_def)
    then have "set (S v) = (\<lambda>r. sum_utilization (map snd (snd r))) ` {r \<in> set v. snd r \<noteq> []}"
      by simp
    then show ?thesis by blast
  qed
  have fwd: "\<exists>r \<in> set v. cut_nodes_utilization c crit mode act_qcs (snd p) = Inr (snd r)"
    if "p \<in> set cs" for p
  proof -
    from mapM_Inr_image [OF v that] obtain r where "r \<in> set v" "G p = Inr r" by blast
    then show ?thesis unfolding G_def by (force split: sum.splits)
  qed
  have bwd: "\<exists>p \<in> set cs. cut_nodes_utilization c crit mode act_qcs (snd p) = Inr (snd r)"
    if "r \<in> set v" for r
  proof -
    from mapM_Inr_preimage [OF v that] obtain p where "p \<in> set cs" "G p = Inr r" by blast
    then show ?thesis unfolding G_def by (force split: sum.splits)
  qed
  have bytes_sum: "bytes (sum_utilization (map snd pn)) = sum_list (map (\<lambda>q. bytes (snd q)) pn)"
    for pn :: "(BaseNode \<times> Utilization) list"
    by (simp add: bytes_sum_utilization comp_def)
  from max_utilization_Inr [OF m] obtain u where
    le: "\<forall>u \<in> set (S v). bytes u \<le> bytes m" and u: "u \<in> set (S v)" "bytes u = bytes m"
    by blast
  from u(1) obtain r where r: "r \<in> set v" "snd r \<noteq> []"
    "u = sum_utilization (map snd (snd r))"
    unfolding S_set by blast
  from bwd [OF r(1)] obtain p0 where p0: "p0 \<in> set cs"
    "cut_nodes_utilization c crit mode act_qcs (snd p0) = Inr (snd r)" by blast
  from cuts_nodes [OF cs p0(1)] have cn0: "snd p0 \<noteq> []" "set (snd p0) \<subseteq> set (nodes (graph c))"
    by blast+
  have sp0: "spec_cut_bytes crit mode act_qcs (snd p0) = Inr peak"
    using cut_bytes_spec(1) [OF p0(2) cn0] unfolding pk u(2) [symmetric] r(3) bytes_sum .
  have nonneg: "0 \<le> peak"
    using cut_bytes_spec(3) [OF p0(2) cn0] unfolding pk u(2) [symmetric] r(3) bytes_sum .
  show ?thesis
  proof (intro conjI ballI impI)
    fix p assume pin: "p \<in> set cs"
    from fwd [OF pin] obtain r' where r': "r' \<in> set v"
      "cut_nodes_utilization c crit mode act_qcs (snd p) = Inr (snd r')" by blast
    from cuts_nodes [OF cs pin] have cn: "snd p \<noteq> []" "set (snd p) \<subseteq> set (nodes (graph c))"
      by blast+
    note sp = cut_bytes_spec(1) [OF r'(2) cn]
    have "sum_list (map (\<lambda>q. bytes (snd q)) (snd r')) \<le> peak"
    proof (cases "snd r' = []")
      case True
      with nonneg show ?thesis by simp
    next
      case False
      with r'(1) have "sum_utilization (map snd (snd r')) \<in> set (S v)"
        unfolding S_set by blast
      with le have "bytes (sum_utilization (map snd (snd r'))) \<le> bytes m" by blast
      then show ?thesis unfolding pk bytes_sum .
    qed
    with sp show "\<exists>b. spec_cut_bytes crit mode act_qcs (snd p) = Inr b \<and> b \<le> peak"
      by blast
  next
    from p0(1) sp0 show "\<exists>p \<in> set cs. spec_cut_bytes crit mode act_qcs (snd p) = Inr peak"
      by blast
  qed
qed

theorem peak_activation_is_max_over_cuts_witness:
  "compute_activation_utilization_by_cut ex_calc AnyQuantized Q8Bit None =
    Inr (80,
         [([''input''], \<lparr>size_u = 48, bytes = 48\<rparr>),
          ([''input'', ''conv''], \<lparr>size_u = 80, bytes = 80\<rparr>),
          ([''conv'', ''conv_reused''], \<lparr>size_u = 64, bytes = 64\<rparr>)],
         [([''input''], [(ex_input, \<lparr>size_u = 48, bytes = 48\<rparr>)]),
          ([''input'', ''conv''],
           [(ex_input, \<lparr>size_u = 48, bytes = 48\<rparr>),
            (ex_conv, \<lparr>size_u = 32, bytes = 32\<rparr>)]),
          ([''conv'', ''conv_reused''],
           [(ex_conv, \<lparr>size_u = 32, bytes = 32\<rparr>),
            (ex_conv_reused, \<lparr>size_u = 32, bytes = 32\<rparr>)])]) \<and>
   cuts ex_calc =
    Inr [([''input''], [ex_input]),
         ([''input'', ''conv''], [ex_input, ex_conv]),
         ([''conv'', ''conv_reused''], [ex_conv, ex_conv_reused])] \<and>
   (\<exists>b. spec_cut_bytes AnyQuantized Q8Bit None [ex_input] = Inr b \<and> b \<le> 80) \<and>
   (\<exists>b. spec_cut_bytes AnyQuantized Q8Bit None [ex_input, ex_conv] = Inr b \<and> b \<le> 80) \<and>
   (\<exists>b. spec_cut_bytes AnyQuantized Q8Bit None [ex_conv, ex_conv_reused] = Inr b \<and> b \<le> 80) \<and>
   (spec_cut_bytes AnyQuantized Q8Bit None [ex_input] = Inr 80 \<or>
    spec_cut_bytes AnyQuantized Q8Bit None [ex_input, ex_conv] = Inr 80 \<or>
    spec_cut_bytes AnyQuantized Q8Bit None [ex_conv, ex_conv_reused] = Inr 80)"
proof -
  from peak_activation_is_max_over_cuts [OF ex_by_cut_q8 ex_cuts]
  have "(\<exists>b. spec_cut_bytes AnyQuantized Q8Bit None [ex_input] = Inr b \<and> b \<le> 80) \<and>
   (\<exists>b. spec_cut_bytes AnyQuantized Q8Bit None [ex_input, ex_conv] = Inr b \<and> b \<le> 80) \<and>
   (\<exists>b. spec_cut_bytes AnyQuantized Q8Bit None [ex_conv, ex_conv_reused] = Inr b \<and> b \<le> 80) \<and>
   (spec_cut_bytes AnyQuantized Q8Bit None [ex_input] = Inr 80 \<or>
    spec_cut_bytes AnyQuantized Q8Bit None [ex_input, ex_conv] = Inr 80 \<or>
    spec_cut_bytes AnyQuantized Q8Bit None [ex_conv, ex_conv_reused] = Inr 80)"
    by simp
  with ex_by_cut_q8 ex_cuts show ?thesis by blast
qed

end
